(* ===== verification/Hgw_Prelude.thy ===== *)
theory Hgw_Prelude
  imports Main "HOL-Library.Word" "HOL-Library.Sublist"
begin

text \<open>
  The vocabulary every component of the gateway shares: bytes and byte strings, the ways a Go call
  can end (a value, an \<open>error\<close>, a run-time panic, a fatal exit), sequencing of calls that may fail,
  and the list facts the components use. Nothing here models a line of the repository by itself.
\<close>

section \<open>Collections of facts\<close>

named_theorems result_simps \<open>how a sequenced result can be a value or a failure\<close>
named_theorems len_simps \<open>lengths of encodings, digests and frames\<close>

section \<open>Bytes\<close>

type_synonym byte = "8 word"
type_synonym bytes = "8 word list"
type_synonym u32 = "32 word"

text \<open>Go's conversions \<open>[]byte(s)\<close> and \<open>string(b)\<close>: a Go string is a sequence of bytes.\<close>

definition bytes_of :: "string \<Rightarrow> bytes" where
  "bytes_of s = map of_char s"

definition string_of :: "bytes \<Rightarrow> string" where
  "string_of bs = map (\<lambda>b. char_of (unat b)) bs"

lemma length_bytes_of [simp, len_simps]: "length (bytes_of s) = length s"
  by (simp add: bytes_of_def)

lemma length_string_of [simp, len_simps]: "length (string_of bs) = length bs"
  by (simp add: string_of_def)

lemma bytes_of_append [simp]: "bytes_of (s @ t) = bytes_of s @ bytes_of t"
  by (simp add: bytes_of_def)

lemma bytes_of_Nil [simp]: "bytes_of [] = []"
  by (simp add: bytes_of_def)

lemma unat_of_char: "unat (of_char c :: byte) = of_char c"
proof -
  have "(of_char c :: byte) = of_nat (of_char c)" by (simp only: of_nat_of_char)
  then show ?thesis by (simp add: unat_of_nat)
qed

lemma bytes_of_string_of [simp]: "bytes_of (string_of bs) = bs"
proof -
  have "(of_char (char_of (unat b)) :: byte) = b" for b :: byte
  proof -
    have "unat b < 256" using unsigned_less [of b, where ?'a = nat] by simp
    then have "(of_char (char_of (unat b)) :: nat) = unat b" by simp
    then have "unat (of_char (char_of (unat b)) :: byte) = unat b" by (simp add: unat_of_char)
    then show ?thesis by (simp only: unsigned_word_eqI)
  qed
  then show ?thesis by (simp add: bytes_of_def string_of_def comp_def)
qed

lemma string_of_bytes_of [simp]: "string_of (bytes_of s) = s"
  by (simp add: string_of_def bytes_of_def unat_of_char comp_def)

section \<open>How a Go call ends\<close>

datatype go_panic =
    SliceBounds        \<comment> \<open>slice bounds out of range\<close>
  | IndexRange         \<comment> \<open>index out of range\<close>
  | MakeSliceLen       \<comment> \<open>makeslice: len out of range\<close>
  | NilDereference     \<comment> \<open>invalid memory address or nil pointer dereference\<close>
  | ClosedChannel      \<comment> \<open>send on or close of a closed channel\<close>
  | ExplicitPanic      \<comment> \<open>a call of \<open>panic\<close> in the source\<close>

datatype 'e failure =
    Error 'e
  | Panic go_panic
  | Fatal string       \<comment> \<open>\<open>log.Fatalf\<close> or \<open>logger.Fatal\<close>: the process exits\<close>

type_synonym ('e, 'a) result = "'e failure + 'a"

definition bindR :: "'f + 'a \<Rightarrow> ('a \<Rightarrow> 'f + 'b) \<Rightarrow> 'f + 'b" where
  "bindR m k = (case m of Inl e \<Rightarrow> Inl e | Inr x \<Rightarrow> k x)"

lemma bindR_simps [simp]: "bindR (Inr x) k = k x" "bindR (Inl e) k = Inl e"
  by (simp_all add: bindR_def)

lemma bindR_Inr_iff [result_simps]: "bindR m k = Inr y \<longleftrightarrow> (\<exists>x. m = Inr x \<and> k x = Inr y)"
  by (cases m) auto

lemma bindR_Inl_iff [result_simps]:
  "bindR m k = Inl e \<longleftrightarrow> m = Inl e \<or> (\<exists>x. m = Inr x \<and> k x = Inl e)"
  by (cases m) auto

lemma bindR_cong [fundef_cong]:
  "m = m' \<Longrightarrow> (\<And>x. m' = Inr x \<Longrightarrow> k x = k' x) \<Longrightarrow> bindR m k = bindR m' k'"
  by (cases m') auto

lemma if_Inl_eq_Inr [result_simps]: "(if c then Inl e else r) = Inr x \<longleftrightarrow> \<not> c \<and> r = Inr x"
  by simp

lemma prod_case_eq_Inr [result_simps]:
  "(case p of (a, b) \<Rightarrow> f a b) = Inr x \<longleftrightarrow> f (fst p) (snd p) = Inr x"
  by (cases p) simp

text \<open>\<open>of_option e\<close> reads the pair \<open>(value, err)\<close> of a Go call whose error is turned into \<open>e\<close>.\<close>

definition of_option :: "'e \<Rightarrow> 'a option \<Rightarrow> ('e, 'a) result" where
  "of_option e x = (case x of None \<Rightarrow> Inl (Error e) | Some v \<Rightarrow> Inr v)"

lemma of_option_simps [simp]: "of_option e None = Inl (Error e)" "of_option e (Some v) = Inr v"
  by (simp_all add: of_option_def)

lemma of_option_Inr_iff [result_simps]: "of_option e x = Inr v \<longleftrightarrow> x = Some v"
  by (cases x) auto

lemma of_option_Inl_iff [result_simps]: "of_option e x = Inl f \<longleftrightarrow> x = None \<and> f = Error e"
  by (cases x) auto

section \<open>Lists\<close>

lemma takeWhile_stop:
  "\<forall>x \<in> set xs. P x \<Longrightarrow> \<not> P y \<Longrightarrow> takeWhile P (xs @ y # ys) = xs"
  by (induction xs) auto

lemma dropWhile_stop:
  "\<forall>x \<in> set xs. P x \<Longrightarrow> \<not> P y \<Longrightarrow> dropWhile P (xs @ y # ys) = y # ys"
  by (induction xs) auto

lemma find_Some_mem: "find P xs = Some x \<Longrightarrow> x \<in> set xs \<and> P x"
  by (induction xs) (auto split: if_splits)

section \<open>Step systems\<close>

text \<open>
  The goroutines of a component are a step relation; what its users rely on is a property of the
  state that holds at the start and that every step keeps.
\<close>

locale step_system =
  fixes step :: "'s \<Rightarrow> 's \<Rightarrow> bool" and start :: 's and ok :: "'s \<Rightarrow> bool"
  assumes start_ok: "ok start"
    and step_ok: "step s s' \<Longrightarrow> ok s \<Longrightarrow> ok s'"
begin

lemma steps_ok: "step\<^sup>*\<^sup>* s s' \<Longrightarrow> ok s \<Longrightarrow> ok s'"
  by (induction rule: rtranclp_induct) (auto intro: step_ok)

lemma always: "step\<^sup>*\<^sup>* start s \<Longrightarrow> ok s"
  by (rule steps_ok [OF _ start_ok])

end

end
