(* ===== verification/Go_Encoding.thy ===== *)
theory Go_Encoding
  imports Hgw_Prelude
begin

text \<open>
  The Go standard library's text and binary encodings, as the gateway calls them:
  \<^verbatim>\<open>encoding/binary\<close> (little-endian 32-bit words), \<^verbatim>\<open>encoding/hex\<close>, \<^verbatim>\<open>encoding/base64\<close>
  (the standard alphabet with padding, line breaks ignored) and \<^verbatim>\<open>strings.Split\<close>. The kexec
  package format, the sealer, the OCRAM handoff and the serial bootstrap are built on them.
\<close>

unbundle bit_operations_syntax

section \<open>encoding/binary: little-endian 32-bit words\<close>

definition put_uint32 :: "u32 \<Rightarrow> bytes" where
  "put_uint32 v = [ucast v, ucast (drop_bit 8 v), ucast (drop_bit 16 v), ucast (drop_bit 24 v)]"

text \<open>\<open>binary.LittleEndian.Uint32\<close>; the callers pass exactly four bytes.\<close>

fun uint32_le :: "bytes \<Rightarrow> u32" where
  "uint32_le (a # b # c # d # _) =
     ucast a OR push_bit 8 (ucast b) OR push_bit 16 (ucast c) OR push_bit 24 (ucast d)"
| "uint32_le _ = 0"

lemma length_put_uint32 [simp, len_simps]: "length (put_uint32 v) = 4"
  by (simp add: put_uint32_def)

lemma bit_byte_beyond [simp]: "8 \<le> n \<Longrightarrow> \<not> bit (b :: byte) n"
  using bit_imp_le_length [of b n] by auto

lemmas bit_simps_le = bit_or_iff bit_push_bit_iff bit_ucast_iff bit_drop_bit_eq

lemma uint32_le_put [simp]: "uint32_le (put_uint32 v @ rest) = v"
proof (rule bit_eqI)
  fix n
  assume "possible_bit TYPE(32 word) n"
  then have "n < 32" by simp
  then consider "n < 8" | "8 \<le> n" "n < 16" | "16 \<le> n" "n < 24" | "24 \<le> n" "n < 32"
    by linarith
  then show "bit (uint32_le (put_uint32 v @ rest)) n = bit v n"
    by cases (auto simp: put_uint32_def bit_simps_le less_diff_conv2)
qed

lemma put_uint32_le:
  assumes "length bs = 4"
  shows "put_uint32 (uint32_le bs) = bs"
proof -
  from assms obtain a b c d where "bs = [a, b, c, d]"
    by (auto simp: length_Suc_conv eval_nat_numeral)
  then show ?thesis
    by (auto simp: put_uint32_def bit_simps_le intro!: bit_eqI)
qed

section \<open>encoding/hex\<close>

definition hex_digit :: "nat \<Rightarrow> byte" where
  "hex_digit d = of_nat (if d < 10 then 48 + d else 87 + d)"

definition hex_encode :: "bytes \<Rightarrow> bytes" where
  "hex_encode bs = concat (map (\<lambda>b. [hex_digit (unat b div 16), hex_digit (unat b mod 16)]) bs)"

definition from_hex :: "byte \<Rightarrow> nat option" where
  "from_hex c = (let n = unat c in
     if 48 \<le> n \<and> n \<le> 57 then Some (n - 48)
     else if 97 \<le> n \<and> n \<le> 102 then Some (n - 87)
     else if 65 \<le> n \<and> n \<le> 70 then Some (n - 55)
     else None)"

text \<open>\<open>hex.DecodeString\<close>: an odd length or a character that is no hex digit is an error.\<close>

fun hex_decode :: "bytes \<Rightarrow> bytes option" where
  "hex_decode [] = Some []"
| "hex_decode [_] = None"
| "hex_decode (a # b # rest) =
     (case (from_hex a, from_hex b, hex_decode rest) of
        (Some x, Some y, Some r) \<Rightarrow> Some (of_nat (16 * x + y) # r)
      | _ \<Rightarrow> None)"

definition is_lower_hex :: "byte \<Rightarrow> bool" where
  "is_lower_hex c \<longleftrightarrow> 48 \<le> unat c \<and> unat c \<le> 57 \<or> 97 \<le> unat c \<and> unat c \<le> 102"

lemma unat_byte_less [simp]: "unat (b :: byte) < 256"
  using unsigned_less [of b, where ?'a = nat] by simp

lemma unat_of_nat_byte [simp]: "n < 256 \<Longrightarrow> unat (of_nat n :: byte) = n"
  by (simp add: unat_of_nat)

lemma unat_hex_digit: "d < 16 \<Longrightarrow> unat (hex_digit d) = (if d < 10 then 48 + d else 87 + d)"
  by (simp add: hex_digit_def unat_of_nat del: of_nat_add)

lemma from_hex_digit [simp]: "d < 16 \<Longrightarrow> from_hex (hex_digit d) = Some d"
  by (auto simp: from_hex_def unat_hex_digit Let_def)

lemma is_lower_hex_digit [simp]: "d < 16 \<Longrightarrow> is_lower_hex (hex_digit d)"
  by (auto simp: is_lower_hex_def unat_hex_digit)

lemma unat_byte_div16 [simp]: "unat (b :: byte) div 16 < 16"
  using unat_byte_less [of b] by linarith

lemma length_hex_encode [simp, len_simps]: "length (hex_encode bs) = 2 * length bs"
  by (induction bs) (auto simp: hex_encode_def)

lemma hex_encode_lower: "c \<in> set (hex_encode bs) \<Longrightarrow> is_lower_hex c"
  by (auto simp: hex_encode_def)

lemma hex_decode_encode [simp]: "hex_decode (hex_encode bs) = Some bs"
  by (induction bs) (auto simp: hex_encode_def)

section \<open>encoding/base64: the standard encoding\<close>

definition b64_char :: "nat \<Rightarrow> byte" where
  "b64_char k = of_nat (if k < 26 then 65 + k else if k < 52 then 71 + k
     else if k < 62 then k - 4 else if k = 62 then 43 else 47)"

definition b64_val :: "byte \<Rightarrow> nat option" where
  "b64_val c = (let n = unat c in
     if 65 \<le> n \<and> n \<le> 90 then Some (n - 65)
     else if 97 \<le> n \<and> n \<le> 122 then Some (n - 71)
     else if 48 \<le> n \<and> n \<le> 57 then Some (n + 4)
     else if n = 43 then Some 62
     else if n = 47 then Some 63
     else None)"

abbreviation b64_pad :: byte where "b64_pad \<equiv> 61"

definition b64_word :: "nat \<Rightarrow> nat \<Rightarrow> nat \<Rightarrow> nat \<Rightarrow> nat" where
  "b64_word x y z w = x * 262144 + y * 4096 + z * 64 + w"

text \<open>
  \<open>decodeQuantum\<close> of Go 1.20, line breaks removed: four characters of the alphabet give three
  bytes; a quantum with one or two padding characters ends the input; anything else is an error.
  The unused low bits of a padded quantum are not checked (the encoding is not in strict mode).
\<close>

fun b64_quanta :: "bytes \<Rightarrow> bytes option" where
  "b64_quanta [] = Some []"
| "b64_quanta (a # b # c # d # rest) =
     (case (b64_val a, b64_val b, b64_val c, b64_val d) of
        (Some x, Some y, Some z, Some w) \<Rightarrow>
          map_option (\<lambda>r. of_nat (b64_word x y z w div 65536)
                         # of_nat (b64_word x y z w div 256 mod 256)
                         # of_nat (b64_word x y z w mod 256) # r) (b64_quanta rest)
      | (Some x, Some y, Some z, None) \<Rightarrow>
          if d = b64_pad \<and> rest = []
          then Some [of_nat (b64_word x y z 0 div 65536), of_nat (b64_word x y z 0 div 256 mod 256)]
          else None
      | (Some x, Some y, None, _) \<Rightarrow>
          if c = b64_pad \<and> d = b64_pad \<and> rest = []
          then Some [of_nat (b64_word x y 0 0 div 65536)]
          else None
      | _ \<Rightarrow> None)"
| "b64_quanta _ = None"

definition base64_decode :: "bytes \<Rightarrow> bytes option" where
  "base64_decode s = b64_quanta (filter (\<lambda>c. c \<noteq> 10 \<and> c \<noteq> 13) s)"

text \<open>The encoder, which the configuration scripts and the sealer's \<open>jq | base64\<close> pipeline use.\<close>

definition b64_group :: "byte \<Rightarrow> byte \<Rightarrow> byte \<Rightarrow> nat" where
  "b64_group a b c = unat a * 65536 + unat b * 256 + unat c"

fun base64_encode :: "bytes \<Rightarrow> bytes" where
  "base64_encode [] = []"
| "base64_encode [a] =
     (let n = b64_group a 0 0
      in [b64_char (n div 262144), b64_char (n div 4096 mod 64), b64_pad, b64_pad])"
| "base64_encode [a, b] =
     (let n = b64_group a b 0
      in [b64_char (n div 262144), b64_char (n div 4096 mod 64), b64_char (n div 64 mod 64), b64_pad])"
| "base64_encode (a # b # c # rest) =
     (let n = b64_group a b c
      in b64_char (n div 262144) # b64_char (n div 4096 mod 64) # b64_char (n div 64 mod 64)
         # b64_char (n mod 64) # base64_encode rest)"

lemma unat_b64_char:
  "k < 64 \<Longrightarrow> unat (b64_char k) = (if k < 26 then 65 + k else if k < 52 then 71 + k
     else if k < 62 then k - 4 else if k = 62 then 43 else 47)"
  by (simp add: b64_char_def unat_of_nat del: of_nat_add)

lemma b64_val_char [simp]: "k < 64 \<Longrightarrow> b64_val (b64_char k) = Some k"
  by (auto simp: b64_val_def unat_b64_char Let_def)

lemma b64_val_pad [simp]: "b64_val b64_pad = None"
  by (simp add: b64_val_def)

lemma b64_char_not_break: "k < 64 \<Longrightarrow> b64_char k \<noteq> 10 \<and> b64_char k \<noteq> 13"
  using unat_b64_char [of k] by (auto split: if_splits)

lemma b64_char_mod_not_break [simp]: "b64_char (n mod 64) \<noteq> 10" "b64_char (n mod 64) \<noteq> 13"
  using b64_char_not_break [of "n mod 64"] by simp_all

lemma b64_top_digit [simp]: "n < 16777216 \<Longrightarrow> n div 262144 < (64 :: nat)"
  by linarith

lemma b64_word_digits:
  "b64_word (n div 262144) (n div 4096 mod 64) (n div 64 mod 64) (n mod 64) = n"
proof -
  have "n div 4096 = n div 262144 * 64 + n div 4096 mod 64"
    using div_mult_mod_eq [of "n div 4096" 64] by (simp add: div_mult2_eq [symmetric])
  moreover have "n div 64 = n div 4096 * 64 + n div 64 mod 64"
    using div_mult_mod_eq [of "n div 64" 64] by (simp add: div_mult2_eq [symmetric])
  moreover have "n = n div 64 * 64 + n mod 64" by simp
  ultimately show ?thesis unfolding b64_word_def by linarith
qed

text \<open>The three bytes of a 24-bit group, read back from the group.\<close>

lemma b64_group_bytes:
  "b64_group a b c < 16777216" "(of_nat (b64_group a b c div 65536) :: byte) = a"
  "(of_nat (b64_group a b c div 256 mod 256) :: byte) = b" "(of_nat (b64_group a b c mod 256) :: byte) = c"
proof -
  have u: "unat a < 256" "unat b < 256" "unat c < 256" by simp_all
  then show "b64_group a b c < 16777216" unfolding b64_group_def by linarith
  define m where "m = unat a * 256 + unat b"
  have n: "b64_group a b c = m * 256 + unat c" by (simp add: b64_group_def m_def algebra_simps)
  have "b64_group a b c div 256 = m" "b64_group a b c mod 256 = unat c" using u(3) by (simp_all add: n)
  moreover have "m div 256 = unat a" "m mod 256 = unat b" using u(2) by (simp_all add: m_def)
  moreover have "b64_group a b c div 65536 = b64_group a b c div 256 div 256"
    by (simp add: div_mult2_eq [symmetric])
  ultimately show "(of_nat (b64_group a b c div 65536) :: byte) = a"
    "(of_nat (b64_group a b c div 256 mod 256) :: byte) = b"
    "(of_nat (b64_group a b c mod 256) :: byte) = c"
    by simp_all
qed

lemma b64_group_trailing: "b64_group a b 0 mod 64 = 0" "b64_group a 0 0 mod 4096 = 0"
proof -
  have "b64_group a b 0 = 64 * (unat a * 1024 + unat b * 4)" "b64_group a 0 0 = 4096 * (unat a * 16)"
    by (simp_all add: b64_group_def)
  then show "b64_group a b 0 mod 64 = 0" "b64_group a 0 0 mod 4096 = 0"
    by (simp_all only: mod_mult_self1_is_0)
qed

lemma b64_quanta_group:
  "n < 16777216 \<Longrightarrow> b64_quanta (b64_char (n div 262144) # b64_char (n div 4096 mod 64)
       # b64_char (n div 64 mod 64) # b64_char (n mod 64) # rest) =
     map_option (\<lambda>r. of_nat (n div 65536) # of_nat (n div 256 mod 256) # of_nat (n mod 256) # r)
       (b64_quanta rest)"
  by (simp add: b64_word_digits)

lemma b64_quanta_pad1:
  assumes "n < 16777216" "n mod 64 = 0"
  shows "b64_quanta [b64_char (n div 262144), b64_char (n div 4096 mod 64),
       b64_char (n div 64 mod 64), b64_pad] =
     Some [of_nat (n div 65536), of_nat (n div 256 mod 256)]"
  using b64_word_digits [of n] assms by simp

lemma b64_quanta_pad2:
  assumes "n < 16777216" "n mod 4096 = 0"
  shows "b64_quanta [b64_char (n div 262144), b64_char (n div 4096 mod 64), b64_pad, b64_pad] =
     Some [of_nat (n div 65536)]"
proof -
  obtain k where n: "n = 4096 * k" using assms(2) by fastforce
  have "n mod 64 = 0" "n div 64 mod 64 = 0" by (simp_all add: n)
  then show ?thesis using b64_word_digits [of n] assms(1) by simp
qed

lemma b64_quanta_encode: "b64_quanta (base64_encode bs) = Some bs"
  by (induction bs rule: base64_encode.induct)
     (simp_all only: base64_encode.simps Let_def b64_quanta.simps(1) b64_quanta_group
        b64_quanta_pad1 b64_quanta_pad2 b64_group_bytes b64_group_trailing option.map)

lemma base64_encode_no_break: "c \<in> set (base64_encode bs) \<Longrightarrow> c \<noteq> 10 \<and> c \<noteq> 13"
proof -
  have top: "b64_char (b64_group x y z div 262144) \<noteq> 10 \<and> b64_char (b64_group x y z div 262144) \<noteq> 13"
    for x y z using b64_group_bytes(1) [of x y z] by (simp add: b64_char_not_break)
  show "c \<in> set (base64_encode bs) \<Longrightarrow> c \<noteq> 10 \<and> c \<noteq> 13"
    by (induction bs rule: base64_encode.induct) (auto simp: Let_def top)
qed

lemma base64_decode_encode [simp]: "base64_decode (base64_encode bs) = Some bs"
proof -
  have "filter (\<lambda>c. c \<noteq> 10 \<and> c \<noteq> 13) (base64_encode bs) = base64_encode bs"
    by (rule filter_True) (blast dest: base64_encode_no_break)
  then show ?thesis by (simp add: base64_decode_def b64_quanta_encode)
qed

section \<open>strings.Split\<close>

fun split_on :: "'a \<Rightarrow> 'a list \<Rightarrow> 'a list list" where
  "split_on sep [] = [[]]"
| "split_on sep (c # cs) =
     (if c = sep then [] # split_on sep cs
      else (case split_on sep cs of [] \<Rightarrow> [[c]] | p # ps \<Rightarrow> (c # p) # ps))"

lemma split_on_nonempty [simp]: "split_on sep cs \<noteq> []"
  by (cases cs) (auto split: list.splits)

lemma hd_split_on: "hd (split_on sep cs) = takeWhile (\<lambda>c. c \<noteq> sep) cs"
proof (induction cs)
  case (Cons c cs)
  then show ?case using split_on_nonempty [of sep cs] by (auto split: list.splits)
qed simp

end
