(* ===== verification/Go_Json.thy ===== *)
theory Go_Json
  imports Go_Encoding
begin

text \<open>
  \<^verbatim>\<open>encoding/json\<close> of Go 1.20 as far as the gateway uses it: the grammar the scanner accepts (with its
  nesting limit), string unquoting, and \<open>json.Unmarshal\<close> into the struct
  \<open>minimalConfig\<close> of the kexec library, a single \<open>int64\<close> field \<open>version\<close>. The parser is a
  recursive descent with a fuel argument; \<open>json_parse\<close> gives it enough (\<open>parse_enough_fuel\<close>).
\<close>

unbundle bit_operations_syntax

section \<open>Values\<close>

datatype json =
    JNull
  | JBool bool
  | JNum bytes                   \<comment> \<open>the literal as written\<close>
  | JStr bytes                   \<comment> \<open>the unquoted string\<close>
  | JArr "json list"
  | JObj "(bytes \<times> json) list"   \<comment> \<open>in source order, duplicates kept\<close>

section \<open>Lexical elements\<close>

definition is_space :: "byte \<Rightarrow> bool" where
  "is_space c \<longleftrightarrow> c = 32 \<or> c = 9 \<or> c = 13 \<or> c = 10"

definition skip_ws :: "bytes \<Rightarrow> bytes" where
  "skip_ws s = dropWhile is_space s"

definition is_digit :: "byte \<Rightarrow> bool" where
  "is_digit c \<longleftrightarrow> 48 \<le> unat c \<and> unat c \<le> 57"

definition is_hex :: "byte \<Rightarrow> bool" where
  "is_hex c \<longleftrightarrow> from_hex c \<noteq> None"

definition is_escape :: "byte \<Rightarrow> bool" where
  "is_escape e \<longleftrightarrow> e = 98 \<or> e = 102 \<or> e = 110 \<or> e = 114 \<or> e = 116 \<or> e = 92 \<or> e = 47 \<or> e = 34"

text \<open>The body of a string literal up to its closing quote, and what follows.\<close>

fun scan_string :: "bytes \<Rightarrow> (bytes \<times> bytes) option" where
  "scan_string [] = None"
| "scan_string (c # cs) =
     (if c = 34 then Some ([], cs)
      else if c = 92 then
        (case cs of
           [] \<Rightarrow> None
         | e # es \<Rightarrow>
             if is_escape e
             then map_option (\<lambda>(r, t). (c # e # r, t)) (scan_string es)
             else if e = 117 then
               (case es of
                  h1 # h2 # h3 # h4 # hs \<Rightarrow>
                    if is_hex h1 \<and> is_hex h2 \<and> is_hex h3 \<and> is_hex h4
                    then map_option (\<lambda>(r, t). (c # e # h1 # h2 # h3 # h4 # r, t)) (scan_string hs)
                    else None
                | _ \<Rightarrow> None)
             else None)
      else if unat c < 32 then None
      else map_option (\<lambda>(r, t). (c # r, t)) (scan_string cs))"

definition scan_exp :: "bytes \<Rightarrow> bytes \<Rightarrow> (bytes \<times> bytes) option" where
  "scan_exp acc s =
     (case s of
        [] \<Rightarrow> Some (acc, s)
      | c # r \<Rightarrow>
          if c = 101 \<or> c = 69 then
            (let sg = (case r of x # _ \<Rightarrow> if x = 43 \<or> x = 45 then [x] else [] | [] \<Rightarrow> []);
                 r1 = drop (length sg) r;
                 ds = takeWhile is_digit r1
             in if ds = [] then None else Some (acc @ c # sg @ ds, dropWhile is_digit r1))
          else Some (acc, s))"

definition scan_frac :: "bytes \<Rightarrow> bytes \<Rightarrow> (bytes \<times> bytes) option" where
  "scan_frac acc s =
     (case s of
        [] \<Rightarrow> Some (acc, s)
      | c # r \<Rightarrow>
          if c = 46 then
            (let ds = takeWhile is_digit r
             in if ds = [] then None else scan_exp (acc @ c # ds) (dropWhile is_digit r))
          else scan_exp acc s)"

definition scan_number :: "bytes \<Rightarrow> (bytes \<times> bytes) option" where
  "scan_number s =
     (let sg = (case s of x # _ \<Rightarrow> if x = 45 then [x] else [] | [] \<Rightarrow> []);
          s1 = drop (length sg) s
      in case s1 of
           [] \<Rightarrow> None
         | d # s2 \<Rightarrow>
             if d = 48 then scan_frac (sg @ [d]) s2
             else if is_digit d
               then scan_frac (sg @ d # takeWhile is_digit s2) (dropWhile is_digit s2)
             else None)"

section \<open>Unquoting\<close>

text \<open>\<open>utf8.DecodeRune\<close>: a rune and its width; an invalid sequence is U+FFFD of width one.\<close>

definition in_range :: "nat \<Rightarrow> nat \<Rightarrow> byte \<Rightarrow> bool" where
  "in_range lo hi b \<longleftrightarrow> lo \<le> unat b \<and> unat b \<le> hi"

abbreviation rune_error :: nat where "rune_error \<equiv> 0xFFFD"

fun decode_rune :: "bytes \<Rightarrow> nat \<times> nat" where
  "decode_rune [] = (rune_error, 0)"
| "decode_rune (a # s) =
     (let x = unat a;
          lo = (if x = 0xE0 then 0xA0 else if x = 0xF0 then 0x90 else 0x80);
          hi = (if x = 0xED then 0x9F else if x = 0xF4 then 0x8F else 0xBF)
      in if x < 0x80 then (x, 1)
         else if 0xC2 \<le> x \<and> x \<le> 0xDF then
           (case s of
              b # _ \<Rightarrow> if in_range 0x80 0xBF b then ((x - 0xC0) * 64 + (unat b - 0x80), 2)
                       else (rune_error, 1)
            | _ \<Rightarrow> (rune_error, 1))
         else if 0xE0 \<le> x \<and> x \<le> 0xEF then
           (case s of
              b # c # _ \<Rightarrow>
                if in_range lo hi b \<and> in_range 0x80 0xBF c
                then ((x - 0xE0) * 4096 + (unat b - 0x80) * 64 + (unat c - 0x80), 3)
                else (rune_error, 1)
            | _ \<Rightarrow> (rune_error, 1))
         else if 0xF0 \<le> x \<and> x \<le> 0xF4 then
           (case s of
              b # c # d # _ \<Rightarrow>
                if in_range lo hi b \<and> in_range 0x80 0xBF c \<and> in_range 0x80 0xBF d
                then ((x - 0xF0) * 262144 + (unat b - 0x80) * 4096 + (unat c - 0x80) * 64
                        + (unat d - 0x80), 4)
                else (rune_error, 1)
            | _ \<Rightarrow> (rune_error, 1))
         else (rune_error, 1))"

definition is_surrogate :: "nat \<Rightarrow> bool" where
  "is_surrogate r \<longleftrightarrow> 0xD800 \<le> r \<and> r < 0xE000"

definition encode_rune :: "nat \<Rightarrow> bytes" where
  "encode_rune r0 =
     (let r = (if 0x10FFFF < r0 \<or> is_surrogate r0 then rune_error else r0)
      in if r < 0x80 then [of_nat r]
         else if r < 0x800 then [of_nat (0xC0 + r div 64), of_nat (0x80 + r mod 64)]
         else if r < 0x10000
           then [of_nat (0xE0 + r div 4096), of_nat (0x80 + r div 64 mod 64), of_nat (0x80 + r mod 64)]
         else [of_nat (0xF0 + r div 262144), of_nat (0x80 + r div 4096 mod 64),
               of_nat (0x80 + r div 64 mod 64), of_nat (0x80 + r mod 64)])"

fun getu4 :: "bytes \<Rightarrow> nat option" where
  "getu4 (b # u # h1 # h2 # h3 # h4 # _) =
     (if b = 92 \<and> u = 117 then
        (case (from_hex h1, from_hex h2, from_hex h3, from_hex h4) of
           (Some x, Some y, Some z, Some w) \<Rightarrow> Some (x * 4096 + y * 256 + z * 16 + w)
         | _ \<Rightarrow> None)
      else None)"
| "getu4 _ = None"

text \<open>\<open>utf16.DecodeRune\<close>: the rune of a surrogate pair, U+FFFD if it is not one.\<close>

definition decode_utf16 :: "nat \<Rightarrow> nat \<Rightarrow> nat" where
  "decode_utf16 r1 r2 =
     (if 0xD800 \<le> r1 \<and> r1 < 0xDC00 \<and> 0xDC00 \<le> r2 \<and> r2 < 0xE000
      then (r1 - 0xD800) * 1024 + (r2 - 0xDC00) + 0x10000 else rune_error)"

definition simple_escape :: "byte \<Rightarrow> byte" where
  "simple_escape e = (if e = 98 then 8 else if e = 102 then 12 else if e = 110 then 10
     else if e = 114 then 13 else if e = 116 then 9 else e)"

lemma decode_rune_width: "s \<noteq> [] \<Longrightarrow> 1 \<le> snd (decode_rune s)"
  by (cases s) (auto simp: Let_def split: list.splits)

function unquote :: "bytes \<Rightarrow> bytes" where
  "unquote s =
     (case s of
        [] \<Rightarrow> []
      | c # cs \<Rightarrow>
          if c = 92 then
            (case getu4 s of
               Some rr \<Rightarrow>
                 (let rest = drop 6 s in
                  if is_surrogate rr then
                    (case getu4 rest of
                       Some rr1 \<Rightarrow>
                         if decode_utf16 rr rr1 \<noteq> rune_error
                         then encode_rune (decode_utf16 rr rr1) @ unquote (drop 6 rest)
                         else encode_rune rune_error @ unquote rest
                     | None \<Rightarrow> encode_rune rune_error @ unquote rest)
                  else encode_rune rr @ unquote rest)
             | None \<Rightarrow>
                 (case cs of [] \<Rightarrow> [] | e # es \<Rightarrow> simple_escape e # unquote es))
          else encode_rune (fst (decode_rune s)) @ unquote (drop (snd (decode_rune s)) s))"
  by pat_completeness auto
termination
proof (relation "measure length", goal_cases)
  case (7 s c cs)
  then show ?case using decode_rune_width [of s] by simp
qed auto

declare unquote.simps [simp del]

section \<open>The grammar\<close>

datatype 'a parsed = Parsed 'a bytes | Syntax | OutOfFuel

fun bindP :: "'a parsed \<Rightarrow> ('a \<Rightarrow> bytes \<Rightarrow> 'b parsed) \<Rightarrow> 'b parsed" where
  "bindP (Parsed x r) k = k x r"
| "bindP Syntax k = Syntax"
| "bindP OutOfFuel k = OutOfFuel"

abbreviation max_nesting :: nat where "max_nesting \<equiv> 10000"

definition literal :: "bytes \<Rightarrow> json \<Rightarrow> bytes \<Rightarrow> json parsed" where
  "literal w v s = (if take (length w) s = w then Parsed v (drop (length w) s) else Syntax)"

text \<open>After an element or a member: a comma and more of them, or the closing bracket.\<close>

definition more :: "byte \<Rightarrow> (bytes \<Rightarrow> 'a list parsed) \<Rightarrow> 'a \<Rightarrow> bytes \<Rightarrow> 'a list parsed" where
  "more close rec x r =
     (case skip_ws r of
        [] \<Rightarrow> Syntax
      | c # r' \<Rightarrow>
          if c = 44 then bindP (rec r') (\<lambda>xs. Parsed (x # xs))
          else if c = close then Parsed [x] r'
          else Syntax)"

text \<open>
  \<open>parse_value fuel depth s\<close> reads one value; \<open>depth\<close> is the number of arrays and objects that are
  open, which Go limits to \<open>max_nesting\<close>.
\<close>

fun parse_value :: "nat \<Rightarrow> nat \<Rightarrow> bytes \<Rightarrow> json parsed"
and parse_elems :: "nat \<Rightarrow> nat \<Rightarrow> bytes \<Rightarrow> json list parsed"
and parse_members :: "nat \<Rightarrow> nat \<Rightarrow> bytes \<Rightarrow> (bytes \<times> json) list parsed" where
  "parse_value 0 depth s = OutOfFuel"
| "parse_value (Suc fuel) depth s =
     (case skip_ws s of
        [] \<Rightarrow> Syntax
      | c # r \<Rightarrow>
          if c = 123 then
            (if max_nesting \<le> depth then Syntax
             else case skip_ws r of
                    [] \<Rightarrow> Syntax
                  | d # r' \<Rightarrow> if d = 125 then Parsed (JObj []) r'
                             else bindP (parse_members fuel (Suc depth) r) (\<lambda>ms. Parsed (JObj ms)))
          else if c = 91 then
            (if max_nesting \<le> depth then Syntax
             else case skip_ws r of
                    [] \<Rightarrow> Syntax
                  | d # r' \<Rightarrow> if d = 93 then Parsed (JArr []) r'
                             else bindP (parse_elems fuel (Suc depth) r) (\<lambda>vs. Parsed (JArr vs)))
          else if c = 34 then
            (case scan_string r of None \<Rightarrow> Syntax | Some (raw, r') \<Rightarrow> Parsed (JStr (unquote raw)) r')
          else if c = 116 then literal (bytes_of ''true'') (JBool True) (c # r)
          else if c = 102 then literal (bytes_of ''false'') (JBool False) (c # r)
          else if c = 110 then literal (bytes_of ''null'') JNull (c # r)
          else (case scan_number (c # r) of None \<Rightarrow> Syntax | Some (lit, r') \<Rightarrow> Parsed (JNum lit) r'))"
| "parse_elems 0 depth s = OutOfFuel"
| "parse_elems (Suc fuel) depth s =
     bindP (parse_value fuel depth s) (more 93 (\<lambda>t. parse_elems fuel depth t))"
| "parse_members 0 depth s = OutOfFuel"
| "parse_members (Suc fuel) depth s =
     (case skip_ws s of
        [] \<Rightarrow> Syntax
      | q # r \<Rightarrow>
          if q \<noteq> 34 then Syntax
          else (case scan_string r of
                  None \<Rightarrow> Syntax
                | Some (raw, r1) \<Rightarrow>
                    (case skip_ws r1 of
                       [] \<Rightarrow> Syntax
                     | k # r2 \<Rightarrow>
                         if k \<noteq> 58 then Syntax
                         else bindP (parse_value fuel depth r2) (\<lambda>v.
                           more 125 (\<lambda>t. parse_members fuel depth t) (unquote raw, v)))))"

definition json_parse :: "bytes \<Rightarrow> json option" where
  "json_parse s =
     (case parse_value (2 * length s + 1) 0 s of
        Parsed v r \<Rightarrow> if skip_ws r = [] then Some v else None
      | _ \<Rightarrow> None)"

section \<open>json.Unmarshal into minimalConfig\<close>

text \<open>
  Go matches an object key to a field by its exact name or, failing that, ignoring case; for a
  name with an \<open>s\<close> or a \<open>k\<close> the comparison is \<open>equalFoldRight\<close>, which also takes U+017F for \<open>s\<close> and
  U+212A for \<open>k\<close>. On names without these letters it agrees with the other comparisons of the package.
\<close>

definition upper :: "byte \<Rightarrow> byte" where
  "upper c = c AND 0xDF"

fun equal_fold_right :: "bytes \<Rightarrow> bytes \<Rightarrow> bool" where
  "equal_fold_right [] t = (t = [])"
| "equal_fold_right (sb # s) [] = False"
| "equal_fold_right (sb # s) (tb # t) =
     (if unat tb < 0x80 then
        (sb = tb \<or> 65 \<le> unat (upper sb) \<and> unat (upper sb) \<le> 90 \<and> upper sb = upper tb)
          \<and> equal_fold_right s t
      else if sb = 115 \<or> sb = 83 then decode_rune (tb # t) = (0x17F, 2) \<and> equal_fold_right s (drop 1 t)
      else (sb = 107 \<or> sb = 75) \<and> decode_rune (tb # t) = (0x212A, 3) \<and> equal_fold_right s (drop 2 t))"

text \<open>\<open>strconv.ParseInt(lit, 10, 64)\<close> on a number literal of the grammar above.\<close>

definition digits_val :: "bytes \<Rightarrow> int" where
  "digits_val ds = fold (\<lambda>d acc. 10 * acc + int (unat d - 48)) ds 0"

definition parse_int64 :: "bytes \<Rightarrow> int option" where
  "parse_int64 lit =
     (let neg = (lit \<noteq> [] \<and> hd lit = 45);
          ds = (if neg then tl lit else lit);
          v = (if neg then - digits_val ds else digits_val ds)
      in if ds \<noteq> [] \<and> list_all is_digit ds \<and> - (2 ^ 63) \<le> v \<and> v < 2 ^ 63 then Some v else None)"

text \<open>
  Decoding continues after a type error, but the call then reports it: \<open>None\<close>. A \<open>null\<close> leaves the
  field as it is; a key that names no field is skipped; a repeated key overwrites.
\<close>

fun decode_version_field :: "int option \<Rightarrow> bytes \<times> json \<Rightarrow> int option" where
  "decode_version_field acc (k, v) =
     (if k = bytes_of ''version'' \<or> equal_fold_right (bytes_of ''version'') k then
        (case v of
           JNull \<Rightarrow> acc
         | JNum lit \<Rightarrow> (case acc of None \<Rightarrow> None | Some _ \<Rightarrow> parse_int64 lit)
         | _ \<Rightarrow> None)
      else acc)"

definition unmarshal_version :: "bytes \<Rightarrow> int option" where
  "unmarshal_version s =
     (case json_parse s of
        None \<Rightarrow> None
      | Some JNull \<Rightarrow> Some 0
      | Some (JObj ms) \<Rightarrow> foldl decode_version_field (Some 0) ms
      | Some _ \<Rightarrow> None)"

section \<open>Evaluation\<close>

text \<open>Equations with which the simplifier runs the parser on a concrete document.\<close>

lemmas parse_numeral =
  parse_value.simps(2) [of "pred_numeral k" for k, folded numeral_eq_Suc]
  parse_elems.simps(2) [of "pred_numeral k" for k, folded numeral_eq_Suc]
  parse_members.simps(2) [of "pred_numeral k" for k, folded numeral_eq_Suc]

lemma unquote_ascii:
  "unquote [] = []"
  "c \<noteq> 92 \<Longrightarrow> unat c < 0x80 \<Longrightarrow> unquote (c # cs) = c # unquote cs"
  by (simp_all add: unquote.simps [of "[]"] unquote.simps [of "c # cs"] encode_rune_def is_surrogate_def)

lemmas json_eval = unmarshal_version_def json_parse_def parse_numeral unquote_ascii skip_ws_def
  is_space_def scan_number_def scan_frac_def scan_exp_def is_digit_def bytes_of_def
  parse_int64_def digits_val_def literal_def is_escape_def more_def

section \<open>The fuel is enough\<close>

lemma length_skip_ws: "length (skip_ws s) \<le> length s"
  by (simp add: skip_ws_def length_dropWhile_le)

lemma skip_ws_Cons: "skip_ws s = c # r \<Longrightarrow> length r < length s"
  using length_skip_ws [of s] by simp

lemma bindP_Parsed_iff:
  "bindP m k = Parsed y r \<longleftrightarrow> (\<exists>x r'. m = Parsed x r' \<and> k x r' = Parsed y r)"
  by (cases m) auto

lemma bindP_OutOfFuel_iff:
  "bindP m k = OutOfFuel \<longleftrightarrow> m = OutOfFuel \<or> (\<exists>x r'. m = Parsed x r' \<and> k x r' = OutOfFuel)"
  by (cases m) auto

lemma more_Parsed_iff:
  "more close rec x r = Parsed xs r'' \<longleftrightarrow>
     (\<exists>r'. skip_ws r = 44 # r' \<and> (\<exists>ys. rec r' = Parsed ys r'' \<and> xs = x # ys)
        \<or> close \<noteq> 44 \<and> skip_ws r = close # r'' \<and> xs = [x])"
  by (auto simp: more_def bindP_Parsed_iff split: list.splits)

lemma more_OutOfFuel_iff:
  "more close rec x r = OutOfFuel \<longleftrightarrow> (\<exists>r'. skip_ws r = 44 # r' \<and> rec r' = OutOfFuel)"
  by (auto simp: more_def bindP_OutOfFuel_iff split: list.splits)

text \<open>
  \<open>eats s r\<close>: the parser went from \<open>s\<close> to its proper suffix \<open>r\<close> over bytes other than NUL.
\<close>

definition eats :: "bytes \<Rightarrow> bytes \<Rightarrow> bool" where
  "eats s r \<longleftrightarrow> (\<exists>p. s = p @ r \<and> p \<noteq> [] \<and> 0 \<notin> set p)"

definition eats0 :: "bytes \<Rightarrow> bytes \<Rightarrow> bool" where
  "eats0 s r \<longleftrightarrow> (\<exists>p. s = p @ r \<and> 0 \<notin> set p)"

lemma eats_shorter: "eats s r \<Longrightarrow> length r < length s"
  by (auto simp: eats_def)

lemma eats0_refl [simp]: "eats0 s s"
  by (simp add: eats0_def)

lemma eats_eats0: "eats s r \<Longrightarrow> eats0 s r"
  by (auto simp: eats_def eats0_def)

lemma eats_Cons: "c \<noteq> 0 \<Longrightarrow> eats0 s r \<Longrightarrow> eats (c # s) r"
  unfolding eats_def eats0_def by (metis append_Cons insert_iff list.distinct(1) list.set(2))

lemma eats0_Cons: "c \<noteq> 0 \<Longrightarrow> eats0 s r \<Longrightarrow> eats0 (c # s) r"
  by (rule eats_eats0) (rule eats_Cons)

lemma eats0_trans: "eats0 s t \<Longrightarrow> eats0 t r \<Longrightarrow> eats0 s r"
  unfolding eats0_def by (metis Un_iff append_assoc set_append)

lemma eats0_eats_trans: "eats0 s t \<Longrightarrow> eats t r \<Longrightarrow> eats s r"
  unfolding eats0_def eats_def by (metis Nil_is_append_conv Un_iff append_assoc set_append)

lemma eats_trans: "eats s t \<Longrightarrow> eats t r \<Longrightarrow> eats s r"
  by (blast intro: eats0_eats_trans eats_eats0)

lemma eats0_skip_ws: "eats0 s (skip_ws s)"
proof -
  have "0 \<notin> set (takeWhile is_space s)" by (auto simp: is_space_def dest: set_takeWhileD)
  then show ?thesis
    unfolding eats0_def skip_ws_def by (metis takeWhile_dropWhile_id)
qed

lemma eats_skip_ws: "skip_ws s = c # r \<Longrightarrow> c \<noteq> 0 \<Longrightarrow> eats s r"
  using eats0_eats_trans [OF eats0_skip_ws [of s], of r] by (simp add: eats_Cons)

lemma eats0_digits: "eats0 s (dropWhile is_digit s)"
proof -
  have "0 \<notin> set (takeWhile is_digit s)" by (auto simp: is_digit_def dest: set_takeWhileD)
  then show ?thesis
    unfolding eats0_def by (metis takeWhile_dropWhile_id)
qed

lemma not_zero [simp]: "\<not> is_hex 0" "\<not> is_digit 0" "\<not> is_escape 0" "\<not> is_escape 117"
  by (simp_all add: is_hex_def from_hex_def is_digit_def is_escape_def)

lemma scan_string_escape_eats:
  assumes "scan_string (92 # cs) = Some (raw, r)"
  shows "\<exists>p t raw'. cs = p @ t \<and> 0 \<notin> set p \<and> scan_string t = Some (raw', r)"
proof -
  from assms obtain e es where cs: "cs = e # es" by (cases cs) auto
  show ?thesis
  proof (cases "e = 117")
    case True
    with assms cs obtain h1 h2 h3 h4 t raw' where es: "es = h1 # h2 # h3 # h4 # t"
      and h: "is_hex h1" "is_hex h2" "is_hex h3" "is_hex h4" and t: "scan_string t = Some (raw', r)"
      by (auto split: list.splits if_splits)
    from es cs have "cs = [e, h1, h2, h3, h4] @ t" by simp
    moreover have "0 \<notin> set [e, h1, h2, h3, h4]" using True h not_zero(1) by auto
    ultimately show ?thesis using t by blast
  next
    case False
    with assms cs obtain raw' where e: "is_escape e" and t: "scan_string es = Some (raw', r)"
      by (auto split: if_splits)
    from e have "0 \<notin> set [e]" by (cases "e = 0") simp_all
    moreover from cs have "cs = [e] @ es" by simp
    ultimately show ?thesis using t by blast
  qed
qed

lemma scan_string_eats: "scan_string s = Some (raw, r) \<Longrightarrow> eats s r"
proof (induction s arbitrary: raw rule: length_induct)
  case (1 s)
  from 1(2) obtain c cs where s: "s = c # cs" by (cases s) auto
  consider "c = 34" | "c = 92" | "c \<noteq> 34" "c \<noteq> 92" by blast
  then show ?case
  proof cases
    case 1
    with \<open>scan_string s = _\<close> s show ?thesis by (simp add: eats_Cons)
  next
    case 2
    with scan_string_escape_eats [of cs raw r] \<open>scan_string s = _\<close> s
    obtain p t raw' where t: "cs = p @ t" "0 \<notin> set p" "scan_string t = Some (raw', r)"
      by blast
    from t(1) s have "length t < length s" by simp
    with "1.IH" t(3) have "eats t r" by blast
    with t(1,2) have "eats0 cs r" by (auto simp: eats_def eats0_def)
    with 2 s show ?thesis by (simp add: eats_Cons)
  next
    case 3
    with \<open>scan_string s = _\<close> s obtain raw' where "scan_string cs = Some (raw', r)"
      by (auto split: if_splits)
    moreover have "c \<noteq> 0" using 3 \<open>scan_string s = _\<close> s by (cases "c = 0") auto
    ultimately show ?thesis using "1.IH" s by (auto intro: eats_Cons eats_eats0)
  qed
qed

lemma scan_exp_eats: "scan_exp acc s = Some (lit, r) \<Longrightarrow> eats0 s r"
  by (auto simp: scan_exp_def Let_def split: list.splits if_splits
      intro!: eats0_Cons eats0_digits)

lemma scan_frac_eats:
  assumes "scan_frac acc s = Some (lit, r)"
  shows "eats0 s r"
proof (cases s)
  case (Cons c cs)
  show ?thesis
  proof (cases "c = 46")
    case True
    with assms Cons have "eats0 (dropWhile is_digit cs) r"
      by (auto simp: scan_frac_def Let_def split: if_splits dest: scan_exp_eats)
    with Cons True show ?thesis by (auto intro!: eats0_Cons intro: eats0_trans [OF eats0_digits])
  next
    case False
    with assms Cons show ?thesis by (auto simp: scan_frac_def dest: scan_exp_eats)
  qed
qed (use assms in \<open>simp add: scan_frac_def\<close>)

lemma scan_number_eats:
  assumes "scan_number s = Some (lit, r)"
  shows "eats s r"
proof -
  define sg where "sg = (case s of x # _ \<Rightarrow> if x = 45 then [x] else [] | [] \<Rightarrow> [])"
  have sg: "s = sg @ drop (length sg) s" "0 \<notin> set sg"
    by (auto simp: sg_def split: list.splits)
  from assms obtain d t where t: "drop (length sg) s = d # t" and d: "d = 48 \<or> is_digit d"
    and e: "eats0 t r \<or> eats0 (dropWhile is_digit t) r"
    by (auto simp: scan_number_def Let_def sg_def split: list.splits if_splits dest!: scan_frac_eats)
  from e have "eats0 t r" by (blast intro: eats0_trans [OF eats0_digits])
  moreover have "d \<noteq> 0" using d by (cases "d = 0") auto
  ultimately have "eats (drop (length sg) s) r" using t by (simp add: eats_Cons)
  moreover have "eats0 s (drop (length sg) s)" using sg by (auto simp: eats0_def)
  ultimately show ?thesis by (rule eats0_eats_trans [rotated])
qed

lemma literal_eats: "literal w v s = Parsed v' r \<Longrightarrow> w \<noteq> [] \<Longrightarrow> 0 \<notin> set w \<Longrightarrow> eats s r"
  unfolding literal_def eats_def by (auto split: if_splits) (metis append_take_drop_id)

lemma literals_no_nul:
  "0 \<notin> set (bytes_of ''true'')" "0 \<notin> set (bytes_of ''false'')" "0 \<notin> set (bytes_of ''null'')"
  "bytes_of ''true'' \<noteq> []" "bytes_of ''false'' \<noteq> []" "bytes_of ''null'' \<noteq> []"
  by (simp_all add: bytes_of_def)

lemma more_eats:
  assumes "more close rec x r = Parsed xs r''" "close \<noteq> 0" "\<And>r' ys. rec r' = Parsed ys r'' \<Longrightarrow> eats r' r''"
  shows "eats r r''"
proof -
  from assms(1) consider r' ys where "skip_ws r = 44 # r'" "rec r' = Parsed ys r''"
    | "skip_ws r = close # r''" unfolding more_Parsed_iff by blast
  then show ?thesis
  proof cases
    case 1
    from 1(1) have "eats r r'" by (rule eats_skip_ws) simp
    moreover from 1(2) have "eats r' r''" by (rule assms(3))
    ultimately show ?thesis by (rule eats_trans)
  next
    case 2
    then show ?thesis using assms(2) by (rule eats_skip_ws)
  qed
qed

lemma parse_eats:
  "parse_value fuel depth s = Parsed v r \<Longrightarrow> eats s r"
  "parse_elems fuel depth s = Parsed vs r \<Longrightarrow> eats s r"
  "parse_members fuel depth s = Parsed ms r \<Longrightarrow> eats s r"
proof (induction fuel depth s and fuel depth s and fuel depth s arbitrary: v r and vs r and ms r
    rule: parse_value_parse_elems_parse_members.induct)
  case (2 fuel depth s)
  from 2(3) obtain c t where ct: "skip_ws s = c # t" by (auto split: list.splits)
  have "eats (c # t) r"
  proof -
    consider "c = 123" | "c = 91" | "c = 34" | "c = 116" | "c = 102" | "c = 110"
      | "c \<noteq> 123" "c \<noteq> 91" "c \<noteq> 34" "c \<noteq> 116" "c \<noteq> 102" "c \<noteq> 110" by blast
    then show ?thesis
    proof cases
      case 1
      with 2(3) ct have "eats t r"
        by (auto simp: bindP_Parsed_iff split: list.splits if_splits intro: eats_skip_ws dest: 2(1))
      with 1 show ?thesis by (simp add: eats_Cons eats_eats0)
    next
      case 2
      with "2.prems" ct have "eats t r"
        by (auto simp: bindP_Parsed_iff split: list.splits if_splits intro: eats_skip_ws dest: "2.IH"(2))
      with 2 show ?thesis by (simp add: eats_Cons eats_eats0)
    next
      case 3
      with "2.prems" ct have "eats t r" by (auto split: option.splits dest: scan_string_eats)
      with 3 show ?thesis by (simp add: eats_Cons eats_eats0)
    next
      case 7
      with "2.prems" ct show ?thesis by (auto split: option.splits dest: scan_number_eats)
    qed (use "2.prems" ct literals_no_nul in \<open>auto dest: literal_eats\<close>)
  qed
  with ct show ?case by (metis eats0_eats_trans eats0_skip_ws)
next
  case (4 fuel depth s)
  from "4.prems" obtain v t where v: "parse_value fuel depth s = Parsed v t"
    and m: "more 93 (parse_elems fuel depth) v t = Parsed vs r"
    by (auto simp: bindP_Parsed_iff)
  from v have "eats s t" by (rule "4.IH"(1))
  moreover from m have "eats t r" by (rule more_eats) (simp_all add: "4.IH"(2))
  ultimately show ?case by (rule eats_trans)
next
  case (6 fuel depth s)
  from "6.prems" obtain t raw t1 t2 v t3 where 1: "skip_ws s = 34 # t" "scan_string t = Some (raw, t1)"
    "skip_ws t1 = 58 # t2" and v: "parse_value fuel depth t2 = Parsed v t3"
    and m: "more 125 (parse_members fuel depth) (unquote raw, v) t3 = Parsed ms r"
    by (auto simp: bindP_Parsed_iff split: list.splits if_splits option.splits)
  have "eats s t" using 1(1) by (rule eats_skip_ws) simp
  moreover have "eats t t1" using 1(2) by (rule scan_string_eats)
  moreover have "eats t1 t2" using 1(3) by (rule eats_skip_ws) simp
  ultimately have "eats s t2" by (blast intro: eats_trans)
  moreover from v 1 have "eats t2 t3" using "6.IH"(1) by auto
  moreover from m have "eats t3 r" by (rule more_eats) (use "6.IH"(2) 1 in auto)
  ultimately show ?case by (blast intro: eats_trans)
qed simp_all

text \<open>Every call has at least twice as much fuel as bytes left, so none runs out.\<close>

lemma literal_fuel: "literal w v s \<noteq> OutOfFuel"
  by (simp add: literal_def)

lemma parse_enough_fuel:
  "2 * length s + 1 \<le> fuel \<Longrightarrow> parse_value fuel depth s \<noteq> OutOfFuel"
  "2 * length s + 2 \<le> fuel \<Longrightarrow> parse_elems fuel depth s \<noteq> OutOfFuel"
  "2 * length s + 1 \<le> fuel \<Longrightarrow> parse_members fuel depth s \<noteq> OutOfFuel"
proof (induction fuel depth s and fuel depth s and fuel depth s
    rule: parse_value_parse_elems_parse_members.induct)
  case (2 fuel depth s)
  have "2 * length r + 2 \<le> fuel" if "skip_ws s = c # r" for c r
    using skip_ws_Cons [OF that] "2.prems" by linarith
  then show ?case
    using "2.IH" by (auto simp: bindP_OutOfFuel_iff literal_fuel split: list.splits option.splits)
next
  case (4 fuel depth s)
  have "2 * length t' + 2 \<le> fuel" if "parse_value fuel depth s = Parsed v t" "skip_ws t = c # t'" for v t c t'
    using eats_shorter [OF parse_eats(1) [OF that(1)]] skip_ws_Cons [OF that(2)] "4.prems" by linarith
  moreover have "parse_value fuel depth s \<noteq> OutOfFuel" using "4.IH"(1) "4.prems" by simp
  ultimately show ?case using "4.IH"(2) by (auto simp: bindP_OutOfFuel_iff more_OutOfFuel_iff)
next
  case (6 fuel depth s)
  have t2: "2 * length t2 + 1 \<le> fuel"
    if "skip_ws s = q # t" "scan_string t = Some (raw, t1)" "skip_ws t1 = k # t2" for q t raw t1 k t2
    using skip_ws_Cons [OF that(1)] eats_shorter [OF scan_string_eats [OF that(2)]] skip_ws_Cons [OF that(3)]
      "6.prems" by linarith
  have t4: "2 * length t4 + 1 \<le> fuel"
    if "2 * length t2 + 1 \<le> fuel" "parse_value fuel depth t2 = Parsed v t3" "skip_ws t3 = c # t4" for t2 v t3 c t4
    using eats_shorter [OF parse_eats(1) [OF that(2)]] skip_ws_Cons [OF that(3)] that(1) by linarith
  show ?case
  proof
    assume "parse_members (Suc fuel) depth s = OutOfFuel"
    then obtain t raw t1 t2 where 1: "skip_ws s = 34 # t" "scan_string t = Some (raw, t1)" "skip_ws t1 = 58 # t2"
      and o: "bindP (parse_value fuel depth t2) (\<lambda>v. more 125 (parse_members fuel depth) (unquote raw, v)) = OutOfFuel"
      by (auto split: list.splits if_splits option.splits)
    note le = t2 [OF 1]
    from o show False unfolding bindP_OutOfFuel_iff more_OutOfFuel_iff
      using "6.IH"(1) [OF 1(1) _ 1(2) _ 1(3) _ le] "6.IH"(2) 1 t4 [OF le] by auto
  qed
qed simp_all

text \<open>Valid JSON contains no NUL byte: a control character is no token and no part of a string.\<close>

lemma json_parse_no_nul:
  assumes "json_parse s = Some v"
  shows "0 \<notin> set s"
proof -
  from assms obtain r where r: "parse_value (2 * length s + 1) 0 s = Parsed v r" "skip_ws r = []"
    by (auto simp: json_parse_def split: parsed.splits if_splits)
  from parse_eats(1) [OF r(1)] have "eats0 s r" by (rule eats_eats0)
  moreover from eats0_skip_ws [of r] r(2) have "eats0 r []" by simp
  ultimately have "eats0 s []" by (rule eats0_trans)
  then show ?thesis by (simp add: eats0_def)
qed

lemma unmarshal_version_no_nul: "unmarshal_version s = Some v \<Longrightarrow> 0 \<notin> set s"
  by (auto simp: unmarshal_version_def split: option.splits dest: json_parse_no_nul)

end
