(* ===== verification/Go_Unmarshal.thy ===== *)
theory Go_Unmarshal
  imports Go_Json
begin

text \<open>
  \<open>json.Unmarshal\<close> into structs, slices, pointers and scalars, as the configuration types use it. Go
  decodes into what a field already holds: a key that is repeated decodes over the result of its
  earlier occurrences. A decoder therefore builds a value from the list of all JSON values that were
  stored in one place, oldest first, and \<open>fits\<close> tells whether a value stores without a type error;
  one that does not lets decoding go on, but the whole call fails.
\<close>

section \<open>Decoders\<close>

record 'a decoder =
  fits :: "json \<Rightarrow> bool"
  build :: "json list \<Rightarrow> 'a"

text \<open>A scalar keeps its last value; \<open>null\<close> leaves it as it is.\<close>

fun string_store :: "string \<Rightarrow> json \<Rightarrow> string" where
  "string_store old (JStr s) = string_of s"
| "string_store old _ = old"

fun string_fits :: "json \<Rightarrow> bool" where
  "string_fits JNull = True"
| "string_fits (JStr s) = True"
| "string_fits _ = False"

definition string_decoder :: "string decoder" where
  "string_decoder = \<lparr>fits = string_fits, build = foldl string_store []\<rparr>"

fun bool_store :: "bool \<Rightarrow> json \<Rightarrow> bool" where
  "bool_store old (JBool b) = b"
| "bool_store old _ = old"

fun bool_fits :: "json \<Rightarrow> bool" where
  "bool_fits JNull = True"
| "bool_fits (JBool b) = True"
| "bool_fits _ = False"

definition bool_decoder :: "bool decoder" where
  "bool_decoder = \<lparr>fits = bool_fits, build = foldl bool_store False\<rparr>"

text \<open>An integer of \<open>w\<close> bits: \<open>strconv.ParseInt(s, 10, 64)\<close>, then \<open>OverflowInt\<close>.\<close>

definition in_width :: "nat \<Rightarrow> int \<Rightarrow> bool" where
  "in_width w i \<longleftrightarrow> - (2 ^ (w - 1)) \<le> i \<and> i < 2 ^ (w - 1)"

fun int_store :: "int \<Rightarrow> json \<Rightarrow> int" where
  "int_store old (JNum lit) = (case parse_int64 lit of Some i \<Rightarrow> i | None \<Rightarrow> old)"
| "int_store old _ = old"

fun int_fits :: "nat \<Rightarrow> json \<Rightarrow> bool" where
  "int_fits w JNull = True"
| "int_fits w (JNum lit) = (case parse_int64 lit of Some i \<Rightarrow> in_width w i | None \<Rightarrow> False)"
| "int_fits w _ = False"

definition int_decoder :: "nat \<Rightarrow> int decoder" where
  "int_decoder w = \<lparr>fits = int_fits w, build = foldl int_store 0\<rparr>"

text \<open>
  A slice is set to \<open>nil\<close> by \<open>null\<close> and replaced by an empty one for an empty array; any other array
  decodes its elements over those in the slice's memory, also those an earlier, shorter array left
  behind the slice's end. The slice has the length of the last array.
\<close>

fun array_store :: "json list list \<Rightarrow> json \<Rightarrow> json list list" where
  "array_store old JNull = []"
| "array_store old (JArr xs) = (if xs = [] then [] else old @ [xs])"
| "array_store old _ = old"

definition slice_fits :: "(json \<Rightarrow> bool) \<Rightarrow> json \<Rightarrow> bool" where
  "slice_fits f v = (case v of JNull \<Rightarrow> True | JArr xs \<Rightarrow> list_all f xs | _ \<Rightarrow> False)"

definition slice_decoder :: "'a decoder \<Rightarrow> 'a list decoder" where
  "slice_decoder d = \<lparr>fits = slice_fits (fits d),
     build = (\<lambda>vs. let arrays = foldl array_store [] vs in
        map (\<lambda>i. build d (map (\<lambda>xs. xs ! i) (filter (\<lambda>xs. i < length xs) arrays)))
          [0..<(if arrays = [] then 0 else length (last arrays))])\<rparr>"

text \<open>A pointer is \<open>nil\<close> after \<open>null\<close>, else it points to what was decoded since.\<close>

fun pointer_store :: "json list \<Rightarrow> json \<Rightarrow> json list" where
  "pointer_store old JNull = []"
| "pointer_store old v = old @ [v]"

definition pointer_decoder :: "'a decoder \<Rightarrow> 'a option decoder" where
  "pointer_decoder d = \<lparr>fits = (\<lambda>v. v = JNull \<or> fits d v),
     build = (\<lambda>vs. let stored = foldl pointer_store [] vs in if stored = [] then None else Some (build d stored))\<rparr>"

text \<open>
  A struct: the fields with their types, and the value made from what each field gets. No two
  fields of a struct used here have names that are equal up to case, so a key stores in one field at
  most; a key that names no field is skipped.
\<close>

definition key_matches :: "string \<Rightarrow> bytes \<Rightarrow> bool" where
  "key_matches name k \<longleftrightarrow> k = bytes_of name \<or> equal_fold_right (bytes_of name) k"

fun members_of :: "json \<Rightarrow> (bytes \<times> json) list" where
  "members_of (JObj ms) = ms"
| "members_of _ = []"

definition field_values :: "json list \<Rightarrow> string \<Rightarrow> json list" where
  "field_values vs name = map snd (filter (\<lambda>m. key_matches name (fst m)) (concat (map members_of vs)))"

definition member_fits :: "(string \<times> (json \<Rightarrow> bool)) list \<Rightarrow> bytes \<times> json \<Rightarrow> bool" where
  "member_fits fds m = list_all (\<lambda>(name, f). key_matches name (fst m) \<longrightarrow> f (snd m)) fds"

definition struct_fits :: "(string \<times> (json \<Rightarrow> bool)) list \<Rightarrow> json \<Rightarrow> bool" where
  "struct_fits fds v = (case v of JNull \<Rightarrow> True | JObj ms \<Rightarrow> list_all (member_fits fds) ms | _ \<Rightarrow> False)"

definition struct_decoder :: "(string \<times> (json \<Rightarrow> bool)) list \<Rightarrow> ((string \<Rightarrow> json list) \<Rightarrow> 'a) \<Rightarrow> 'a decoder" where
  "struct_decoder fds mk = \<lparr>fits = struct_fits fds, build = (\<lambda>vs. mk (field_values vs))\<rparr>"

definition unmarshal :: "'a decoder \<Rightarrow> bytes \<Rightarrow> 'a option" where
  "unmarshal d s =
     (case json_parse s of None \<Rightarrow> None | Some v \<Rightarrow> if fits d v then Some (build d [v]) else None)"

lemma unmarshal_no_nul: "unmarshal d s = Some x \<Longrightarrow> 0 \<notin> set s"
  by (auto simp: unmarshal_def split: option.splits dest: json_parse_no_nul)

section \<open>The version field\<close>

text \<open>
  A struct that has an \<open>int64\<close> field \<open>version\<close> gets from a document the same version as the struct
  that has nothing else.
\<close>

lemma version_fold:
  assumes "list_all (\<lambda>m. key_matches ''version'' (fst m) \<longrightarrow> int_fits 64 (snd m)) ms"
  shows "foldl decode_version_field (Some i) ms =
    Some (foldl int_store i (map snd (filter (\<lambda>m. key_matches ''version'' (fst m)) ms)))"
  using assms
proof (induction ms arbitrary: i)
  case (Cons m ms)
  obtain k v where m: "m = (k, v)" by (cases m)
  have "decode_version_field (Some i) m = Some (if key_matches ''version'' k then int_store i v else i)"
    using Cons.prems by (cases v) (auto simp: m key_matches_def split: option.splits)
  then show ?case using Cons by (simp add: m)
qed simp

lemma unmarshal_struct_version:
  assumes "unmarshal (struct_decoder fds mk) s = Some x" "(''version'', int_fits 64) \<in> set fds"
    and "\<And>vals. ver (mk vals) = build (int_decoder 64) (vals ''version'')"
  shows "unmarshal_version s = Some (ver x)"
proof -
  from assms(1) obtain v where v: "json_parse s = Some v" "struct_fits fds v" "x = mk (field_values [v])"
    by (auto simp: unmarshal_def struct_decoder_def split: option.splits if_splits)
  then consider "v = JNull" | ms where "v = JObj ms" "list_all (member_fits fds) ms"
    by (auto simp: struct_fits_def split: json.splits)
  then show ?thesis
  proof cases
    case 1
    then show ?thesis using v assms(3) by (simp add: unmarshal_version_def field_values_def int_decoder_def)
  next
    case (2 ms)
    then have "list_all (\<lambda>m. key_matches ''version'' (fst m) \<longrightarrow> int_fits 64 (snd m)) ms"
      using assms(2) by (fastforce simp: list_all_iff member_fits_def)
    from version_fold [OF this, of 0] show ?thesis
      using v 2 assms(3) by (simp add: unmarshal_version_def field_values_def int_decoder_def)
  qed
qed

end
