(* ===== verification/Kexec_Package.thy ===== *)
theory Kexec_Package
  imports Go_Sha256 Go_Json
begin

text \<open>
  \<^verbatim>\<open>homegw-libs/kexec/lib.go\<close> (\<open>Unseal\<close>, \<open>decryptAndVerify\<close>) and the offline tool
  \<^verbatim>\<open>kexec-sealer/main.go\<close> that makes the packages it opens. A sealed package is a magic header, a
  nonce and an AEAD ciphertext of \<open>len sig, sig, len data, data\<close>; the data is
  \<open>len kernel, kernel, len config, config\<close>. Lengths are 32-bit little-endian words, and the
  library converts them with \<open>int(...)\<close>, which is 32 bits wide on the gateway
  (\<^verbatim>\<open>GOARCH=arm\<close> in \<^verbatim>\<open>scripts/build_rootfs.sh\<close>): \<open>sint\<close> in the model.

  The third-party packages are parameters: \<open>aead_ops\<close> stands for
  \<^verbatim>\<open>golang.org/x/crypto/chacha20poly1305\<close>, \<open>kexec_deps\<close> for cosign, OpenPGP clearsign and the file
  time of \<^verbatim>\<open>/homegw-init\<close>.
\<close>

section \<open>Errors, packages, dependencies\<close>

datatype kexec_error =
    ErrInvalidBlob
  | ErrInvalidExtSig
  | CosignError                  \<comment> \<open>the error of \<open>cosign.VerifyBlobSignature\<close>, passed on\<close>
  | BundleNotVerified
  | StatFailed
  | BundleTooOld                 \<comment> \<open>bundle time is before self mod time\<close>
  | AeadInit
  | AeadOpen
  | SigDecodeFailed
  | SigVerifyFailed
  | HashFileParse
  | HashParse
  | UnsupportedFilename bytes
  | HashMismatch
  | Rollback int int             \<comment> \<open>cannot rollback from .. to ..\<close>

record unsealed_package =
  Kernel :: bytes
  Config :: bytes

record rekor_bundle =
  SignedEntryTimestamp :: bytes
  IntegratedTime :: int

record aead_ops =
  newX_ok :: "bytes \<Rightarrow> bool"
  nonce_size :: nat
  aead_seal :: "bytes \<Rightarrow> bytes \<Rightarrow> bytes \<Rightarrow> bytes"
  aead_open :: "bytes \<Rightarrow> bytes \<Rightarrow> bytes \<Rightarrow> bytes option"

text \<open>
  A Go time: seconds since year 1 (the library's internal epoch) and nanoseconds.
\<close>

type_synonym go_time = "int \<times> int"

record ('s, 'c) kexec_deps =
  aead :: aead_ops
  load_public_key_ok :: bool
  unmarshal_payload :: "string \<Rightarrow> (string \<times> rekor_bundle option) option"
  new_signature :: "bytes \<Rightarrow> string \<Rightarrow> rekor_bundle option \<Rightarrow> 's option"
  verify_blob_signature :: "'s \<Rightarrow> bool option"
  sig_bundle :: "'s \<Rightarrow> rekor_bundle option option"
  self_mod_time :: "go_time option"
  clearsign_decode :: "bytes \<Rightarrow> 'c option"
  block_plaintext :: "'c \<Rightarrow> bytes"
  verify_clearsign :: "'c \<Rightarrow> bool"

section \<open>Length-prefixed fields\<close>

text \<open>\<open>if len(data) < 4 ...; n := binary.LittleEndian.Uint32(data[:4]); data = data[4:]\<close>\<close>

definition read_len :: "bytes \<Rightarrow> (kexec_error, u32 \<times> bytes) result" where
  "read_len data =
     (if length data < 4 then Inl (Error ErrInvalidBlob)
      else Inr (uint32_le (take 4 data), drop 4 data))"

text \<open>
  \<open>if len(data) < int(n) ...; x := data[:n]; data = data[n:]\<close>. Slicing beyond the slice panics.
\<close>

definition read_counted :: "u32 \<Rightarrow> bytes \<Rightarrow> (kexec_error, bytes \<times> bytes) result" where
  "read_counted n data =
     (if int (length data) < sint n then Inl (Error ErrInvalidBlob)
      else if length data < unat n then Inl (Panic SliceBounds)
      else Inr (take (unat n) data, drop (unat n) data))"

definition read_field :: "bytes \<Rightarrow> (kexec_error, bytes \<times> bytes) result" where
  "read_field data = bindR (read_len data) (\<lambda>(n, rest). read_counted n rest)"

text \<open>The last field has to fill the rest: \<open>if len(data) != int(n) ...\<close>.\<close>

definition read_last :: "bytes \<Rightarrow> (kexec_error, bytes) result" where
  "read_last data =
     bindR (read_len data) (\<lambda>(n, rest).
       if int (length rest) \<noteq> sint n then Inl (Error ErrInvalidBlob) else Inr rest)"

text \<open>The two fields of a package and of a signed blob are read by the same statements.\<close>

definition read_two :: "bytes \<Rightarrow> (kexec_error, bytes \<times> bytes) result" where
  "read_two data =
     bindR (read_field data) (\<lambda>(first, rest). bindR (read_last rest) (\<lambda>second. Inr (first, second)))"

section \<open>decryptAndVerify\<close>

text \<open>\<open>time.Unix(sec, 0)\<close> and \<open>Time.Before\<close>; the internal seconds are an \<open>int64\<close>.\<close>

definition unix_time :: "int \<Rightarrow> go_time" where
  "unix_time sec = (sint (word_of_int (sec + 62135596800) :: 64 word), 0)"

definition before :: "go_time \<Rightarrow> go_time \<Rightarrow> bool" where
  "before t u \<longleftrightarrow> fst t < fst u \<or> fst t = fst u \<and> snd t < snd u"

definition verify_ext_sig :: "('s, 'c) kexec_deps \<Rightarrow> bytes \<Rightarrow> string \<Rightarrow> (kexec_error, unit) result" where
  "verify_ext_sig d blob extSig =
     (if \<not> load_public_key_ok d then Inl (Error ErrInvalidExtSig)
      else case unmarshal_payload d extSig of
        None \<Rightarrow> Inl (Error ErrInvalidExtSig)
      | Some (base64Signature, bundle) \<Rightarrow>
          bindR (of_option ErrInvalidExtSig (new_signature d blob base64Signature bundle)) (\<lambda>sig.
          bindR (of_option CosignError (verify_blob_signature d sig)) (\<lambda>bundleVerified.
          if \<not> bundleVerified then Inl (Error BundleNotVerified)
          else
            bindR (of_option ErrInvalidExtSig (sig_bundle d sig)) (\<lambda>bundle.
            bindR (of_option StatFailed (self_mod_time d)) (\<lambda>selfModTime.
            case bundle of
              None \<Rightarrow> Inl (Panic NilDereference)
            | Some b \<Rightarrow>
                if before (unix_time (IntegratedTime b)) selfModTime then Inl (Error BundleTooOld)
                else Inr ())))))"

definition magic_header :: bytes where
  "magic_header = bytes_of ''HGW-KEXEC'' @ [0]"

definition open_blob :: "aead_ops \<Rightarrow> bytes \<Rightarrow> bytes \<Rightarrow> (kexec_error, bytes) result" where
  "open_blob a encryptionKey blob =
     (if \<not> newX_ok a encryptionKey then Inl (Error AeadInit)
      else if length blob < length magic_header then Inl (Error ErrInvalidBlob)
      else if take (length magic_header) blob \<noteq> magic_header then Inl (Error ErrInvalidBlob)
      else
        (let blob1 = drop (length magic_header) blob in
         if length blob1 < nonce_size a then Inl (Error ErrInvalidBlob)
         else of_option AeadOpen
           (aead_open a encryptionKey (take (nonce_size a) blob1) (drop (nonce_size a) blob1))))"

text \<open>
  \<open>sha256sumRegex\<close>, the anchored expression \<^verbatim>\<open>([0-9a-f]{64})  (.+)\<close>, on a line without a newline:
  the two submatches.
\<close>

definition match_sha256sum :: "bytes \<Rightarrow> (bytes \<times> bytes) option" where
  "match_sha256sum line =
     (if 66 < length line \<and> list_all is_lower_hex (take 64 line) \<and> take 2 (drop 64 line) = [32, 32]
      then Some (take 64 line, drop 66 line) else None)"

definition package_filename :: bytes where
  "package_filename = bytes_of ''homegw-kexec.v1.bin''"

definition verify_pgp :: "('s, 'c) kexec_deps \<Rightarrow> bytes \<Rightarrow> bytes \<Rightarrow> (kexec_error, unit) result" where
  "verify_pgp d sig data =
     bindR (of_option SigDecodeFailed (clearsign_decode d sig)) (\<lambda>sigBlock.
     if \<not> verify_clearsign d sigBlock then Inl (Error SigVerifyFailed)
     else
       bindR (of_option HashFileParse (match_sha256sum (hd (split_on 10 (block_plaintext d sigBlock)))))
         (\<lambda>(hash, filename).
       bindR (of_option HashParse (hex_decode hash)) (\<lambda>sha256sum.
       if filename \<noteq> package_filename then Inl (Error (UnsupportedFilename filename))
       else if sha256sum \<noteq> sha256 data then Inl (Error HashMismatch)
       else Inr ())))"

definition decryptAndVerify ::
  "('s, 'c) kexec_deps \<Rightarrow> bytes \<Rightarrow> bytes \<Rightarrow> string \<Rightarrow> (kexec_error, bytes) result" where
  "decryptAndVerify d encryptionKey blob extSig =
     (let useExtSig = (extSig \<noteq> []) in
      bindR (if useExtSig then verify_ext_sig d blob extSig else Inr ()) (\<lambda>_.
      bindR (open_blob (aead d) encryptionKey blob) (\<lambda>plain.
      bindR (read_two plain) (\<lambda>(sig, data).
      bindR (if \<not> useExtSig then verify_pgp d sig data else Inr ()) (\<lambda>_.
      Inr data)))))"

section \<open>Unseal\<close>

definition Unseal ::
  "('s, 'c) kexec_deps \<Rightarrow> int \<Rightarrow> bytes \<Rightarrow> bytes \<Rightarrow> string \<Rightarrow> (kexec_error, unsealed_package) result" where
  "Unseal d currentVersion encryptionKey blob extSig =
     bindR (decryptAndVerify d encryptionKey blob extSig) (\<lambda>data.
     bindR (read_two data) (\<lambda>(kernelImage, configImage).
     bindR (of_option ErrInvalidBlob (unmarshal_version configImage)) (\<lambda>version.
     if version < currentVersion then Inl (Error (Rollback currentVersion version))
     else Inr \<lparr>Kernel = kernelImage, Config = configImage\<rparr>)))"

section \<open>The sealer\<close>

text \<open>
  What the tool reads: the key, kernel and config files, the random nonce, and the signature typed
  in after the signing payload has been printed.
\<close>

record sealer_input =
  key_file :: "bytes option"
  rand_read :: "nat \<Rightarrow> bytes option"
  kernel_file :: "bytes option"
  config_file :: "bytes option"
  stdin_signature :: "bytes \<Rightarrow> bytes option"

definition put_field :: "bytes \<Rightarrow> bytes" where
  "put_field x = put_uint32 (of_nat (length x)) @ x"

definition signing_payload :: "bytes \<Rightarrow> bytes" where
  "signing_payload data = hex_encode (sha256 data) @ bytes_of ''  homegw-kexec.v1.bin''"

definition or_fatal :: "string \<Rightarrow> 'a option \<Rightarrow> (unit, 'a) result" where
  "or_fatal msg x = (case x of None \<Rightarrow> Inl (Fatal msg) | Some v \<Rightarrow> Inr v)"

definition sealer_main :: "aead_ops \<Rightarrow> sealer_input \<Rightarrow> (unit, bytes) result" where
  "sealer_main a inp =
     bindR (or_fatal ''can't read key'' (key_file inp)) (\<lambda>keyData.
     if length keyData \<noteq> 32 then Inl (Fatal ''key is not 32 bytes long'')
     else if \<not> newX_ok a keyData then Inl (Fatal ''can't initialize AEAD'')
     else
       bindR (or_fatal ''can't generate nonce'' (rand_read inp (nonce_size a))) (\<lambda>nonce.
       bindR (or_fatal ''can't read kernel'' (kernel_file inp)) (\<lambda>kernelData.
       bindR (or_fatal ''can't read config'' (config_file inp)) (\<lambda>configData.
       let data = put_field kernelData @ put_field configData in
       bindR (or_fatal ''can't read signature'' (stdin_signature inp (signing_payload data))) (\<lambda>signature.
       let out = put_field signature @ put_field data in
       Inr (magic_header @ nonce @ aead_seal a keyData nonce out))))))"

section \<open>The field codec\<close>

text \<open>
  The interface between the writer of length-prefixed fields and their reader: what was written is
  read back, and whatever is read can only have been written that way. Two fields in a row then
  have the same two laws.
\<close>

locale field_codec =
  fixes put :: "bytes \<Rightarrow> bytes"
    and fits :: "bytes \<Rightarrow> bool"
    and get :: "bytes \<Rightarrow> 'f + bytes \<times> bytes"
    and get_last :: "bytes \<Rightarrow> 'f + bytes"
  assumes get_put: "fits x \<Longrightarrow> get (put x @ rest) = Inr (x, rest)"
    and get_last_put: "fits x \<Longrightarrow> get_last (put x) = Inr x"
    and get_inverse: "get s = Inr (x, rest) \<Longrightarrow> s = put x @ rest"
    and get_last_inverse: "get_last s = Inr x \<Longrightarrow> s = put x"
begin

lemma two_roundtrip:
  "fits x \<Longrightarrow> fits y \<Longrightarrow>
     bindR (get (put x @ put y)) (\<lambda>(a, r). bindR (get_last r) (\<lambda>b. Inr (a, b))) = Inr (x, y)"
  by (simp add: get_put get_last_put)

lemma two_inverse:
  "bindR (get s) (\<lambda>(a, r). bindR (get_last r) (\<lambda>b. Inr (a, b))) = Inr (x, y) \<Longrightarrow>
     s = put x @ put y"
  by (auto simp: bindR_Inr_iff dest!: get_inverse get_last_inverse)

end

lemma unat_u32_less [simp]: "unat (n :: u32) < 4294967296"
  using unsigned_less [of n, where ?'a = nat] by simp

lemma sint_small: "unat (n :: u32) < 2 ^ 31 \<Longrightarrow> sint n = int (unat n)"
proof -
  assume n: "unat n < 2 ^ 31"
  have u: "uint n = int (unat n)" by simp
  have "sint n = signed_take_bit 31 (int (unat n))" by (simp only: sint_uint u) simp
  also have "\<dots> = int (unat n)" using n by (intro signed_take_bit_int_eq_self) (simp_all del: of_nat_unat)
  finally show ?thesis .
qed

lemma sint_large:
  assumes "2 ^ 31 \<le> unat (n :: u32)"
  shows "sint n < 0"
proof -
  have "unat n div 2 ^ 31 = 1" using assms unat_u32_less [of n] by (simp add: div_nat_eqI)
  then have "bit (unat n) 31" by (simp add: bit_iff_odd)
  then have "bit n 31" by (simp add: bit_unsigned_iff)
  then show ?thesis using bit_last_iff [of n] by simp
qed

lemma read_counted_Inr_iff:
  "read_counted n data = Inr (x, rest) \<longleftrightarrow>
     unat n \<le> length data \<and> \<not> int (length data) < sint n \<and> x = take (unat n) data \<and> rest = drop (unat n) data"
  by (auto simp: read_counted_def)

lemma put_field_of_len:
  "4 \<le> length s \<Longrightarrow> unat (uint32_le (take 4 s)) = length x \<Longrightarrow> drop 4 s = x @ rest \<Longrightarrow>
     s = put_field x @ rest"
proof -
  assume s: "4 \<le> length s" "unat (uint32_le (take 4 s)) = length x" "drop 4 s = x @ rest"
  have "put_uint32 (of_nat (length x)) = take 4 s"
    using s(1) put_uint32_le [of "take 4 s"] by (simp flip: s(2))
  then show "s = put_field x @ rest" unfolding put_field_def
    by (metis append_assoc append_take_drop_id s(3))
qed

lemma read_len_put: "read_len (put_uint32 n @ rest) = Inr (n, rest)"
  using uint32_le_put [of n "[]"] by (simp add: read_len_def del: uint32_le_put)

lemma unat_of_nat_u32: "n < 2 ^ 31 \<Longrightarrow> unat (of_nat n :: u32) = n"
  by (simp add: unat_of_nat)

interpretation len32: field_codec put_field "\<lambda>x. length x < 2 ^ 31" read_field read_last
proof
  fix x rest :: bytes
  assume "length x < 2 ^ 31"
  then have n: "unat (of_nat (length x) :: u32) = length x" "sint (of_nat (length x) :: u32) = int (length x)"
    using sint_small [of "of_nat (length x)"] by (simp_all add: unat_of_nat_u32)
  show "read_field (put_field x @ rest) = Inr (x, rest)"
    by (simp add: read_field_def put_field_def read_len_put read_counted_def n)
  show "read_last (put_field x) = Inr x"
    by (simp add: read_last_def put_field_def read_len_put n)
next
  fix s x rest
  assume "read_field s = Inr (x, rest)"
  then have l: "4 \<le> length s" and c: "read_counted (uint32_le (take 4 s)) (drop 4 s) = Inr (x, rest)"
    by (auto simp: read_field_def read_len_def result_simps)
  from c have "unat (uint32_le (take 4 s)) = length x" "drop 4 s = x @ rest"
    unfolding read_counted_Inr_iff by (auto simp del: drop_drop)
  with l show "s = put_field x @ rest" by (rule put_field_of_len)
next
  fix s x
  assume "read_last s = Inr x"
  then have l: "4 \<le> length s" and x: "x = drop 4 s" and n: "int (length x) = sint (uint32_le (take 4 s))"
    by (auto simp: read_last_def read_len_def result_simps split: if_splits)
  have "unat (uint32_le (take 4 s)) < 2 ^ 31"
    using sint_large [of "uint32_le (take 4 s)"] n by (cases "2 ^ 31 \<le> unat (uint32_le (take 4 s))") auto
  then have "sint (uint32_le (take 4 s)) = int (unat (uint32_le (take 4 s)))" by (rule sint_small)
  with n have "unat (uint32_le (take 4 s)) = length x" by (metis of_nat_eq_iff)
  from put_field_of_len [OF l this, of "[]"] x show "s = put_field x" by (simp only: append_Nil2)
qed

lemma read_two_roundtrip:
  "length x < 2 ^ 31 \<Longrightarrow> length y < 2 ^ 31 \<Longrightarrow> read_two (put_field x @ put_field y) = Inr (x, y)"
  unfolding read_two_def by (rule len32.two_roundtrip)

lemma read_two_inverse: "read_two s = Inr (x, y) \<Longrightarrow> s = put_field x @ put_field y"
  unfolding read_two_def by (rule len32.two_inverse)

section \<open>The hash line\<close>

lemma hex_encode_of_decode:
  "list_all is_lower_hex h \<Longrightarrow> hex_decode h = Some b \<Longrightarrow> hex_encode b = h"
proof (induction h arbitrary: b rule: hex_decode.induct)
  case (3 c1 c2 rest)
  have digit: "\<exists>x. from_hex c = Some x \<and> x < 16 \<and> hex_digit x = c" if "is_lower_hex c" for c
    using that by (auto simp: is_lower_hex_def from_hex_def hex_digit_def Let_def word_eq_iff_unsigned [where ?'a = nat] unat_of_nat)
  from 3(2) obtain x y where x: "from_hex c1 = Some x" "x < 16" "hex_digit x = c1"
    and y: "from_hex c2 = Some y" "y < 16" "hex_digit y = c2"
    using digit [of c1] digit [of c2] by (auto simp: list_all_iff)
  from 3(3) x(1) y(1) obtain r where r: "hex_decode rest = Some r" "b = of_nat (16 * x + y) # r"
    by (auto split: option.splits)
  have "unat (of_nat (16 * x + y) :: byte) = 16 * x + y" using x(2) y(2) by (intro unat_of_nat_byte) simp
  moreover have "hex_encode r = rest" using 3 x y r by simp
  ultimately show ?case using x(2,3) y(2,3) by (simp add: r(2) hex_encode_def del: of_nat_add of_nat_mult)
qed (simp_all add: hex_encode_def)

lemma length_signing_payload [simp, len_simps]: "length (signing_payload data) = 85"
  by (simp add: signing_payload_def)

lemma signing_payload_suffix: "bytes_of ''  homegw-kexec.v1.bin'' = [32, 32] @ package_filename"
  by (simp add: package_filename_def bytes_of_def)

lemma match_signing_payload:
  "match_sha256sum (signing_payload data) = Some (hex_encode (sha256 data), package_filename)"
  unfolding match_sha256sum_def signing_payload_def signing_payload_suffix
  by (auto simp: list_all_iff package_filename_def dest: hex_encode_lower)

lemma match_sha256sum_inverse:
  assumes "match_sha256sum line = Some (hash, filename)"
  shows "line = hash @ [32, 32] @ filename" "length hash = 64" "list_all is_lower_hex hash"
proof -
  from assms have m: "66 < length line" "hash = take 64 line" "filename = drop 66 line"
    "take 2 (drop 64 line) = [32, 32]" "list_all is_lower_hex hash"
    by (auto simp: match_sha256sum_def split: if_splits)
  then show "length hash = 64" "list_all is_lower_hex hash" by simp_all
  have "drop 64 line = take 2 (drop 64 line) @ drop 66 line"
    using append_take_drop_id [of 2 "drop 64 line"] by simp
  with m show "line = hash @ [32, 32] @ filename" by (metis append_take_drop_id)
qed

lemma signing_payload_no_newline: "10 \<notin> set (signing_payload data)"
proof
  assume "10 \<in> set (signing_payload data)"
  then have "10 \<in> set (hex_encode (sha256 data))" by (auto simp: signing_payload_def bytes_of_def)
  then have "is_lower_hex 10" by (rule hex_encode_lower)
  then show False by (simp add: is_lower_hex_def)
qed

lemma first_line_signing_payload:
  "hd (split_on 10 (signing_payload data @ 10 # rest)) = signing_payload data"
  "hd (split_on 10 (signing_payload data)) = signing_payload data"
  using signing_payload_no_newline [of data]
  by (auto simp: hd_split_on intro: takeWhile_stop takeWhile_eq_all_conv [THEN iffD2])

lemma verify_pgp_iff:
  "verify_pgp d sig data = Inr () \<longleftrightarrow>
     (\<exists>block. clearsign_decode d sig = Some block \<and> verify_clearsign d block
        \<and> hd (split_on 10 (block_plaintext d block)) = signing_payload data)"
proof
  assume "verify_pgp d sig data = Inr ()"
  then obtain block hash where b: "clearsign_decode d sig = Some block" "verify_clearsign d block"
    and m: "match_sha256sum (hd (split_on 10 (block_plaintext d block))) = Some (hash, package_filename)"
    and h: "hex_decode hash = Some (sha256 data)"
    by (auto simp: verify_pgp_def result_simps)
  from match_sha256sum_inverse [OF m] h
  have "hd (split_on 10 (block_plaintext d block)) = hex_encode (sha256 data) @ [32, 32] @ package_filename"
    using hex_encode_of_decode by simp
  with b show "\<exists>block. clearsign_decode d sig = Some block \<and> verify_clearsign d block
        \<and> hd (split_on 10 (block_plaintext d block)) = signing_payload data"
    unfolding signing_payload_def signing_payload_suffix by auto
next
  assume "\<exists>block. clearsign_decode d sig = Some block \<and> verify_clearsign d block
        \<and> hd (split_on 10 (block_plaintext d block)) = signing_payload data"
  then show "verify_pgp d sig data = Inr ()"
    by (auto simp: verify_pgp_def match_signing_payload)
qed

section \<open>What an accepted package guarantees\<close>

lemma decryptAndVerify_Inr_iff:
  "decryptAndVerify d key blob extSig = Inr data \<longleftrightarrow>
     (extSig \<noteq> [] \<longrightarrow> verify_ext_sig d blob extSig = Inr ()) \<and>
     (\<exists>plain sig. open_blob (aead d) key blob = Inr plain \<and> read_two plain = Inr (sig, data) \<and>
        (extSig = [] \<longrightarrow> verify_pgp d sig data = Inr ()))"
  by (auto simp: decryptAndVerify_def Let_def result_simps split: if_splits)

lemma Unseal_Inr_iff:
  "Unseal d cur key blob extSig = Inr pkg \<longleftrightarrow>
     (\<exists>data v. decryptAndVerify d key blob extSig = Inr data \<and>
        read_two data = Inr (Kernel pkg, Config pkg) \<and>
        unmarshal_version (Config pkg) = Some v \<and> cur \<le> v)"
  by (cases pkg) (auto simp: Unseal_def result_simps)

lemma verify_ext_sig_iff:
  "verify_ext_sig d blob extSig = Inr () \<longleftrightarrow>
     load_public_key_ok d \<and>
     (\<exists>b64 bndl sig b t. unmarshal_payload d extSig = Some (b64, bndl) \<and>
        new_signature d blob b64 bndl = Some sig \<and> verify_blob_signature d sig = Some True \<and>
        sig_bundle d sig = Some (Some b) \<and> self_mod_time d = Some t \<and>
        \<not> before (unix_time (IntegratedTime b)) t)"
  by (auto simp: verify_ext_sig_def result_simps split: option.splits)

text \<open>What the sealer's AEAD is for: \<open>Open\<close> undoes \<open>Seal\<close> for a 32-byte key and a full nonce.\<close>

definition aead_correct :: "aead_ops \<Rightarrow> bool" where
  "aead_correct a \<longleftrightarrow> (\<forall>key nonce plain. length key = 32 \<longrightarrow> length nonce = nonce_size a \<longrightarrow>
     newX_ok a key \<and> aead_open a key nonce (aead_seal a key nonce plain) = Some plain)"

lemma open_blob_sealed:
  "aead_correct a \<Longrightarrow> length key = 32 \<Longrightarrow> length nonce = nonce_size a \<Longrightarrow>
     open_blob a key (magic_header @ nonce @ aead_seal a key nonce plain) = Inr plain"
  by (simp add: open_blob_def aead_correct_def Let_def)

lemma Unseal_sealed_blob:
  assumes "aead_correct (aead d)" "length key = 32" "length nonce = nonce_size (aead d)"
    and "length sig < 2 ^ 31" "length kimg + length cfg + 8 < 2 ^ 31"
    and "verify_pgp d sig (put_field kimg @ put_field cfg) = Inr ()"
    and "unmarshal_version cfg = Some v" "cur \<le> v"
  shows "Unseal d cur key
      (magic_header @ nonce @ aead_seal (aead d) key nonce
         (put_field sig @ put_field (put_field kimg @ put_field cfg))) [] =
      Inr \<lparr>Kernel = kimg, Config = cfg\<rparr>"
proof -
  let ?data = "put_field kimg @ put_field cfg"
  have "length ?data < 2 ^ 31" using assms(5) by (simp add: put_field_def)
  then have "read_two (put_field sig @ put_field ?data) = Inr (sig, ?data)"
    using assms(4) by (rule read_two_roundtrip [rotated])
  moreover have "read_two ?data = Inr (kimg, cfg)"
    using assms(5) by (intro read_two_roundtrip) simp_all
  ultimately show ?thesis
    using assms open_blob_sealed [OF assms(1-3)]
    by (auto simp: Unseal_Inr_iff decryptAndVerify_Inr_iff)
qed

text \<open>
  C4: A package made by the sealer unseals to exactly the kernel and configuration it was made
  from, whenever the typed-in signature is a valid clear-signed message whose first line is the
  payload the sealer printed, the image fits the 31-bit lengths of the target, and the
  configuration is valid JSON whose version is at least the running one.
\<close>

theorem Unseal_sealer_main:
  assumes "aead_correct (aead d)"
    and "key_file inp = Some key" "length key = 32"
    and "rand_read inp (nonce_size (aead d)) = Some nonce" "length nonce = nonce_size (aead d)"
    and "kernel_file inp = Some kimg" "config_file inp = Some cfg"
    and "stdin_signature inp (signing_payload (put_field kimg @ put_field cfg)) = Some sig"
    and "clearsign_decode d sig = Some block" "verify_clearsign d block"
    and "hd (split_on 10 (block_plaintext d block)) = signing_payload (put_field kimg @ put_field cfg)"
    and "length sig < 2 ^ 31" "length kimg + length cfg + 8 < 2 ^ 31"
    and "unmarshal_version cfg = Some v" "cur \<le> v"
  shows "\<exists>blob. sealer_main (aead d) inp = Inr blob \<and>
    Unseal d cur key blob [] = Inr \<lparr>Kernel = kimg, Config = cfg\<rparr>"
proof -
  have "newX_ok (aead d) key" using assms(1,3,5) by (auto simp: aead_correct_def)
  then have "sealer_main (aead d) inp = Inr (magic_header @ nonce @ aead_seal (aead d) key nonce
      (put_field sig @ put_field (put_field kimg @ put_field cfg)))"
    using assms by (simp add: sealer_main_def or_fatal_def)
  moreover have "verify_pgp d sig (put_field kimg @ put_field cfg) = Inr ()"
    using assms unfolding verify_pgp_iff by blast
  ultimately show ?thesis
    using assms Unseal_sealed_blob [of d key nonce sig kimg cfg v cur] by blast
qed

text \<open>
  C5: Without an external signature, a package is accepted only if it decrypts under the device
  key to a clear-signed message and data, the message verifies against the built-in keyring, its
  first line is the SHA-256 line of exactly the bytes of the accepted kernel and configuration,
  and the configuration's version is not below the running one.
\<close>

theorem Unseal_pgp_authentic:
  assumes "Unseal d cur key blob [] = Inr pkg"
  shows "\<exists>sig block. open_blob (aead d) key blob =
        Inr (put_field sig @ put_field (put_field (Kernel pkg) @ put_field (Config pkg)))
      \<and> clearsign_decode d sig = Some block \<and> verify_clearsign d block
      \<and> hd (split_on 10 (block_plaintext d block)) =
          signing_payload (put_field (Kernel pkg) @ put_field (Config pkg))
      \<and> (\<exists>v. unmarshal_version (Config pkg) = Some v \<and> cur \<le> v)"
proof -
  from assms obtain data v plain sig where "open_blob (aead d) key blob = Inr plain"
    "read_two plain = Inr (sig, data)" "verify_pgp d sig data = Inr ()"
    "read_two data = Inr (Kernel pkg, Config pkg)" "unmarshal_version (Config pkg) = Some v" "cur \<le> v"
    by (auto simp: Unseal_Inr_iff decryptAndVerify_Inr_iff)
  then show ?thesis by (auto simp: verify_pgp_iff dest!: read_two_inverse)
qed

text \<open>
  C6: With an external signature, a package is accepted only if cosign verified the signature over
  the whole sealed blob together with its transparency-log bundle, the bundle was integrated no
  earlier than the modification time of the running \<^verbatim>\<open>/homegw-init\<close>, the blob decrypts under the
  device key, and the version is not below the running one.
\<close>

theorem Unseal_ext_authentic:
  assumes "Unseal d cur key blob extSig = Inr pkg" "extSig \<noteq> []"
  shows "load_public_key_ok d \<and>
    (\<exists>b64 bndl sig b t. unmarshal_payload d extSig = Some (b64, bndl)
      \<and> new_signature d blob b64 bndl = Some sig \<and> verify_blob_signature d sig = Some True
      \<and> sig_bundle d sig = Some (Some b) \<and> self_mod_time d = Some t
      \<and> \<not> before (unix_time (IntegratedTime b)) t) \<and>
    (\<exists>inner. open_blob (aead d) key blob =
        Inr (put_field inner @ put_field (put_field (Kernel pkg) @ put_field (Config pkg)))) \<and>
    (\<exists>v. unmarshal_version (Config pkg) = Some v \<and> cur \<le> v)"
proof -
  from assms obtain data v plain sig where p: "open_blob (aead d) key blob = Inr plain"
    "read_two plain = Inr (sig, data)" "verify_ext_sig d blob extSig = Inr ()"
    "read_two data = Inr (Kernel pkg, Config pkg)" "unmarshal_version (Config pkg) = Some v" "cur \<le> v"
    by (auto simp: Unseal_Inr_iff decryptAndVerify_Inr_iff)
  then have "plain = put_field sig @ put_field (put_field (Kernel pkg) @ put_field (Config pkg))"
    by (simp add: read_two_inverse)
  with p show ?thesis unfolding verify_ext_sig_iff by blast
qed

text \<open>
  C7: The version check is a threshold: a package that one running version accepts is accepted,
  unchanged, by every running version up to its own and refused as a rollback by every later one.
\<close>

theorem Unseal_version_threshold:
  assumes "Unseal d cur key blob extSig = Inr pkg"
  shows "\<exists>v. unmarshal_version (Config pkg) = Some v \<and>
    (\<forall>c. Unseal d c key blob extSig = (if v < c then Inl (Error (Rollback c v)) else Inr pkg))"
  using assms unfolding Unseal_Inr_iff by (cases pkg) (auto simp: Unseal_def)

lemma read_field_Panic_iff:
  "read_field s = Inl (Panic p) \<longleftrightarrow>
     p = SliceBounds \<and> 4 \<le> length s \<and> sint (uint32_le (take 4 s)) \<le> int (length s - 4)
       \<and> length s - 4 < unat (uint32_le (take 4 s))"
  by (auto simp: read_field_def read_len_def read_counted_def)

lemma read_last_no_panic: "read_last s \<noteq> Inl (Panic p)"
  by (auto simp: read_last_def read_len_def)

text \<open>
  C21: The reader of the two length-prefixed fields panics, instead of reporting an invalid blob,
  exactly when the first length has its top bit set: \<open>int(n)\<close> is then negative on the 32-bit target,
  the bounds check passes and the slice expression is out of range. Other malformed lengths give
  an error.
\<close>

theorem read_two_panics_iff:
  assumes "length s < 2 ^ 31"
  shows "read_two s = Inl (Panic p) \<longleftrightarrow>
    p = SliceBounds \<and> 4 \<le> length s \<and> 2 ^ 31 \<le> unat (uint32_le (take 4 s))"
proof -
  let ?n = "uint32_le (take 4 s)"
  have "sint ?n \<le> int (length s - 4) \<and> length s - 4 < unat ?n \<longleftrightarrow> 2 ^ 31 \<le> unat ?n"
  proof (cases "2 ^ 31 \<le> unat ?n")
    case True
    with sint_large [OF True] assms show ?thesis by linarith
  next
    case False
    then have "sint ?n = int (unat ?n)" by (intro sint_small) simp
    with False show ?thesis by linarith
  qed
  then show ?thesis
    by (auto simp: read_two_def result_simps read_field_Panic_iff read_last_no_panic)
qed

section \<open>Concrete instances\<close>

text \<open>
  Stand-ins for the third-party packages with which the hypotheses above hold: an AEAD that
  appends a tag, a clear-signed message that is its own plaintext, and a bundle of November 2023.
\<close>

definition demo_aead :: aead_ops where
  "demo_aead = \<lparr>newX_ok = (\<lambda>k. length k = 32), nonce_size = 24,
     aead_seal = (\<lambda>k n p. p @ replicate 16 0),
     aead_open = (\<lambda>k n c. if length c < 16 then None else Some (take (length c - 16) c))\<rparr>"

definition demo_bundle :: rekor_bundle where
  "demo_bundle = \<lparr>SignedEntryTimestamp = [], IntegratedTime = 1700000000\<rparr>"

definition demo_deps :: "(bytes, bytes) kexec_deps" where
  "demo_deps = \<lparr>aead = demo_aead, load_public_key_ok = True,
     unmarshal_payload = (\<lambda>s. Some (s, Some demo_bundle)),
     new_signature = (\<lambda>blob s b. Some blob), verify_blob_signature = (\<lambda>_. Some True),
     sig_bundle = (\<lambda>_. Some (Some demo_bundle)), self_mod_time = Some (unix_time 1600000000),
     clearsign_decode = Some, block_plaintext = (\<lambda>b. b), verify_clearsign = (\<lambda>_. True)\<rparr>"

definition demo_key :: bytes where
  "demo_key = replicate 32 7"

definition demo_kernel :: bytes where
  "demo_kernel = [1, 2, 3]"

text \<open>The document \<^verbatim>\<open>{"version":5}\<close>.\<close>

definition demo_config :: bytes where
  "demo_config = [123, 34, 118, 101, 114, 115, 105, 111, 110, 34, 58, 53, 125]"

definition demo_data :: bytes where
  "demo_data = put_field demo_kernel @ put_field demo_config"

definition demo_input :: sealer_input where
  "demo_input = \<lparr>key_file = Some demo_key, rand_read = (\<lambda>n. Some (replicate n 9)),
     kernel_file = Some demo_kernel, config_file = Some demo_config,
     stdin_signature = (\<lambda>p. Some (p @ [10]))\<rparr>"

definition demo_blob :: bytes where
  "demo_blob = magic_header @ replicate 24 9 @ aead_seal demo_aead demo_key (replicate 24 9)
     (put_field (signing_payload demo_data @ [10]) @ put_field demo_data)"

lemma demo_aead_correct: "aead_correct (aead demo_deps)"
  by (simp add: aead_correct_def demo_deps_def demo_aead_def)

lemma demo_version: "unmarshal_version demo_config = Some 5"
  by (simp add: demo_config_def json_eval)

lemma demo_first_line: "hd (split_on 10 (signing_payload data @ [10])) = signing_payload data"
  by (rule first_line_signing_payload(1))

lemma demo_verify_pgp: "verify_pgp demo_deps (signing_payload demo_data @ [10]) demo_data = Inr ()"
  unfolding verify_pgp_iff by (simp add: demo_deps_def demo_first_line)

lemma demo_unseal: "cur \<le> 5 \<Longrightarrow> Unseal demo_deps cur demo_key demo_blob [] = Inr \<lparr>Kernel = demo_kernel, Config = demo_config\<rparr>"
  using Unseal_sealed_blob [of demo_deps demo_key "replicate 24 9" "signing_payload demo_data @ [10]"
      demo_kernel demo_config 5 cur] demo_aead_correct demo_verify_pgp demo_version
  by (simp add: demo_blob_def demo_data_def demo_deps_def demo_aead_def demo_key_def demo_kernel_def demo_config_def)

lemma demo_unseal_ext:
  "cur \<le> 5 \<Longrightarrow> Unseal demo_deps cur demo_key demo_blob ''s'' = Inr \<lparr>Kernel = demo_kernel, Config = demo_config\<rparr>"
proof -
  assume "cur \<le> 5"
  then obtain data v plain sig where "open_blob (aead demo_deps) demo_key demo_blob = Inr plain"
    "read_two plain = Inr (sig, data)" "read_two data = Inr (demo_kernel, demo_config)"
    using demo_unseal [of cur] by (auto simp: Unseal_Inr_iff decryptAndVerify_Inr_iff)
  moreover have "verify_ext_sig demo_deps demo_blob ''s'' = Inr ()"
    by (simp add: verify_ext_sig_iff demo_deps_def demo_bundle_def before_def unix_time_def)
  ultimately show ?thesis
    using \<open>cur \<le> 5\<close> demo_version by (auto simp: Unseal_Inr_iff decryptAndVerify_Inr_iff)
qed

theorem Unseal_sealer_main_witness:
  "\<exists>blob. sealer_main (aead demo_deps) demo_input = Inr blob \<and>
     Unseal demo_deps 4 demo_key blob [] = Inr \<lparr>Kernel = demo_kernel, Config = demo_config\<rparr>"
proof (rule Unseal_sealer_main [where nonce = "replicate 24 9" and block = "signing_payload demo_data @ [10]"
      and sig = "signing_payload demo_data @ [10]" and v = 5])
  show "aead_correct (aead demo_deps)" by (rule demo_aead_correct)
  show "unmarshal_version demo_config = Some 5" by (rule demo_version)
  show "hd (split_on 10 (block_plaintext demo_deps (signing_payload demo_data @ [10]))) =
      signing_payload (put_field demo_kernel @ put_field demo_config)"
    by (simp add: demo_deps_def demo_first_line) (simp add: demo_data_def)
qed (simp_all add: demo_input_def demo_deps_def demo_aead_def demo_data_def demo_key_def
      demo_kernel_def demo_config_def)

theorem Unseal_pgp_authentic_witness:
  "\<exists>sig block. open_blob (aead demo_deps) demo_key demo_blob =
       Inr (put_field sig @ put_field (put_field demo_kernel @ put_field demo_config))
     \<and> clearsign_decode demo_deps sig = Some block \<and> verify_clearsign demo_deps block
     \<and> hd (split_on 10 (block_plaintext demo_deps block)) =
         signing_payload (put_field demo_kernel @ put_field demo_config)"
  using Unseal_pgp_authentic [OF demo_unseal [of 4]] by auto

theorem Unseal_ext_authentic_witness:
  "\<exists>inner. open_blob (aead demo_deps) demo_key demo_blob =
     Inr (put_field inner @ put_field (put_field demo_kernel @ put_field demo_config))"
  using Unseal_ext_authentic [OF demo_unseal_ext [of 4]] by simp

theorem Unseal_version_threshold_witness:
  "Unseal demo_deps 6 demo_key demo_blob [] = Inl (Error (Rollback 6 5))"
  using Unseal_version_threshold [OF demo_unseal [of 4]] demo_version by auto

theorem read_two_panics_witness:
  "read_two [0, 0, 0, 0x80] = Inl (Panic SliceBounds)"
proof -
  have "(2 :: nat) ^ 31 \<le> unat (uint32_le (take 4 [0, 0, 0, 0x80]))" by simp
  then show ?thesis using read_two_panics_iff [of "[0, 0, 0, 0x80]" SliceBounds] by simp
qed

end
