(* ===== verification/Sha256_Vectors.thy ===== *)
theory Sha256_Vectors
  imports Go_Sha256
begin

text \<open>
  The digest of the empty message, evaluated by the simplifier eight rounds at a time. It ties the
  definition to the published test vector of FIPS 180-4 and shows that an all-zero digest is not
  the digest of the empty configuration, which the OCRAM handoff relies on.
\<close>

lemmas sha_eval = rotr_def big_sigma0_def big_sigma1_def small_sigma0_def small_sigma1_def
  sha_ch_def sha_maj_def next_window_def Let_def

lemma sha_rounds_append: "sha_rounds (ks @ ks') p = sha_rounds ks' (sha_rounds ks p)"
  by (induction ks p rule: sha_rounds.induct) auto

lemma sha_empty_rounds_0:
  "sha_rounds [0x428A2F98, 0x71374491, 0xB5C0FBCF, 0xE9B5DBA5, 0x3956C25B, 0x59F111F1, 0x923F82A4,
         0xAB1C5ED5]
      ([0x80000000, 0, 0, 0, 0, 0, 0, 0, 0, 0, 0, 0, 0, 0, 0, 0],
       0x6A09E667, 0xBB67AE85, 0x3C6EF372, 0xA54FF53A, 0x510E527F, 0x9B05688C, 0x1F83D9AB,
       0x5BE0CD19) =
     ([0, 0, 0, 0, 0, 0, 0, 0, 0x80000000, 0, 0x205000, 0, 0x22000800, 0, 0x5089542, 0x80000000],
       0x7AD5B1B6, 0xF0205590, 0x292E3B42, 0x4366F730, 0x53F94DCB, 0x82EDE06F, 0x4F6540FA,
       0xE7D0641E)"
  by (simp add: sha_eval)

lemma sha_empty_rounds_1:
  "sha_rounds [0xD807AA98, 0x12835B01, 0x243185BE, 0x550C7DC3, 0x72BE5D74, 0x80DEB1FE, 0x9BDC06A7,
         0xC19BF174]
      ([0, 0, 0, 0, 0, 0, 0, 0, 0x80000000, 0, 0x205000, 0, 0x22000800, 0, 0x5089542, 0x80000000],
       0x7AD5B1B6, 0xF0205590, 0x292E3B42, 0x4366F730, 0x53F94DCB, 0x82EDE06F, 0x4F6540FA,
       0xE7D0641E) =
     ([0x80000000, 0, 0x205000, 0, 0x22000800, 0, 0x5089542, 0x80000000, 0x58080000, 0x40A000,
       0x162505, 0x66001800, 0xD6222580, 0x14225508, 0xD645F95C, 0xC9282000],
       0xB40085B5, 0xB88AFDDB, 0x45C013A7, 0x2102D2CD, 0x5CB8E863, 0x1CCFAC39, 0x2B427296,
       0xCDFDFE52)"
  by (simp add: sha_eval)

lemma sha_empty_rounds_2:
  "sha_rounds [0xE49B69C1, 0xEFBE4786, 0xFC19DC6, 0x240CA1CC, 0x2DE92C6F, 0x4A7484AA, 0x5CB0A9DC,
         0x76F988DA]
      ([0x80000000, 0, 0x205000, 0, 0x22000800, 0, 0x5089542, 0x80000000, 0x58080000, 0x40A000,
       0x162505, 0x66001800, 0xD6222580, 0x14225508, 0xD645F95C, 0xC9282000],
       0xB40085B5, 0xB88AFDDB, 0x45C013A7, 0x2102D2CD, 0x5CB8E863, 0x1CCFAC39, 0x2B427296,
       0xCDFDFE52) =
     ([0x58080000, 0x40A000, 0x162505, 0x66001800, 0xD6222580, 0x14225508, 0xD645F95C,
       0xC9282000, 0xC3F10094, 0x284CA766, 0x6886DC6, 0xA37BF116, 0x717CBE96, 0xFEC2D74A,
       0xA7B67F00, 0x811596A2],
       0x985BED55, 0x404D8054, 0x99A6CB19, 0x75C7F0D8, 0x2C2C028D, 0xB1653710, 0xC287981E,
       0x39953CCD)"
  by (simp add: sha_eval)

lemma sha_empty_rounds_3:
  "sha_rounds [0x983E5152, 0xA831C66D, 0xB00327C8, 0xBF597FC7, 0xC6E00BF3, 0xD5A79147, 0x6CA6351,
         0x14292967]
      ([0x58080000, 0x40A000, 0x162505, 0x66001800, 0xD6222580, 0x14225508, 0xD645F95C,
       0xC9282000, 0xC3F10094, 0x284CA766, 0x6886DC6, 0xA37BF116, 0x717CBE96, 0xFEC2D74A,
       0xA7B67F00, 0x811596A2],
       0x985BED55, 0x404D8054, 0x99A6CB19, 0x75C7F0D8, 0x2C2C028D, 0xB1653710, 0xC287981E,
       0x39953CCD) =
     ([0xC3F10094, 0x284CA766, 0x6886DC6, 0xA37BF116, 0x717CBE96, 0xFEC2D74A, 0xA7B67F00,
       0x811596A2, 0x98A6E768, 0x3B20C82, 0x5D1DA7C9, 0xB156B935, 0xC3DDCA11, 0x249C107F,
       0xC48D24EF, 0x5DE54C30],
       0x11E7025F, 0xA0BB0CDF, 0x72D3A00D, 0x64BC9E1C, 0xBBD7846C, 0x564A6626, 0xB04AB22D,
       0x95696B75)"
  by (simp add: sha_eval)

lemma sha_empty_rounds_4:
  "sha_rounds [0x27B70A85, 0x2E1B2138, 0x4D2C6DFC, 0x53380D13, 0x650A7354, 0x766A0ABB, 0x81C2C92E,
         0x92722C85]
      ([0xC3F10094, 0x284CA766, 0x6886DC6, 0xA37BF116, 0x717CBE96, 0xFEC2D74A, 0xA7B67F00,
       0x811596A2, 0x98A6E768, 0x3B20C82, 0x5D1DA7C9, 0xB156B935, 0xC3DDCA11, 0x249C107F,
       0xC48D24EF, 0x5DE54C30],
       0x11E7025F, 0xA0BB0CDF, 0x72D3A00D, 0x64BC9E1C, 0xBBD7846C, 0x564A6626, 0xB04AB22D,
       0x95696B75) =
     ([0x98A6E768, 0x3B20C82, 0x5D1DA7C9, 0xB156B935, 0xC3DDCA11, 0x249C107F, 0xC48D24EF,
       0x5DE54C30, 0xDEFECE65, 0x2CA1480D, 0x3C15332C, 0x1CEC9AD, 0x160CCCD0, 0xBACDA98,
       0x361B8FE0, 0xD2320BA6],
       0x499911B1, 0x9E58E42F, 0x56E3DC4E, 0xA096535D, 0x716BB025, 0x85A71424, 0xE807EA7F,
       0xFAC06AED)"
  by (simp add: sha_eval)

lemma sha_empty_rounds_5:
  "sha_rounds [0xA2BFE8A1, 0xA81A664B, 0xC24B8B70, 0xC76C51A3, 0xD192E819, 0xD6990624, 0xF40E3585,
         0x106AA070]
      ([0x98A6E768, 0x3B20C82, 0x5D1DA7C9, 0xB156B935, 0xC3DDCA11, 0x249C107F, 0xC48D24EF,
       0x5DE54C30, 0xDEFECE65, 0x2CA1480D, 0x3C15332C, 0x1CEC9AD, 0x160CCCD0, 0xBACDA98,
       0x361B8FE0, 0xD2320BA6],
       0x499911B1, 0x9E58E42F, 0x56E3DC4E, 0xA096535D, 0x716BB025, 0x85A71424, 0xE807EA7F,
       0xFAC06AED) =
     ([0xDEFECE65, 0x2CA1480D, 0x3C15332C, 0x1CEC9AD, 0x160CCCD0, 0xBACDA98, 0x361B8FE0,
       0xD2320BA6, 0x29B7007, 0x7546587C, 0x7F54F39, 0xF808DDC3, 0xDCCA7608, 0x5E427188,
       0x44BCEC5D, 0x3B5EC49B],
       0x365A34CD, 0x54982D6C, 0x32FA442B, 0xA40972D4, 0xCBB3F8EB, 0x8A6A82B2, 0xD285C679,
       0xAA2C1810)"
  by (simp add: sha_eval)

lemma sha_empty_rounds_6:
  "sha_rounds [0x19A4C116, 0x1E376C08, 0x2748774C, 0x34B0BCB5, 0x391C0CB3, 0x4ED8AA4A, 0x5B9CCA4F,
         0x682E6FF3]
      ([0xDEFECE65, 0x2CA1480D, 0x3C15332C, 0x1CEC9AD, 0x160CCCD0, 0xBACDA98, 0x361B8FE0,
       0xD2320BA6, 0x29B7007, 0x7546587C, 0x7F54F39, 0xF808DDC3, 0xDCCA7608, 0x5E427188,
       0x44BCEC5D, 0x3B5EC49B],
       0x365A34CD, 0x54982D6C, 0x32FA442B, 0xA40972D4, 0xCBB3F8EB, 0x8A6A82B2, 0xD285C679,
       0xAA2C1810) =
     ([0x29B7007, 0x7546587C, 0x7F54F39, 0xF808DDC3, 0xDCCA7608, 0x5E427188, 0x44BCEC5D,
       0x3B5EC49B, 0x8DC76D8C, 0x29847C1, 0x77C3BC44, 0x9B8ACC43, 0x25CB445B, 0xB5506E61,
       0x11356AF7, 0x6D22C991],
       0x1638014, 0x2CAF58CA, 0x3A0E9477, 0xB1B29C90, 0xADF94E0A, 0xE588E598, 0xFD99936E,
       0x43A5DEF8)"
  by (simp add: sha_eval)

lemma sha_empty_rounds_7:
  "sha_rounds [0x748F82EE, 0x78A5636F, 0x84C87814, 0x8CC70208, 0x90BEFFFA, 0xA4506CEB, 0xBEF9A3F7,
         0xC67178F2]
      ([0x29B7007, 0x7546587C, 0x7F54F39, 0xF808DDC3, 0xDCCA7608, 0x5E427188, 0x44BCEC5D,
       0x3B5EC49B, 0x8DC76D8C, 0x29847C1, 0x77C3BC44, 0x9B8ACC43, 0x25CB445B, 0xB5506E61,
       0x11356AF7, 0x6D22C991],
       0x1638014, 0x2CAF58CA, 0x3A0E9477, 0xB1B29C90, 0xADF94E0A, 0xE588E598, 0xFD99936E,
       0x43A5DEF8) =
     ([0x8DC76D8C, 0x29847C1, 0x77C3BC44, 0x9B8ACC43, 0x25CB445B, 0xB5506E61, 0x11356AF7,
       0x6D22C991, 0x7DB23A9C, 0x4C2AEACB, 0xAD04ED5E, 0xDDA6D467, 0x46183C4, 0xA90A0ECD,
       0x23B6FC97, 0xD3666279],
       0x79A6DDDB, 0xDD946D8F, 0x5E8D0156, 0xF41FC3EA, 0xD69FEF65, 0xC9962AC0, 0x8511BF70,
       0x1C71EB3C)"
  by (simp add: sha_eval)

lemma sha_empty_all_rounds:
  "sha_rounds sha_K ([0x80000000, 0, 0, 0, 0, 0, 0, 0, 0, 0, 0, 0, 0, 0, 0, 0], sha_init) =
   sha_rounds (drop 56 sha_K) (sha_rounds (take 8 (drop 48 sha_K)) (sha_rounds (take 8 (drop 40 sha_K))
    (sha_rounds (take 8 (drop 32 sha_K)) (sha_rounds (take 8 (drop 24 sha_K))
    (sha_rounds (take 8 (drop 16 sha_K)) (sha_rounds (take 8 (drop 8 sha_K)) (sha_rounds (take 8 sha_K)
      ([0x80000000, 0, 0, 0, 0, 0, 0, 0, 0, 0, 0, 0, 0, 0, 0, 0], sha_init))))))))"
  by (simp only: sha_rounds_append [symmetric] append_assoc) (simp add: sha_K_def)

lemma words_be_zeros: "words_be (replicate (4 * n) 0) = replicate n 0"
proof (induction n)
  case (Suc n)
  have "replicate (4 * Suc n) (0 :: byte) = 0 # 0 # 0 # 0 # replicate (4 * n) 0"
    by (simp add: eval_nat_numeral)
  with Suc show ?case by simp
qed simp

lemma sha_empty_block:
  "words_be (take 64 (sha_pad [])) = [0x80000000, 0, 0, 0, 0, 0, 0, 0, 0, 0, 0, 0, 0, 0, 0, 0]"
proof -
  have z: "put_uint64_be 0 = replicate 8 0" by (simp add: put_uint64_be_def numeral_eq_Suc)
  have "sha_pad [] = 128 # replicate (55 + 8) 0"
    by (simp only: replicate_add) (simp add: sha_pad_def z)
  also have "\<dots> = 128 # 0 # 0 # 0 # replicate (4 * 15) 0"
  proof -
    have "replicate (55 + 8) (0 :: byte) = replicate (3 + 4 * 15) 0" by simp
    also have "\<dots> = [0, 0, 0] @ replicate (4 * 15) 0"
      by (simp only: replicate_add) (simp add: numeral_3_eq_3)
    finally show ?thesis by simp
  qed
  finally have "words_be (take 64 (sha_pad [])) = 0x80000000 # replicate 15 0"
    using words_be_zeros [of 15] by simp
  then show ?thesis by (simp add: numeral_eq_Suc)
qed

theorem sha256_empty:
  "sha256 [] = [0xE3, 0xB0, 0xC4, 0x42, 0x98, 0xFC, 0x1C, 0x14, 0x9A, 0xFB, 0xF4, 0xC8, 0x99, 0x6F, 0xB9, 0x24,
     0x27, 0xAE, 0x41, 0xE4, 0x64, 0x9B, 0x93, 0x4C, 0xA4, 0x95, 0x99, 0x1B, 0x78, 0x52, 0xB8, 0x55]"
proof -
  have p: "length (sha_pad []) = 64" by (simp add: sha_pad_def put_uint64_be_def)
  then have b: "sha_blocks sha_init (sha_pad []) = sha_block sha_init (take 64 (sha_pad []))"
    by (simp add: sha_blocks.simps [of sha_init] sha_blocks.simps [of _ "[]"])
  have "sha_rounds sha_K ([0x80000000, 0, 0, 0, 0, 0, 0, 0, 0, 0, 0, 0, 0, 0, 0, 0], sha_init) =
      ([0x8DC76D8C, 0x29847C1, 0x77C3BC44, 0x9B8ACC43, 0x25CB445B, 0xB5506E61, 0x11356AF7,
       0x6D22C991, 0x7DB23A9C, 0x4C2AEACB, 0xAD04ED5E, 0xDDA6D467, 0x46183C4, 0xA90A0ECD,
       0x23B6FC97, 0xD3666279],
       0x79A6DDDB, 0xDD946D8F, 0x5E8D0156, 0xF41FC3EA, 0xD69FEF65, 0xC9962AC0, 0x8511BF70,
       0x1C71EB3C)"
    unfolding sha_empty_all_rounds
    by (simp add: sha_K_def sha_init_def sha_empty_rounds_0 sha_empty_rounds_1 sha_empty_rounds_2
      sha_empty_rounds_3 sha_empty_rounds_4 sha_empty_rounds_5 sha_empty_rounds_6 sha_empty_rounds_7
      del: sha_rounds.simps)
  then have r: "sha_block sha_init (take 64 (sha_pad [])) =
      (0xE3B0C442, 0x98FC1C14, 0x9AFBF4C8, 0x996FB924, 0x27AE41E4, 0x649B934C, 0xA495991B, 0x7852B855)"
    by (simp add: sha_block_def sha_empty_block) (simp add: sha_init_def)
  show ?thesis
    unfolding sha256_def b r by (simp add: put_uint32_be_def)
qed

end
