(* ===== verification/Ocram.thy ===== *)
theory Ocram
  imports Sha256_Vectors
begin

text \<open>
  \<^verbatim>\<open>homegw-init/ocram.go\<close>: the on-chip RAM window through which one kernel hands its configuration to
  the next. \<open>writeConfigToOcram\<close> stores digest, configuration and a terminating zero;
  \<open>loadConfigFromOcram\<close> reads the window, erases it and checks the digest. The window's contents are
  the state; whether \<^verbatim>\<open>/dev/mem\<close> can be opened and mapped is the environment's answer.
\<close>

section \<open>Model\<close>

definition OCRAM_START :: nat where "OCRAM_START = 0x901000"
definition OCRAM_END :: nat where "OCRAM_END = 0x920000"

record mem_env =
  open_mem_ok :: bool
  mmap_ok :: bool

datatype ocram_error = ConfigTooBig | OpenMemFailed | MmapFailed

text \<open>Go's \<open>copy(mem[off:], xs)\<close> into a slice that is long enough.\<close>

definition blit :: "nat \<Rightarrow> bytes \<Rightarrow> bytes \<Rightarrow> bytes" where
  "blit off xs mem = take off mem @ xs @ drop (off + length xs) mem"

definition writeConfigToOcram ::
  "mem_env \<Rightarrow> bytes \<Rightarrow> bytes \<Rightarrow> (ocram_error, unit) result \<times> bytes" where
  "writeConfigToOcram env config mem =
     (if 32 + length config + 1 > OCRAM_END - OCRAM_START then (Inl (Error ConfigTooBig), mem)
      else if \<not> open_mem_ok env then (Inl (Error OpenMemFailed), mem)
      else if \<not> mmap_ok env then (Inl (Error MmapFailed), mem)
      else
        (let mem1 = blit 0 (sha256 config) mem;
             mem2 = blit 32 config mem1;
             mem3 = mem2[32 + length config := 0]
         in (Inr (), mem3)))"

definition dumpAndEraseOcram :: "mem_env \<Rightarrow> bytes \<Rightarrow> (ocram_error, bytes) result \<times> bytes" where
  "dumpAndEraseOcram env mem =
     (if \<not> open_mem_ok env then (Inl (Fatal ''Failed to open /dev/mem''), mem)
      else if \<not> mmap_ok env then (Inl (Fatal ''Failed to mmap OCRAM''), mem)
      else (Inr mem, map (\<lambda>_. 0) mem))"

text \<open>The loop over \<open>config\<close>; \<open>dataLen\<close> keeps its zero value when no byte is zero.\<close>

fun zero_index :: "nat \<Rightarrow> bytes \<Rightarrow> nat" where
  "zero_index i [] = 0"
| "zero_index i (b # bs) = (if b = 0 then i else zero_index (Suc i) bs)"

definition loadConfigFromOcram ::
  "mem_env \<Rightarrow> bytes \<Rightarrow> (ocram_error, bytes option) result \<times> bytes" where
  "loadConfigFromOcram env mem =
     (case dumpAndEraseOcram env mem of
        (Inl e, mem') \<Rightarrow> (Inl e, mem')
      | (Inr ocram, mem') \<Rightarrow>
          (let expectedConfigHash = take 32 ocram;
               config = drop 32 ocram;
               config' = take (zero_index 0 config) config
           in if expectedConfigHash \<noteq> sha256 config' then (Inr None, mem')
              else (Inr (Some config'), mem')))"

text \<open>
  The scripts read their input into a shell variable, which loses NUL bytes and trailing newlines, and
  print it with \<^verbatim>\<open>echo -n "$input"\<close>, which prints nothing for a text that is itself an option of \<^verbatim>\<open>echo\<close>.
\<close>

definition shell_text :: "bytes \<Rightarrow> bytes" where
  "shell_text input = rev (dropWhile (\<lambda>c. c = 10) (rev (filter (\<lambda>c. c \<noteq> 0) input)))"

definition echo_n :: "bytes \<Rightarrow> bytes" where
  "echo_n arg =
     (case arg of
        [] \<Rightarrow> []
      | c # opts \<Rightarrow> if c = 45 \<and> opts \<noteq> [] \<and> list_all (\<lambda>x. x = 110 \<or> x = 101 \<or> x = 69) opts then [] else arg)"

text \<open>
  \<^verbatim>\<open>scripts/gen_config_ocram_image.sh\<close>, which makes an image for the first boot;
  \<^verbatim>\<open>sha256sum | cut | xxd -r -p\<close> prints a digest and reads it back.
\<close>

definition gen_config_ocram_image :: "bytes \<Rightarrow> bytes" where
  "gen_config_ocram_image input =
     (let text = echo_n (shell_text input) in the (hex_decode (hex_encode (sha256 text))) @ text @ [0])"

section \<open>Lemmas\<close>

definition ocram_ok :: "bytes \<Rightarrow> bool" where
  "ocram_ok mem \<longleftrightarrow> length mem = OCRAM_END - OCRAM_START"

definition storable :: "bytes \<Rightarrow> bool" where
  "storable config \<longleftrightarrow> 0 \<notin> set config \<and> 32 + length config + 1 \<le> OCRAM_END - OCRAM_START"

abbreviation mem_available :: mem_env where
  "mem_available \<equiv> \<lparr>open_mem_ok = True, mmap_ok = True\<rparr>"

lemma zero_index_eq:
  "zero_index i bs = (if 0 \<in> set bs then i + length (takeWhile (\<lambda>b. b \<noteq> 0) bs) else 0)"
  by (induction bs arbitrary: i) auto

lemma take_zero_index: "take (zero_index 0 bs) bs = (if 0 \<in> set bs then takeWhile (\<lambda>b. b \<noteq> 0) bs else [])"
  by (simp add: zero_index_eq takeWhile_eq_take [symmetric])

lemma length_blit [len_simps]: "off + length xs \<le> length mem \<Longrightarrow> length (blit off xs mem) = length mem"
  by (simp add: blit_def)

lemma written_window:
  assumes "ocram_ok mem" "32 + length config + 1 \<le> OCRAM_END - OCRAM_START"
  shows "writeConfigToOcram mem_available config mem =
    (Inr (), sha256 config @ config @ 0 # drop (33 + length config) mem)"
proof -
  have l: "33 + length config \<le> length mem" using assms by (simp add: ocram_ok_def)
  have "drop (32 + length config) mem = mem ! (32 + length config) # drop (33 + length config) mem"
    using l Cons_nth_drop_Suc [of "32 + length config" mem] by simp
  moreover have "blit 32 config (blit 0 (sha256 config) mem) = sha256 config @ config @ drop (32 + length config) mem"
    by (simp add: blit_def add.commute)
  ultimately show ?thesis
    using assms(2) by (simp add: writeConfigToOcram_def Let_def list_update_append)
qed

lemma write_unavailable:
  "\<not> (open_mem_ok env \<and> mmap_ok env) \<or> \<not> 32 + length config + 1 \<le> OCRAM_END - OCRAM_START \<Longrightarrow>
     \<exists>e. writeConfigToOcram env config mem = (Inl (Error e), mem)"
  by (auto simp: writeConfigToOcram_def)

lemma load_available:
  "loadConfigFromOcram mem_available mem =
     (let c = take (zero_index 0 (drop 32 mem)) (drop 32 mem)
      in (Inr (if take 32 mem = sha256 c then Some c else None), replicate (length mem) 0))"
  by (simp add: loadConfigFromOcram_def dumpAndEraseOcram_def Let_def map_replicate_const)

lemma load_written:
  assumes "0 \<notin> set config"
  shows "fst (loadConfigFromOcram mem_available (sha256 config @ config @ 0 # rest)) = Inr (Some config)"
proof -
  have "\<forall>b\<in>set config. b \<noteq> 0" using assms by auto
  then have "takeWhile (\<lambda>b. b \<noteq> 0) (config @ 0 # rest) = config"
    by (rule takeWhile_stop) simp
  then have "take (zero_index 0 (config @ 0 # rest)) (config @ 0 # rest) = config"
    by (simp only: take_zero_index) simp
  moreover have "drop 32 (sha256 config @ config @ 0 # rest) = config @ 0 # rest"
    "take 32 (sha256 config @ config @ 0 # rest) = sha256 config" by simp_all
  ultimately show ?thesis by (simp only: load_available Let_def) simp
qed

text \<open>A text that a JSON object is, once it has no NUL byte and no newline at its end, passes unchanged.\<close>

lemma script_passes_unchanged:
  assumes "0 \<notin> set c" "c = [] \<or> hd c \<noteq> 45 \<and> last c \<noteq> 10"
  shows "echo_n (shell_text c) = c"
proof -
  have "filter (\<lambda>b. b \<noteq> 0) c = c" using assms(1) by (auto intro: filter_True)
  moreover have "dropWhile (\<lambda>b. b = 10) (rev c) = rev c"
    using assms(2) by (cases c rule: rev_cases) auto
  ultimately have "shell_text c = c" by (simp add: shell_text_def)
  with assms(2) show ?thesis by (cases c) (auto simp: echo_n_def)
qed

text \<open>A boot that finds a generated image loads the script's input.\<close>

lemma load_generated_image:
  "fst (loadConfigFromOcram mem_available (gen_config_ocram_image input @ rest)) = Inr (Some (echo_n (shell_text input)))"
proof -
  have "0 \<notin> set (echo_n (shell_text input))"
    by (auto simp: echo_n_def shell_text_def dest!: set_dropWhileD split: list.splits if_splits)
  from load_written [OF this, of rest] show ?thesis by (simp add: gen_config_ocram_image_def Let_def)
qed

lemma load_zeros: "fst (loadConfigFromOcram mem_available (replicate n 0)) = Inr None"
proof -
  have "take (zero_index 0 (replicate k 0)) (replicate k 0) = []" for k
    by (cases k) (simp_all add: take_zero_index)
  moreover have "sha256 [] \<noteq> take 32 (replicate n 0)"
    by (auto simp: sha256_empty Cons_replicate_eq)
  ultimately show ?thesis by (simp add: load_available)
qed

section \<open>The handoff interface\<close>

text \<open>
  What the two kernels rely on: a stored configuration is what the next load returns, whatever the
  window held before, and a load leaves nothing to load again.
\<close>

locale handoff =
  fixes store :: "bytes \<Rightarrow> 'm \<Rightarrow> 'm"
    and load :: "'m \<Rightarrow> bytes option \<times> 'm"
    and ready :: "'m \<Rightarrow> bool"
    and fits :: "bytes \<Rightarrow> bool"
  assumes ready_store: "ready m \<Longrightarrow> fits c \<Longrightarrow> ready (store c m)"
    and load_store: "ready m \<Longrightarrow> fits c \<Longrightarrow> fst (load (store c m)) = Some c"
    and ready_load: "ready m \<Longrightarrow> ready (snd (load m))"
    and load_load: "ready m \<Longrightarrow> fst (load (snd (load m))) = None"
begin

lemma last_store_wins:
  "ready m \<Longrightarrow> \<forall>c \<in> set cs. fits c \<Longrightarrow> fits c \<Longrightarrow>
     ready (fold store cs m) \<and> fst (load (fold store (cs @ [c]) m)) = Some c"
  by (induction cs arbitrary: m) (auto simp: load_store ready_store)

lemma loads_at_most_once:
  "ready m \<Longrightarrow> fits c \<Longrightarrow>
     fst (load (store c m)) = Some c \<and> fst (load (snd (load (store c m)))) = None"
  by (simp add: load_store load_load ready_store)

end

definition ocram_store :: "bytes \<Rightarrow> bytes \<Rightarrow> bytes" where
  "ocram_store c mem = snd (writeConfigToOcram mem_available c mem)"

definition ocram_load :: "bytes \<Rightarrow> bytes option \<times> bytes" where
  "ocram_load mem = (case loadConfigFromOcram mem_available mem of
     (Inr c, mem') \<Rightarrow> (c, mem') | (Inl _, mem') \<Rightarrow> (None, mem'))"

lemma ocram_load_eq:
  "ocram_load mem = (c, mem') \<longleftrightarrow> loadConfigFromOcram mem_available mem = (Inr c, mem')"
  by (auto simp: ocram_load_def load_available Let_def)

lemma fst_ocram_load: "fst (ocram_load mem) = c \<longleftrightarrow> fst (loadConfigFromOcram mem_available mem) = Inr c"
  by (auto simp: ocram_load_def load_available Let_def)

lemma snd_ocram_load: "snd (ocram_load mem) = replicate (length mem) 0"
  by (simp add: ocram_load_def load_available Let_def)

interpretation window: handoff ocram_store ocram_load ocram_ok storable
proof
  fix m c
  assume r: "ocram_ok m" "storable c"
  then have w: "ocram_store c m = sha256 c @ c @ 0 # drop (33 + length c) m"
    by (simp add: ocram_store_def storable_def written_window)
  show "ocram_ok (ocram_store c m)"
    using r by (simp add: w) (simp add: ocram_ok_def storable_def, arith)
  show "fst (ocram_load (ocram_store c m)) = Some c"
    using r by (simp add: w fst_ocram_load load_written storable_def)
next
  fix m
  assume r: "ocram_ok m"
  then show "ocram_ok (snd (ocram_load m))" by (simp add: snd_ocram_load ocram_ok_def)
  show "fst (ocram_load (snd (ocram_load m))) = None"
    by (simp add: snd_ocram_load fst_ocram_load load_zeros)
qed

section \<open>Properties\<close>

text \<open>
  C8: The OCRAM handoff is exact and one-shot: with \<^verbatim>\<open>/dev/mem\<close> available, a configuration without
  NUL bytes that fits the window is stored without error, the next load returns exactly it,
  whatever the window held before, and a second load finds nothing.
\<close>

theorem ocram_handoff:
  assumes "length mem = OCRAM_END - OCRAM_START" "0 \<notin> set config"
    and "32 + length config + 1 \<le> OCRAM_END - OCRAM_START"
  shows "\<exists>mem1 mem2 mem3. writeConfigToOcram mem_available config mem = (Inr (), mem1)
    \<and> loadConfigFromOcram mem_available mem1 = (Inr (Some config), mem2)
    \<and> loadConfigFromOcram mem_available mem2 = (Inr None, mem3)"
proof -
  have r: "ocram_ok mem" "storable config" using assms by (simp_all add: ocram_ok_def storable_def)
  have "writeConfigToOcram mem_available config mem = (Inr (), ocram_store config mem)"
    using r by (simp add: ocram_store_def storable_def written_window)
  moreover have "loadConfigFromOcram mem_available (ocram_store config mem) =
      (Inr (Some config), snd (ocram_load (ocram_store config mem)))"
    using window.loads_at_most_once [OF r] ocram_load_eq by (metis prod.collapse)
  moreover have "loadConfigFromOcram mem_available (snd (ocram_load (ocram_store config mem))) =
      (Inr None, snd (ocram_load (snd (ocram_load (ocram_store config mem)))))"
    using window.loads_at_most_once [OF r] ocram_load_eq by (metis prod.collapse)
  ultimately show ?thesis by blast
qed

theorem ocram_handoff_witness:
  "\<exists>mem1 mem2 mem3. writeConfigToOcram mem_available [65] (replicate 126976 0) = (Inr (), mem1)
    \<and> loadConfigFromOcram mem_available mem1 = (Inr (Some [65]), mem2)
    \<and> loadConfigFromOcram mem_available mem2 = (Inr None, mem3)"
  by (rule ocram_handoff) (simp_all add: OCRAM_START_def OCRAM_END_def)

text \<open>
  A configuration taken from OCRAM is genuine and the window is always left erased: whatever the
  window held, a load that returns a configuration returns bytes without NUL whose SHA-256 is the
  stored digest, and every load overwrites the whole window with zeros.
\<close>

lemma ocram_load_sound:
  "snd (loadConfigFromOcram mem_available mem) = replicate (length mem) 0 \<and>
   (\<forall>c. fst (loadConfigFromOcram mem_available mem) = Inr (Some c) \<longrightarrow>
      sha256 c = take 32 mem \<and> 0 \<notin> set c \<and> prefix c (drop 32 mem))"
proof -
  have "0 \<notin> set (take (zero_index 0 bs) bs)" for bs
    by (auto simp: take_zero_index dest: set_takeWhileD)
  then show ?thesis by (auto simp: load_available Let_def take_is_prefix)
qed

lemma ocram_load_sound_example:
  "fst (loadConfigFromOcram mem_available (sha256 [65] @ [65, 0])) = Inr (Some [65]) \<and>
   snd (loadConfigFromOcram mem_available (sha256 [65] @ [65, 0])) = replicate 34 0 \<and> 0 \<notin> set [65 :: byte]"
  using ocram_load_sound [of "sha256 [65] @ [65, 0]"] load_written [of "[65]" "[]"] by simp

text \<open>
  \<open>writeConfigToOcram\<close> fails cleanly: if the configuration with digest and terminator does not
  fit the window, or \<^verbatim>\<open>/dev/mem\<close> cannot be opened or mapped, it reports an error and the window is
  unchanged; otherwise it succeeds and changes nothing beyond the terminator.
\<close>

lemma writeConfigToOcram_cases:
  assumes "length mem = OCRAM_END - OCRAM_START"
  shows "if 32 + length config + 1 \<le> OCRAM_END - OCRAM_START \<and> open_mem_ok env \<and> mmap_ok env
    then (\<exists>mem'. writeConfigToOcram env config mem = (Inr (), mem') \<and> length mem' = length mem
            \<and> drop (33 + length config) mem' = drop (33 + length config) mem)
    else (\<exists>e. writeConfigToOcram env config mem = (Inl (Error e), mem))"
proof (cases "32 + length config + 1 \<le> OCRAM_END - OCRAM_START \<and> open_mem_ok env \<and> mmap_ok env")
  case True
  then have "writeConfigToOcram env config mem = writeConfigToOcram mem_available config mem"
    by (simp add: writeConfigToOcram_def)
  with True assms show ?thesis by (simp add: written_window ocram_ok_def, arith)
next
  case False
  then show ?thesis using write_unavailable [of env config mem] by auto
qed

end
