(* ===== verification/Go_Sync.thy ===== *)
theory Go_Sync
  imports Hgw_Prelude
begin

text \<open>
  Go's channels as the gateway uses them: a bounded buffer with a closed flag, sends and receives
  under \<open>select\<close> with a \<open>default\<close> branch, and \<open>close\<close>. Buffered channels of unit values are its
  counting semaphores (\<^verbatim>\<open>http.go\<close>, \<^verbatim>\<open>sshrelay.go\<close>, \<^verbatim>\<open>tesla-api/lib.go\<close>), and \<open>sync.Mutex\<close> with \<open>TryLock\<close>
  guards kexec. The locale \<open>semaphore\<close> is what their clients rely on.
\<close>

section \<open>Channels\<close>

record 'a chan =
  buf :: "'a list"
  capacity :: nat
  closed :: bool

definition make_chan :: "nat \<Rightarrow> 'a chan" where
  "make_chan n = \<lparr>buf = [], capacity = n, closed = False\<rparr>"

datatype 'a send_result = Sent "'a chan" | WouldBlock | SendPanic go_panic

definition try_send :: "'a \<Rightarrow> 'a chan \<Rightarrow> 'a send_result" where
  "try_send x c =
     (if closed c then SendPanic ClosedChannel
      else if length (buf c) < capacity c then Sent (c\<lparr>buf := buf c @ [x]\<rparr>)
      else WouldBlock)"

text \<open>\<open>Received None\<close> is the zero value with \<open>ok = false\<close> of a closed, drained channel.\<close>

datatype 'a recv_result = Received "'a option" "'a chan" | RecvBlocks

definition try_recv :: "'a chan \<Rightarrow> 'a recv_result" where
  "try_recv c =
     (case buf c of
        x # xs \<Rightarrow> Received (Some x) (c\<lparr>buf := xs\<rparr>)
      | [] \<Rightarrow> if closed c then Received None c else RecvBlocks)"

definition close_chan :: "'a chan \<Rightarrow> go_panic + 'a chan" where
  "close_chan c = (if closed c then Inl ClosedChannel else Inr (c\<lparr>closed := True\<rparr>))"

definition chan_ok :: "'a chan \<Rightarrow> bool" where
  "chan_ok c \<longleftrightarrow> length (buf c) \<le> capacity c"

lemma chan_ok_make [simp]: "chan_ok (make_chan n)"
  by (simp add: chan_ok_def make_chan_def)

lemma try_send_ok: "chan_ok c \<Longrightarrow> try_send x c = Sent c' \<Longrightarrow> chan_ok c'"
  by (auto simp: try_send_def chan_ok_def split: if_splits)

lemma try_recv_ok: "chan_ok c \<Longrightarrow> try_recv c = Received x c' \<Longrightarrow> chan_ok c'"
  by (auto simp: try_recv_def chan_ok_def split: if_splits list.splits)

section \<open>Semaphores\<close>

text \<open>\<open>select { case sem <- struct{}{}: ... default: ... }\<close> and the deferred \<open><-sem\<close>.\<close>

definition sem_acquire :: "unit chan \<Rightarrow> unit chan option" where
  "sem_acquire c = (case try_send () c of Sent c' \<Rightarrow> Some c' | _ \<Rightarrow> None)"

definition sem_release :: "unit chan \<Rightarrow> unit chan" where
  "sem_release c = (case try_recv c of Received _ c' \<Rightarrow> c' | RecvBlocks \<Rightarrow> c)"

text \<open>\<open>sync.Mutex\<close>: \<open>TryLock\<close> and \<open>Unlock\<close>.\<close>

definition try_lock :: "bool \<Rightarrow> bool option" where
  "try_lock held = (if held then None else Some True)"

definition unlock :: "bool \<Rightarrow> bool" where
  "unlock held = False"

text \<open>
  Clients arrive and are let in or turned away; a client that was let in departs later. The second
  component counts the clients inside, the third the ones turned away.
\<close>

datatype sem_event = Arrive | Depart

fun sem_step :: "('s \<Rightarrow> 's option) \<Rightarrow> ('s \<Rightarrow> 's) \<Rightarrow> 's \<times> nat \<times> nat \<Rightarrow> sem_event \<Rightarrow> 's \<times> nat \<times> nat" where
  "sem_step acquire release (s, inside, refused) Arrive =
     (case acquire s of Some s' \<Rightarrow> (s', Suc inside, refused) | None \<Rightarrow> (s, inside, Suc refused))"
| "sem_step acquire release (s, inside, refused) Depart =
     (if inside = 0 then (s, inside, refused) else (release s, inside - 1, refused))"

definition sem_run :: "('s \<Rightarrow> 's option) \<Rightarrow> ('s \<Rightarrow> 's) \<Rightarrow> 's \<Rightarrow> sem_event list \<Rightarrow> 's \<times> nat \<times> nat" where
  "sem_run acquire release s evs = foldl (sem_step acquire release) (s, 0, 0) evs"

locale semaphore =
  fixes acquire :: "'s \<Rightarrow> 's option"
    and release :: "'s \<Rightarrow> 's"
    and held :: "'s \<Rightarrow> nat"
    and limit :: nat
    and inv :: "'s \<Rightarrow> bool"
  assumes within: "inv s \<Longrightarrow> held s \<le> limit"
    and acquire_free: "inv s \<Longrightarrow> held s < limit \<Longrightarrow> \<exists>s'. acquire s = Some s' \<and> inv s' \<and> held s' = Suc (held s)"
    and acquire_full: "inv s \<Longrightarrow> held s = limit \<Longrightarrow> acquire s = None"
    and release_inv: "inv s \<Longrightarrow> 0 < held s \<Longrightarrow> inv (release s) \<and> held (release s) = held s - 1"
begin

definition accounted :: "'s \<times> nat \<times> nat \<Rightarrow> bool" where
  "accounted st \<longleftrightarrow> inv (fst st) \<and> held (fst st) = fst (snd st)"

lemma step_accounted: "accounted st \<Longrightarrow> accounted (sem_step acquire release st e)"
proof (cases st, cases e)
  fix s i r
  assume st: "accounted st" "st = (s, i, r)"
  show "accounted (sem_step acquire release st e)" if "e = Arrive"
    using st that acquire_free [of s] acquire_full [of s] within [of s]
    by (cases "held s < limit") (auto simp: accounted_def)
  show "accounted (sem_step acquire release st e)" if "e = Depart"
    using st that release_inv [of s] by (auto simp: accounted_def)
qed

lemma run_accounted:
  "inv s \<Longrightarrow> held s = 0 \<Longrightarrow> accounted (sem_run acquire release s evs)"
proof -
  assume "inv s" "held s = 0"
  then have "accounted (s, 0, 0)" by (simp add: accounted_def)
  then have "accounted (foldl (sem_step acquire release) (s, 0, 0) evs)"
    by (induction evs rule: rev_induct) (simp_all add: step_accounted)
  then show ?thesis by (simp add: sem_run_def)
qed

text \<open>Never more than \<open>limit\<close> clients inside, and a client is turned away only when it is full.\<close>

lemma run_bounded:
  assumes "inv s" "held s = 0"
  shows "fst (snd (sem_run acquire release s evs)) \<le> limit"
    and "acquire (fst (sem_run acquire release s evs)) = None \<longleftrightarrow>
      fst (snd (sem_run acquire release s evs)) = limit"
proof -
  have a: "accounted (sem_run acquire release s evs)" using assms by (rule run_accounted)
  then show "fst (snd (sem_run acquire release s evs)) \<le> limit"
    using within [of "fst (sem_run acquire release s evs)"] by (simp add: accounted_def)
  show "acquire (fst (sem_run acquire release s evs)) = None \<longleftrightarrow>
      fst (snd (sem_run acquire release s evs)) = limit"
    using a acquire_free acquire_full within
    by (metis accounted_def le_neq_implies_less option.distinct(1))
qed

end

text \<open>A buffered unit channel and a mutex keep this contract.\<close>

definition sem_ok :: "nat \<Rightarrow> unit chan \<Rightarrow> bool" where
  "sem_ok n c \<longleftrightarrow> capacity c = n \<and> \<not> closed c \<and> length (buf c) \<le> n"

lemma sem_ok_make [simp]: "sem_ok n (make_chan n)"
  by (simp add: sem_ok_def make_chan_def)

lemma chan_semaphore: "semaphore sem_acquire sem_release (\<lambda>c. length (buf c)) n (sem_ok n)"
  by unfold_locales
     (auto simp: sem_ok_def sem_acquire_def sem_release_def try_send_def try_recv_def split: list.splits)

interpretation mutex: semaphore try_lock unlock "\<lambda>h. if h then 1 else 0" 1 "\<lambda>_. True"
  by unfold_locales (auto simp: try_lock_def unlock_def split: if_splits)

interpretation slots: semaphore sem_acquire sem_release "\<lambda>c. length (buf c)" n "sem_ok n" for n
  by (rule chan_semaphore)

end
