(* ===== verification/Kexec_Entry.thy ===== *)
theory Kexec_Entry
  imports Kexec_Package Ocram Go_Sync
begin

text \<open>
  The two ways into a new kernel: \<open>kexec\<close> in \<^verbatim>\<open>homegw-init/http.go\<close>, the authenticated API handler of the
  running gateway, and the handler of \<^verbatim>\<open>homegw-init/emergency_kexec.go\<close>, served by the rescue process.
  A handler takes a request and the machine and yields how it ended and the machine it left, with
  the list of the effects it had. What the operating system answers is the \<open>kexec_env\<close>.
\<close>

section \<open>Requests, machine, environment\<close>

record request =
  ContentLength :: int
  Body :: bytes
  X_External_Signature :: string

record kexec_segment =
  seg_buf :: bytes
  seg_bufsz :: u32
  seg_mem :: u32
  seg_memsz :: u32

datatype effect =
    CloseSshKill
  | Pkill
  | Unmount string
  | WriteOcram bytes
  | KexecLoad u32 kexec_segment
  | LogSync
  | Reply200
  | RebootKexec

record machine =
  globalKexecLock :: bool
  KexecSshKill :: bool
  sshKill :: "unit chan"
  ocram :: bytes
  kexec_image :: "kexec_segment option"
  effects :: "effect list"

record kexec_env =
  sshKillCompletion :: bool
  pkill_kills :: "nat \<Rightarrow> bool"
  mem :: mem_env
  kexec_load_errno :: "kexec_segment \<Rightarrow> nat"
  sync_returns :: bool
  reboot_errno :: nat

record api_server =
  Version :: int
  KexecEnabled :: bool
  KexecEncryptionKey :: bytes
  Disks :: "string list"

text \<open>
  \<open>Blocked\<close> is a handler that never returns, \<open>Exited\<close> a fatal log entry, \<open>Rebooted\<close> the jump into the
  loaded kernel.
\<close>

datatype reply_body =
    NoBody
  | ErrorJson string
  | Text string
  | UnsealFailed kexec_error

datatype outcome =
    Respond nat reply_body
  | Panicked go_panic
  | Blocked
  | Exited string
  | Rebooted

section \<open>The steps the handlers share\<close>

definition add_effects :: "effect list \<Rightarrow> machine \<Rightarrow> machine" where
  "add_effects es m = m\<lparr>effects := effects m @ es\<rparr>"

text \<open>
  A deferred \<open>Unlock\<close> runs when the handler returns or panics, and not when it is stuck or the
  process is gone.
\<close>

fun defer_unlock :: "outcome \<times> machine \<Rightarrow> outcome \<times> machine" where
  "defer_unlock (Respond code body, m) = (Respond code body, m\<lparr>globalKexecLock := unlock (globalKexecLock m)\<rparr>)"
| "defer_unlock (Panicked p, m) = (Panicked p, m\<lparr>globalKexecLock := unlock (globalKexecLock m)\<rparr>)"
| "defer_unlock (out, m) = (out, m)"

text \<open>\<open>make([]byte, ContentLength)\<close> and \<open>io.ReadFull\<close>; a chunked request has content length -1.\<close>

definition read_full :: "request \<Rightarrow> (unit, bytes) result" where
  "read_full r =
     (if ContentLength r < 0 then Inl (Panic MakeSliceLen)
      else if int (length (Body r)) < ContentLength r then Inl (Error ())
      else Inr (take (nat (ContentLength r)) (Body r)))"

text \<open>
  The loop of \<open>pkill\<close> runs: it ends after two runs in a row that found no process. The result is the
  number of runs; \<open>pkill_kills i\<close> tells whether run \<open>i\<close> exits with status zero.
\<close>

partial_function (option) pkill_loop :: "(nat \<Rightarrow> bool) \<Rightarrow> nat \<Rightarrow> nat option" where
  "pkill_loop kills i =
     (if kills i then pkill_loop kills (Suc i)
      else if kills (Suc i) then pkill_loop kills (Suc (Suc i))
      else Some (Suc (Suc i)))"

definition kexec_segment_of :: "bytes \<Rightarrow> go_panic + kexec_segment" where
  "kexec_segment_of kimg =
     (if kimg = [] then Inl IndexRange
      else Inr \<lparr>seg_buf = kimg, seg_bufsz = of_nat (length kimg), seg_mem = 0x80000000, seg_memsz = 0x8000000\<rparr>)"

definition load_image :: "kexec_env \<Rightarrow> kexec_segment \<Rightarrow> machine \<Rightarrow> nat \<times> machine" where
  "load_image env seg m =
     (let m1 = add_effects [KexecLoad 0x80000000 seg] m; errno = kexec_load_errno env seg
      in if errno \<noteq> 0 then (errno, m1) else (0, m1\<lparr>kexec_image := Some seg\<rparr>))"

definition reboot :: "kexec_env \<Rightarrow> machine \<Rightarrow> outcome \<times> machine" where
  "reboot env m =
     (if reboot_errno env \<noteq> 0 then (Exited ''failed to reboot'', add_effects [RebootKexec] m)
      else (Rebooted, add_effects [RebootKexec] m))"

section \<open>The API handler\<close>

definition kill_ssh :: "machine \<Rightarrow> outcome + machine" where
  "kill_ssh m =
     (if \<not> KexecSshKill m then Inr m
      else case close_chan (sshKill m) of
        Inl p \<Rightarrow> Inl (Panicked p)
      | Inr c \<Rightarrow> Inr (add_effects [CloseSshKill] (m\<lparr>sshKill := c, KexecSshKill := False\<rparr>)))"

text \<open>From the accepted package to the jump, in the source's order.\<close>

definition kexec_commit :: "api_server \<Rightarrow> kexec_env \<Rightarrow> unsealed_package \<Rightarrow> machine \<Rightarrow> outcome \<times> machine" where
  "kexec_commit s env pkg m =
     (case kill_ssh m of
        Inl out \<Rightarrow> (out, m)
      | Inr m1 \<Rightarrow>
          if KexecSshKill m \<and> \<not> sshKillCompletion env then (Blocked, m1)
          else case pkill_loop (pkill_kills env) 0 of
            None \<Rightarrow> (Blocked, m1)
          | Some n \<Rightarrow>
              (let m2 = add_effects (replicate n Pkill) m1;
                   m3 = add_effects [Unmount ''/vroot/tmp''] m2;
                   m4 = add_effects (map Unmount (Disks s)) m3
               in case writeConfigToOcram (mem env) (Config pkg) (ocram m4) of
                    (Inl e, _) \<Rightarrow> (Respond 400 (ErrorJson ''failed to write config to ocram''), m4)
                  | (Inr _, window) \<Rightarrow>
                      (let m5 = add_effects [WriteOcram (Config pkg)] (m4\<lparr>ocram := window\<rparr>) in
                       case kexec_segment_of (Kernel pkg) of
                         Inl p \<Rightarrow> (Panicked p, m5)
                       | Inr seg \<Rightarrow>
                           (case load_image env seg m5 of
                              (errno, m6) \<Rightarrow>
                                if errno \<noteq> 0 then (Respond 400 (ErrorJson ''failed to load kexec package''), m6)
                                else reboot env
                                  (add_effects (if sync_returns env then [LogSync, Reply200] else [LogSync]) m6)))))"

definition kexec_locked ::
  "('s, 'c) kexec_deps \<Rightarrow> api_server \<Rightarrow> kexec_env \<Rightarrow> request \<Rightarrow> machine \<Rightarrow> outcome \<times> machine" where
  "kexec_locked d s env r m =
     (if ContentLength r > 128 * 1048576 then (Respond 400 (ErrorJson ''kexec package is too big''), m)
      else case read_full r of
        Inl (Panic p) \<Rightarrow> (Panicked p, m)
      | Inl _ \<Rightarrow> (Respond 400 (ErrorJson ''failed to read request body''), m)
      | Inr input \<Rightarrow>
          (case Unseal d (Version s) (KexecEncryptionKey s) input (X_External_Signature r) of
             Inl (Panic p) \<Rightarrow> (Panicked p, m)
           | Inl (Fatal msg) \<Rightarrow> (Exited msg, m)
           | Inl (Error e) \<Rightarrow> (Respond 400 (ErrorJson ''failed to unseal kexec package''), m)
           | Inr pkg \<Rightarrow> kexec_commit s env pkg m))"

definition kexec ::
  "('s, 'c) kexec_deps \<Rightarrow> api_server \<Rightarrow> kexec_env \<Rightarrow> request \<Rightarrow> machine \<Rightarrow> outcome \<times> machine" where
  "kexec d s env r m =
     (if \<not> KexecEnabled s then (Respond 400 (ErrorJson ''kexec disabled''), m)
      else case try_lock (globalKexecLock m) of
        None \<Rightarrow> (Respond 409 (ErrorJson ''kexec already in progress''), m)
      | Some l \<Rightarrow> defer_unlock (kexec_locked d s env r (m\<lparr>globalKexecLock := l\<rparr>)))"

section \<open>The rescue handler\<close>

definition emergency_commit :: "kexec_env \<Rightarrow> unsealed_package \<Rightarrow> machine \<Rightarrow> outcome \<times> machine" where
  "emergency_commit env pkg m =
     (case pkill_loop (pkill_kills env) 0 of
        None \<Rightarrow> (Blocked, m)
      | Some n \<Rightarrow>
          (let m1 = add_effects (replicate n Pkill) m;
               m2 = add_effects [Unmount ''/vroot/tmp''] m1
           in case writeConfigToOcram (mem env) (Config pkg) (ocram m2) of
                (Inl e, _) \<Rightarrow> (Respond 500 NoBody, m2)
              | (Inr _, window) \<Rightarrow>
                  (let m3 = add_effects [WriteOcram (Config pkg)] (m2\<lparr>ocram := window\<rparr>) in
                   case kexec_segment_of (Kernel pkg) of
                     Inl p \<Rightarrow> (Panicked p, m3)
                   | Inr seg \<Rightarrow>
                       (case load_image env seg m3 of
                          (errno, m4) \<Rightarrow>
                            if errno \<noteq> 0 then (Respond 500 NoBody, m4)
                            else if \<not> sync_returns env then (Blocked, m4)
                            else reboot env (add_effects [LogSync] m4)))))"

definition emergency_locked ::
  "('s, 'c) kexec_deps \<Rightarrow> bytes \<Rightarrow> kexec_env \<Rightarrow> request \<Rightarrow> machine \<Rightarrow> outcome \<times> machine" where
  "emergency_locked d key env r m =
     (if ContentLength r > 128 * 1048576 then (Respond 400 (Text ''kexec package is too big''), m)
      else case read_full r of
        Inl (Panic p) \<Rightarrow> (Panicked p, m)
      | Inl _ \<Rightarrow> (Respond 400 NoBody, m)
      | Inr input \<Rightarrow>
          (case Unseal d 1 key input (X_External_Signature r) of
             Inl (Panic p) \<Rightarrow> (Panicked p, m)
           | Inl (Fatal msg) \<Rightarrow> (Exited msg, m)
           | Inl (Error e) \<Rightarrow> (Respond 400 (UnsealFailed e), m)
           | Inr pkg \<Rightarrow> emergency_commit env pkg m))"

definition emergency_kexec ::
  "('s, 'c) kexec_deps \<Rightarrow> bytes \<Rightarrow> kexec_env \<Rightarrow> request \<Rightarrow> machine \<Rightarrow> outcome \<times> machine" where
  "emergency_kexec d key env r m =
     (case try_lock (globalKexecLock m) of
        None \<Rightarrow> (Respond 429 NoBody, m)
      | Some l \<Rightarrow> defer_unlock (emergency_locked d key env r (m\<lparr>globalKexecLock := l\<rparr>)))"

text \<open>The key the rescue process starts with: the file \<^verbatim>\<open>/kexec-encryption-key.txt\<close>.\<close>

definition emergency_key :: "bytes option \<Rightarrow> (unit, bytes) result" where
  "emergency_key key_txt =
     (case key_txt of
        None \<Rightarrow> Inl (Fatal ''can't read kexec encryption key'')
      | Some txt \<Rightarrow>
          case base64_decode txt of
            None \<Rightarrow> Inl (Fatal ''can't decode kexec encryption key'')
          | Some k \<Rightarrow>
              if length k \<noteq> 32 then Inl (Fatal ''kexec encryption key is not 32 bytes long'')
              else Inr k)"

section \<open>The pkill loop\<close>

lemma pkill_loop_sound:
  assumes "pkill_loop kills i = Some n"
  shows "\<exists>j\<ge>i. n = Suc (Suc j) \<and> \<not> kills j \<and> \<not> kills (Suc j) \<and> (\<forall>k. i \<le> k \<longrightarrow> k < j \<longrightarrow> kills k \<or> kills (Suc k))"
  using assms
proof (induction kills i n rule: pkill_loop.raw_induct [rotated, consumes 1, case_names step])
  case (step loop kills i n)
  consider (killed) "kills i" "loop kills (Suc i) = Some n"
    | (late) "\<not> kills i" "kills (Suc i)" "loop kills (Suc (Suc i)) = Some n"
    | (stop) "\<not> kills i" "\<not> kills (Suc i)" "n = Suc (Suc i)"
    using step(2) by (auto split: if_splits)
  then show ?case
  proof cases
    case killed
    then obtain j where "Suc i \<le> j" "n = Suc (Suc j)" "\<not> kills j" "\<not> kills (Suc j)"
      and k: "\<And>k. Suc i \<le> k \<Longrightarrow> k < j \<Longrightarrow> kills k \<or> kills (Suc k)" using step(1) by blast
    moreover have "kills k \<or> kills (Suc k)" if "i \<le> k" "k < j" for k
      using k [of k] that killed(1) by (cases "k = i") simp_all
    ultimately show ?thesis by (intro exI [of _ j]) simp
  next
    case late
    then obtain j where "Suc (Suc i) \<le> j" "n = Suc (Suc j)" "\<not> kills j" "\<not> kills (Suc j)"
      and k: "\<And>k. Suc (Suc i) \<le> k \<Longrightarrow> k < j \<Longrightarrow> kills k \<or> kills (Suc k)" using step(1) by blast
    moreover have "kills k \<or> kills (Suc k)" if "i \<le> k" "k < j" for k
      using k [of k] that late(2) by (cases "k = i"; cases "k = Suc i") simp_all
    ultimately show ?thesis by (intro exI [of _ j]) simp
  next
    case stop
    then show ?thesis by auto
  qed
qed

lemma pkill_loop_stops:
  "\<not> kills (i + d) \<Longrightarrow> \<not> kills (Suc (i + d)) \<Longrightarrow> \<exists>n. pkill_loop kills i = Some n"
proof (induction d arbitrary: i rule: less_induct)
  case (less d)
  show ?case
  proof (cases "kills i")
    case True
    then obtain e where "d = Suc e" using less.prems by (cases d) auto
    with True less.IH [of e "Suc i"] less.prems show ?thesis by (subst pkill_loop.simps) simp
  next
    case i: False
    show ?thesis
    proof (cases "kills (Suc i)")
      case True
      then have "d \<noteq> 0" "d \<noteq> 1" using less.prems by (auto intro: gr0I)
      then obtain e where "d = Suc (Suc e)" by (metis One_nat_def not0_implies_Suc)
      with i True less.IH [of e "Suc (Suc i)"] less.prems show ?thesis by (subst pkill_loop.simps) simp
    qed (use i in \<open>subst pkill_loop.simps, simp\<close>)
  qed
qed

lemma pkill_loop_never: "pkill_loop kills 0 = None \<longleftrightarrow> (\<forall>j. kills j \<or> kills (Suc j))"
proof
  assume "pkill_loop kills 0 = None"
  then show "\<forall>j. kills j \<or> kills (Suc j)" using pkill_loop_stops [of kills 0] by auto
next
  assume "\<forall>j. kills j \<or> kills (Suc j)"
  then show "pkill_loop kills 0 = None" using pkill_loop_sound [of kills 0] by (cases "pkill_loop kills 0") blast+
qed

section \<open>What a commit may do\<close>

text \<open>
  The order of effects a package may have: preparations, then its configuration, then its kernel,
  then the jump. \<open>upgrade_run pkg stage es\<close> accepts every prefix of such a run.
\<close>

datatype stage = Preparing | ConfigWritten | ImageLoaded | Jumped

fun upgrade_run :: "unsealed_package \<Rightarrow> stage \<Rightarrow> effect list \<Rightarrow> bool" where
  "upgrade_run pkg st [] = True"
| "upgrade_run pkg Preparing (CloseSshKill # es) = upgrade_run pkg Preparing es"
| "upgrade_run pkg Preparing (Pkill # es) = upgrade_run pkg Preparing es"
| "upgrade_run pkg Preparing (Unmount _ # es) = upgrade_run pkg Preparing es"
| "upgrade_run pkg Preparing (WriteOcram c # es) = (c = Config pkg \<and> upgrade_run pkg ConfigWritten es)"
| "upgrade_run pkg ConfigWritten (KexecLoad _ seg # es) =
     (seg_buf seg = Kernel pkg \<and> upgrade_run pkg ImageLoaded es)"
| "upgrade_run pkg ImageLoaded (LogSync # es) = upgrade_run pkg ImageLoaded es"
| "upgrade_run pkg ImageLoaded (Reply200 # es) = upgrade_run pkg ImageLoaded es"
| "upgrade_run pkg ImageLoaded (RebootKexec # es) = upgrade_run pkg Jumped es"
| "upgrade_run pkg _ _ = False"

fun_cases upgrade_run_Jumped: "upgrade_run pkg Jumped (e # es)"
fun_cases upgrade_run_Loaded: "upgrade_run pkg ConfigWritten (e # es)"

lemma upgrade_run_pkills [simp]: "upgrade_run pkg Preparing (replicate n Pkill @ es) = upgrade_run pkg Preparing es"
  by (induction n) auto

lemma upgrade_run_unmounts [simp]: "upgrade_run pkg Preparing (map Unmount ds @ es) = upgrade_run pkg Preparing es"
  by (induction ds) auto

lemma upgrade_run_pkills_only [simp]: "upgrade_run pkg Preparing (replicate n Pkill)"
  using upgrade_run_pkills [of pkg n "[]"] by simp

lemma upgrade_run_unmounts_only [simp]: "upgrade_run pkg Preparing (map Unmount ds)"
  using upgrade_run_unmounts [of pkg ds "[]"] by simp

lemma upgrade_run_load:
  "upgrade_run pkg st es \<Longrightarrow> KexecLoad e seg \<in> set es \<Longrightarrow>
     seg_buf seg = Kernel pkg \<and> (st = ConfigWritten \<or> st = Preparing \<and> WriteOcram (Config pkg) \<in> set es)"
  by (induction pkg st es rule: upgrade_run.induct) auto

lemma upgrade_run_jump:
  "upgrade_run pkg st es \<Longrightarrow> RebootKexec \<in> set es \<Longrightarrow>
     st = ImageLoaded \<or> (\<exists>e seg. KexecLoad e seg \<in> set es \<and> seg_buf seg = Kernel pkg)"
  by (induction pkg st es rule: upgrade_run.induct) auto

lemma upgrade_run_write: "upgrade_run pkg st es \<Longrightarrow> WriteOcram c \<in> set es \<Longrightarrow> c = Config pkg"
  by (induction pkg st es rule: upgrade_run.induct) auto

text \<open>
  Everything a committed package may do to the machine: an ordered run of effects, an image only
  when the handler does not come back, and the lock and the size of the window left alone.
\<close>

definition comes_back :: "outcome \<Rightarrow> bool" where
  "comes_back out \<longleftrightarrow> (case out of Respond _ _ \<Rightarrow> True | Panicked _ \<Rightarrow> True | _ \<Rightarrow> False)"

lemma comes_back_simps [simp]:
  "comes_back (Respond n b)" "comes_back (Panicked p)" "\<not> comes_back Blocked" "\<not> comes_back (Exited msg)"
  "\<not> comes_back Rebooted"
  by (simp_all add: comes_back_def)

text \<open>The next boot would take the package's configuration from the window.\<close>

definition boots_with :: "unsealed_package \<Rightarrow> bytes \<Rightarrow> bool" where
  "boots_with pkg w \<longleftrightarrow> fst (loadConfigFromOcram mem_available w) = Inr (Some (Config pkg))"

definition upgrade_of :: "unsealed_package \<Rightarrow> machine \<Rightarrow> outcome \<Rightarrow> machine \<Rightarrow> bool" where
  "upgrade_of pkg m out m' \<longleftrightarrow>
     (\<exists>es. effects m' = effects m @ es \<and> upgrade_run pkg Preparing es)
     \<and> (kexec_image m' = kexec_image m \<or>
          \<not> comes_back out \<and> (\<exists>e seg es. kexec_image m' = Some seg \<and> effects m' = effects m @ es \<and> KexecLoad e seg \<in> set es)
          \<and> (ocram_ok (ocram m) \<and> 0 \<notin> set (Config pkg) \<longrightarrow> boots_with pkg (ocram m')))
     \<and> globalKexecLock m' = globalKexecLock m
     \<and> (ocram_ok (ocram m) \<longrightarrow> ocram_ok (ocram m'))"

lemma write_keeps_size:
  "ocram_ok w \<Longrightarrow> writeConfigToOcram menv c w = (Inr x, w') \<Longrightarrow> ocram_ok w'"
  by (auto simp: writeConfigToOcram_def Let_def ocram_ok_def blit_def split: if_splits)

lemma write_boots:
  assumes "ocram_ok w" "0 \<notin> set (Config pkg)" "writeConfigToOcram menv (Config pkg) w = (Inr x, w')"
  shows "boots_with pkg w'"
proof -
  from assms(3) have "32 + length (Config pkg) + 1 \<le> OCRAM_END - OCRAM_START"
    "writeConfigToOcram mem_available (Config pkg) w = (Inr (), w')"
    by (auto simp: writeConfigToOcram_def split: if_splits)
  with written_window [OF assms(1)] have "w' = sha256 (Config pkg) @ Config pkg @ 0 # drop (33 + length (Config pkg)) w"
    by simp
  with load_written [OF assms(2)] show ?thesis by (simp add: boots_with_def)
qed

lemma kexec_segment_of_simps [simp]:
  "kexec_segment_of k = Inl p \<longleftrightarrow> k = [] \<and> p = IndexRange"
  "kexec_segment_of k = Inr seg \<longleftrightarrow> k \<noteq> [] \<and>
     seg = \<lparr>seg_buf = k, seg_bufsz = of_nat (length k), seg_mem = 0x80000000, seg_memsz = 0x8000000\<rparr>"
  by (auto simp: kexec_segment_of_def)

lemma add_effects_simps [simp]:
  "effects (add_effects es m) = effects m @ es" "ocram (add_effects es m) = ocram m"
  "kexec_image (add_effects es m) = kexec_image m" "globalKexecLock (add_effects es m) = globalKexecLock m"
  "KexecSshKill (add_effects es m) = KexecSshKill m" "sshKill (add_effects es m) = sshKill m"
  by (simp_all add: add_effects_def)

lemma kill_ssh_Inr:
  "kill_ssh m = Inr m1 \<Longrightarrow>
     effects m1 = effects m @ (if KexecSshKill m then [CloseSshKill] else []) \<and> ocram m1 = ocram m
     \<and> kexec_image m1 = kexec_image m \<and> globalKexecLock m1 = globalKexecLock m"
  by (auto simp: kill_ssh_def split: if_splits sum.splits)

lemma upgrade_of_commit:
  assumes "kexec_commit s env pkg m = (out, m')"
  shows "upgrade_of pkg m out m'"
proof (cases "kill_ssh m")
  case (Inl o1)
  with assms show ?thesis by (auto simp: kexec_commit_def upgrade_of_def)
next
  case (Inr m1)
  note k = kill_ssh_Inr [OF Inr]
  from assms Inr k show ?thesis
    by (auto simp: kexec_commit_def upgrade_of_def load_image_def reboot_def Let_def
          split: if_splits option.splits prod.splits sum.splits dest: write_keeps_size write_boots)
qed

lemma upgrade_of_emergency:
  assumes "emergency_commit env pkg m = (out, m')"
  shows "upgrade_of pkg m out m'"
  using assms
  by (auto simp: emergency_commit_def upgrade_of_def load_image_def reboot_def Let_def
        split: if_splits option.splits prod.splits sum.splits dest: write_keeps_size write_boots)

section \<open>The contract of a kexec service\<close>

definition unsealed :: "('s, 'c) kexec_deps \<Rightarrow> int \<Rightarrow> bytes \<Rightarrow> request \<Rightarrow> unsealed_package option" where
  "unsealed d cur key r =
     (if ContentLength r > 128 * 1048576 then None
      else case read_full r of
        Inl _ \<Rightarrow> None
      | Inr input \<Rightarrow>
          (case Unseal d cur key input (X_External_Signature r) of Inl _ \<Rightarrow> None | Inr pkg \<Rightarrow> Some pkg))"

lemma unsealed_SomeD:
  "unsealed d cur key r = Some pkg \<Longrightarrow>
     Unseal d cur key (take (nat (ContentLength r)) (Body r)) (X_External_Signature r) = Inr pkg
     \<and> 0 \<le> ContentLength r \<and> ContentLength r \<le> 128 * 1048576 \<and> ContentLength r \<le> int (length (Body r))"
  by (auto simp: unsealed_def read_full_def split: if_splits sum.splits)

text \<open>Requests one after the other, until the process ends.\<close>

fun serve :: "(kexec_env \<Rightarrow> request \<Rightarrow> machine \<Rightarrow> outcome \<times> machine) \<Rightarrow> (kexec_env \<times> request) list \<Rightarrow>
  machine \<Rightarrow> outcome list \<times> machine" where
  "serve h [] m = ([], m)"
| "serve h ((env, r) # rs) m =
     (case h env r m of
        (Rebooted, m') \<Rightarrow> ([Rebooted], m')
      | (Exited msg, m') \<Rightarrow> ([Exited msg], m')
      | (out, m') \<Rightarrow> (case serve h rs m' of (outs, m'') \<Rightarrow> (out # outs, m'')))"

text \<open>
  \<open>from_accepted P m\<close>: every configuration written and every kernel loaded come from a package with
  \<open>P\<close>, a kernel is loaded only with its configuration in place, and the image is one of these.
\<close>

definition from_accepted :: "(unsealed_package \<Rightarrow> bool) \<Rightarrow> machine \<Rightarrow> bool" where
  "from_accepted P m \<longleftrightarrow>
     (\<forall>c. WriteOcram c \<in> set (effects m) \<longrightarrow> (\<exists>pkg. P pkg \<and> c = Config pkg))
     \<and> (\<forall>e seg. KexecLoad e seg \<in> set (effects m) \<longrightarrow>
          (\<exists>pkg. P pkg \<and> seg_buf seg = Kernel pkg \<and> WriteOcram (Config pkg) \<in> set (effects m)))
     \<and> (\<forall>seg. kexec_image m = Some seg \<longrightarrow> (\<exists>e. KexecLoad e seg \<in> set (effects m)))"

lemma from_accepted_upgrade:
  assumes "from_accepted P m" "upgrade_of pkg m out m'" "P pkg"
  shows "from_accepted P m'"
proof -
  from assms(2) obtain es where es: "effects m' = effects m @ es" "upgrade_run pkg Preparing es"
    unfolding upgrade_of_def by blast
  have img: "kexec_image m' = kexec_image m \<or> (\<exists>e seg. kexec_image m' = Some seg \<and> KexecLoad e seg \<in> set (effects m'))"
    using assms(2) unfolding upgrade_of_def by (metis UnCI set_append)
  have "\<exists>pkg. P pkg \<and> c = Config pkg" if "WriteOcram c \<in> set (effects m')" for c
    using that assms(1,3) upgrade_run_write [OF es(2)] by (auto simp: es(1) from_accepted_def)
  moreover have "\<exists>pkg. P pkg \<and> seg_buf seg = Kernel pkg \<and> WriteOcram (Config pkg) \<in> set (effects m')"
    if "KexecLoad e seg \<in> set (effects m')" for e seg
    using that assms(1,3) upgrade_run_load [OF es(2)] by (fastforce simp: es(1) from_accepted_def)
  moreover have "\<exists>e. KexecLoad e seg \<in> set (effects m')" if "kexec_image m' = Some seg" for seg
    using that assms(1) img unfolding from_accepted_def by (metis UnCI es(1) option.inject set_append)
  ultimately show ?thesis by (simp add: from_accepted_def)
qed

text \<open>
  \<open>image_backed P m\<close>: the window has its size, and when an image is in place then no further request is
  let in, the image is the kernel of a package with \<open>P\<close>, and the window holds the same package's
  configuration.
\<close>

definition image_backed :: "(unsealed_package \<Rightarrow> bool) \<Rightarrow> machine \<Rightarrow> bool" where
  "image_backed P m \<longleftrightarrow> ocram_ok (ocram m)
     \<and> (\<forall>seg. kexec_image m = Some seg \<longrightarrow> globalKexecLock m
          \<and> (\<exists>pkg. P pkg \<and> seg_buf seg = Kernel pkg \<and> WriteOcram (Config pkg) \<in> set (effects m) \<and> boots_with pkg (ocram m)))"

lemma loaded_origin:
  assumes "from_accepted P m" "c \<longrightarrow> image_backed P m" "KexecLoad e seg \<in> set (effects m) \<or> kexec_image m = Some seg"
  shows "\<exists>pkg. P pkg \<and> seg_buf seg = Kernel pkg \<and> WriteOcram (Config pkg) \<in> set (effects m)
    \<and> (c \<and> kexec_image m = Some seg \<longrightarrow> boots_with pkg (ocram m))"
proof (cases "c \<and> kexec_image m = Some seg")
  case True
  then have "image_backed P m" "kexec_image m = Some seg" using assms(2) by simp_all
  then show ?thesis unfolding image_backed_def by blast
next
  case False
  obtain e' where "KexecLoad e' seg \<in> set (effects m)" using assms(1,3) unfolding from_accepted_def by blast
  then show ?thesis using assms(1) False unfolding from_accepted_def by blast
qed

lemma upgrade_of_image:
  assumes "upgrade_of pkg m out m'" "kexec_image m = None" "kexec_image m' = Some seg" "ocram_ok (ocram m)" "0 \<notin> set (Config pkg)"
  shows "\<not> comes_back out \<and> seg_buf seg = Kernel pkg \<and> WriteOcram (Config pkg) \<in> set (effects m') \<and> boots_with pkg (ocram m')"
proof -
  from assms(1) obtain es where es: "effects m' = effects m @ es" "upgrade_run pkg Preparing es"
    unfolding upgrade_of_def by blast
  have new: "kexec_image m' \<noteq> kexec_image m" using assms(2,3) by simp
  with assms(1) have "\<not> comes_back out" "\<exists>e seg es. kexec_image m' = Some seg \<and> effects m' = effects m @ es \<and> KexecLoad e seg \<in> set es"
    "ocram_ok (ocram m) \<and> 0 \<notin> set (Config pkg) \<longrightarrow> boots_with pkg (ocram m')"
    unfolding upgrade_of_def by blast+
  with assms(3-5) es(1) obtain e where "\<not> comes_back out" "KexecLoad e seg \<in> set es" "boots_with pkg (ocram m')" by auto
  with upgrade_run_load [OF es(2)] es(1) show ?thesis by auto
qed

locale kexec_service =
  fixes handle :: "kexec_env \<Rightarrow> request \<Rightarrow> machine \<Rightarrow> outcome \<times> machine"
    and unseals :: "request \<Rightarrow> unsealed_package option"
  assumes busy: "globalKexecLock m \<Longrightarrow> \<exists>code body. handle env r m = (Respond code body, m)"
    and refused: "\<not> globalKexecLock m \<Longrightarrow> unseals r = None \<Longrightarrow>
      \<exists>out. comes_back out \<and> handle env r m = (out, m)"
    and accepted: "\<not> globalKexecLock m \<Longrightarrow> unseals r = Some pkg \<Longrightarrow> handle env r m = (out, m') \<Longrightarrow>
      upgrade_of pkg m out (m'\<lparr>globalKexecLock := False\<rparr>) \<and> globalKexecLock m' = (\<not> comes_back out)"
begin

lemma handle_from_accepted:
  assumes "from_accepted P m" "\<And>pkg. unseals r = Some pkg \<Longrightarrow> P pkg" "handle env r m = (out, m')"
  shows "from_accepted P m'"
proof -
  consider (same) "m' = m" | (new) pkg where "\<not> globalKexecLock m" "unseals r = Some pkg"
    using assms(3) busy [of m env r] refused [of m r env]
    by (cases "globalKexecLock m"; cases "unseals r") (auto simp del: not_None_eq)
  then show ?thesis
  proof cases
    case same
    with assms(1) show ?thesis by simp
  next
    case new
    have "from_accepted P (m'\<lparr>globalKexecLock := False\<rparr>)"
      using assms(1,2) accepted [OF new assms(3)] new(2) by (blast intro: from_accepted_upgrade)
    then show ?thesis by (simp add: from_accepted_def)
  qed
qed

lemma serve_from_accepted:
  "from_accepted P m \<Longrightarrow> (\<And>env r pkg. (env, r) \<in> set rs \<Longrightarrow> unseals r = Some pkg \<Longrightarrow> P pkg) \<Longrightarrow>
     from_accepted P (snd (serve handle rs m))"
proof (induction rs arbitrary: m)
  case (Cons er rs)
  obtain env r out m' where er: "er = (env, r)" "handle env r m = (out, m')" by (cases er) fastforce
  have "from_accepted P m'"
    by (rule handle_from_accepted [OF Cons.prems(1) _ er(2)]) (use Cons.prems(2) er(1) in auto)
  then have "from_accepted P (snd (serve handle rs m'))" "from_accepted P m'"
    using Cons.IH Cons.prems(2) by auto
  then show ?case by (auto simp: er split: outcome.splits prod.splits)
qed simp

lemma handle_image_backed:
  assumes "image_backed P m" "\<And>pkg. unseals r = Some pkg \<Longrightarrow> P pkg \<and> 0 \<notin> set (Config pkg)" "handle env r m = (out, m')"
  shows "image_backed P m'"
proof (cases "\<not> globalKexecLock m \<and> unseals r \<noteq> None")
  case False
  then have "m' = m" using assms(3) busy [of m env r] refused [of m r env] by (cases "globalKexecLock m") auto
  with assms(1) show ?thesis by simp
next
  case True
  then obtain pkg where u: "\<not> globalKexecLock m" "unseals r = Some pkg" by blast
  then have n: "kexec_image m = None" "ocram_ok (ocram m)" using assms(1) by (auto simp: image_backed_def)
  note up = accepted [OF u assms(3)]
  have "ocram_ok (ocram m')" using up n(2) by (simp add: upgrade_of_def)
  then show ?thesis
    using upgrade_of_image [OF conjunct1 [OF up] n(1) _ n(2)] assms(2) [OF u(2)] up
    by (fastforce simp: image_backed_def)
qed

lemma serve_image_backed:
  "image_backed P m \<Longrightarrow> (\<And>env r pkg. (env, r) \<in> set rs \<Longrightarrow> unseals r = Some pkg \<Longrightarrow> P pkg \<and> 0 \<notin> set (Config pkg)) \<Longrightarrow>
     image_backed P (snd (serve handle rs m))"
proof (induction rs arbitrary: m)
  case (Cons er rs)
  obtain env r out m' where er: "er = (env, r)" "handle env r m = (out, m')" by (cases er) fastforce
  have "image_backed P m'"
    by (rule handle_image_backed [OF Cons.prems(1) _ er(2)]) (use Cons.prems(2) er(1) in auto)
  then have "image_backed P (snd (serve handle rs m'))" "image_backed P m'"
    using Cons.IH Cons.prems(2) by auto
  then show ?case by (auto simp: er split: outcome.splits prod.splits)
qed simp

lemma serve_refused:
  "\<not> globalKexecLock m \<Longrightarrow> \<forall>(env, r) \<in> set rs. unseals r = None \<Longrightarrow>
     snd (serve handle rs m) = m \<and> list_all comes_back (fst (serve handle rs m))"
proof (induction rs)
  case (Cons er rs)
  obtain env r where er: "er = (env, r)" by (cases er)
  then obtain out where "comes_back out" "handle env r m = (out, m)" using Cons.prems refused [of m r env] by auto
  with Cons er show ?case by (cases out) (auto split: prod.splits)
qed simp

lemma serve_busy:
  "globalKexecLock m \<Longrightarrow>
     snd (serve handle rs m) = m \<and> length (fst (serve handle rs m)) = length rs
     \<and> (\<forall>out \<in> set (fst (serve handle rs m)). \<exists>code body. out = Respond code body)"
proof (induction rs)
  case (Cons er rs)
  obtain env r where er: "er = (env, r)" by (cases er)
  then obtain code body where "handle env r m = (Respond code body, m)" using Cons.prems busy by blast
  with Cons er show ?case by (auto split: prod.splits)
qed simp

lemma handle_keeps_window:
  assumes "ocram_ok (ocram m)" "handle env r m = (out, m')"
  shows "ocram_ok (ocram m')"
proof (cases "globalKexecLock m")
  case True
  with assms busy [of m env r] show ?thesis by auto
next
  case False
  then show ?thesis
    using assms refused [of m r env] accepted [of m r _ env out m']
    by (cases "unseals r") (auto simp: upgrade_of_def)
qed

lemma serve_Rebooted:
  "serve handle rs m = (outs, m') \<Longrightarrow> Rebooted \<in> set outs \<Longrightarrow> ocram_ok (ocram m) \<Longrightarrow>
     \<exists>env r m1. (env, r) \<in> set rs \<and> ocram_ok (ocram m1) \<and> handle env r m1 = (Rebooted, m')"
proof (induction rs arbitrary: m outs)
  case (Cons er rs)
  obtain env r out m1 where er: "er = (env, r)" "handle env r m = (out, m1)" by (cases er) fastforce
  show ?case
  proof (cases "out = Rebooted")
    case True
    with er Cons.prems show ?thesis by auto
  next
    case False
    then obtain outs1 where "serve handle rs m1 = (outs1, m')" "Rebooted \<in> set outs1"
      using er Cons.prems by (cases out) (auto split: prod.splits)
    with Cons.IH handle_keeps_window [OF Cons.prems(3) er(2)] show ?thesis by fastforce
  qed
qed simp

end

section \<open>Both handlers keep it\<close>

definition no_fatal :: "('e, 'a) result \<Rightarrow> bool" where
  "no_fatal r \<longleftrightarrow> (\<forall>msg. r \<noteq> Inl (Fatal msg))"

lemma no_fatal_intros [intro!, simp]:
  "no_fatal (Inr x)" "no_fatal (Inl (Error e))" "no_fatal (Inl (Panic p))" "no_fatal (of_option e opt)"
  by (simp_all add: no_fatal_def of_option_def split: option.splits)

lemma no_fatal_bind [intro!]: "no_fatal m \<Longrightarrow> (\<And>x. no_fatal (k x)) \<Longrightarrow> no_fatal (bindR m k)"
  by (auto simp: no_fatal_def bindR_Inl_iff)

lemma no_fatal_reads: "no_fatal (read_two s)" "no_fatal (open_blob a key s)"
  by (auto simp: read_two_def read_field_def read_last_def read_len_def read_counted_def open_blob_def Let_def
      split: prod.splits)

lemma no_fatal_signatures: "no_fatal (verify_ext_sig d blob ext)" "no_fatal (verify_pgp d sig data)"
  by (auto simp: verify_ext_sig_def verify_pgp_def split: option.splits prod.splits)

lemma Unseal_no_Fatal: "Unseal d cur key blob ext \<noteq> Inl (Fatal msg)"
proof -
  have "no_fatal (decryptAndVerify d key blob ext)"
    by (auto simp: decryptAndVerify_def Let_def intro!: no_fatal_reads no_fatal_signatures split: prod.splits)
  then have "no_fatal (Unseal d cur key blob ext)"
    by (auto simp: Unseal_def intro!: no_fatal_reads split: prod.splits)
  then show ?thesis by (simp add: no_fatal_def)
qed

lemma defer_unlock_back: "comes_back out \<Longrightarrow> defer_unlock (out, m) = (out, m\<lparr>globalKexecLock := False\<rparr>)"
  by (cases out) (simp_all add: unlock_def)

lemma defer_unlock_gone: "\<not> comes_back out \<Longrightarrow> defer_unlock (out, m) = (out, m)"
  by (cases out) simp_all

lemma kexec_locked_refused:
  "unsealed d (Version s) (KexecEncryptionKey s) r = None \<Longrightarrow>
     \<exists>out. comes_back out \<and> kexec_locked d s env r m = (out, m)"
  by (auto simp: kexec_locked_def unsealed_def Unseal_no_Fatal split: if_splits sum.splits failure.splits)

lemma kexec_locked_accepted:
  "unsealed d (Version s) (KexecEncryptionKey s) r = Some pkg \<Longrightarrow>
     kexec_locked d s env r m = kexec_commit s env pkg m"
  by (auto simp: kexec_locked_def unsealed_def split: if_splits sum.splits)

lemma emergency_locked_refused:
  "unsealed d 1 key r = None \<Longrightarrow> \<exists>out. comes_back out \<and> emergency_locked d key env r m = (out, m)"
  by (auto simp: emergency_locked_def unsealed_def Unseal_no_Fatal split: if_splits sum.splits failure.splits)

lemma emergency_locked_accepted:
  "unsealed d 1 key r = Some pkg \<Longrightarrow> emergency_locked d key env r m = emergency_commit env pkg m"
  by (auto simp: emergency_locked_def unsealed_def split: if_splits sum.splits)

lemma upgrade_of_unlock:
  assumes "upgrade_of pkg (m\<lparr>globalKexecLock := True\<rparr>) out m1" "defer_unlock (out, m1) = (out', m')" "\<not> globalKexecLock m"
  shows "upgrade_of pkg m out' (m'\<lparr>globalKexecLock := False\<rparr>) \<and> globalKexecLock m' = (\<not> comes_back out')"
  using assms by (cases out) (auto simp: upgrade_of_def unlock_def)

definition api_unseals :: "('s, 'c) kexec_deps \<Rightarrow> api_server \<Rightarrow> request \<Rightarrow> unsealed_package option" where
  "api_unseals d s r = (if KexecEnabled s then unsealed d (Version s) (KexecEncryptionKey s) r else None)"

interpretation api: kexec_service "kexec d s" "api_unseals d s" for d :: "('s, 'c) kexec_deps" and s
proof
  fix m env r
  show "globalKexecLock m \<Longrightarrow> \<exists>code body. kexec d s env r m = (Respond code body, m)"
    by (simp add: kexec_def try_lock_def)
  assume free: "\<not> globalKexecLock m"
  show "\<exists>out. comes_back out \<and> kexec d s env r m = (out, m)" if "api_unseals d s r = None"
    using that free kexec_locked_refused [of d s r env "m\<lparr>globalKexecLock := True\<rparr>"]
    by (auto simp: kexec_def try_lock_def api_unseals_def defer_unlock_back split: if_splits)
  show "upgrade_of pkg m out (m'\<lparr>globalKexecLock := False\<rparr>) \<and> globalKexecLock m' = (\<not> comes_back out)"
    if u: "api_unseals d s r = Some pkg" and k: "kexec d s env r m = (out, m')" for pkg out m'
  proof -
    obtain o1 m1 where c: "kexec_commit s env pkg (m\<lparr>globalKexecLock := True\<rparr>) = (o1, m1)" by fastforce
    then have "defer_unlock (o1, m1) = (out, m')"
      using u k free by (simp add: kexec_def try_lock_def api_unseals_def kexec_locked_accepted split: if_splits)
    then show ?thesis using upgrade_of_unlock [OF upgrade_of_commit [OF c]] free by blast
  qed
qed

interpretation rescue: kexec_service "emergency_kexec d key" "unsealed d 1 key" for d :: "('s, 'c) kexec_deps" and key
proof
  fix m env r
  show "globalKexecLock m \<Longrightarrow> \<exists>code body. emergency_kexec d key env r m = (Respond code body, m)"
    by (simp add: emergency_kexec_def try_lock_def)
  assume free: "\<not> globalKexecLock m"
  show "\<exists>out. comes_back out \<and> emergency_kexec d key env r m = (out, m)" if "unsealed d 1 key r = None"
    using that free emergency_locked_refused [of d key r env "m\<lparr>globalKexecLock := True\<rparr>"]
    by (auto simp: emergency_kexec_def try_lock_def defer_unlock_back)
  show "upgrade_of pkg m out (m'\<lparr>globalKexecLock := False\<rparr>) \<and> globalKexecLock m' = (\<not> comes_back out)"
    if u: "unsealed d 1 key r = Some pkg" and k: "emergency_kexec d key env r m = (out, m')" for pkg out m'
  proof -
    obtain o1 m1 where c: "emergency_commit env pkg (m\<lparr>globalKexecLock := True\<rparr>) = (o1, m1)" by fastforce
    then have "defer_unlock (o1, m1) = (out, m')"
      using u k free by (simp add: emergency_kexec_def try_lock_def emergency_locked_accepted)
    then show ?thesis using upgrade_of_unlock [OF upgrade_of_emergency [OF c]] free by blast
  qed
qed

section \<open>When the API handler reaches the new kernel\<close>

definition commit_ready :: "kexec_env \<Rightarrow> machine \<Rightarrow> unsealed_package \<Rightarrow> bool" where
  "commit_ready env m pkg \<longleftrightarrow>
     (KexecSshKill m \<longrightarrow> \<not> closed (sshKill m) \<and> sshKillCompletion env)
     \<and> pkill_loop (pkill_kills env) 0 \<noteq> None
     \<and> open_mem_ok (mem env) \<and> mmap_ok (mem env)
     \<and> 32 + length (Config pkg) + 1 \<le> OCRAM_END - OCRAM_START
     \<and> Kernel pkg \<noteq> []
     \<and> (\<forall>seg. kexec_segment_of (Kernel pkg) = Inr seg \<longrightarrow> kexec_load_errno env seg = 0)
     \<and> reboot_errno env = 0"

lemma kexec_commit_Rebooted:
  "fst (kexec_commit s env pkg m) = Rebooted \<longleftrightarrow> commit_ready env m pkg"
  by (cases "pkill_loop (pkill_kills env) 0")
     (auto simp: kexec_commit_def commit_ready_def kill_ssh_def close_chan_def load_image_def reboot_def
        writeConfigToOcram_def Let_def kexec_segment_of_def)

lemma kexec_commit_Blocked:
  "fst (kexec_commit s env pkg m) = Blocked \<longleftrightarrow>
     \<not> (KexecSshKill m \<and> closed (sshKill m)) \<and>
     (KexecSshKill m \<and> \<not> sshKillCompletion env \<or> pkill_loop (pkill_kills env) 0 = None)"
  by (cases "pkill_loop (pkill_kills env) 0")
     (auto simp: kexec_commit_def kill_ssh_def close_chan_def load_image_def reboot_def
        writeConfigToOcram_def Let_def kexec_segment_of_def)

lemma fst_kexec:
  assumes "KexecEnabled s" "\<not> globalKexecLock m" "unsealed d (Version s) (KexecEncryptionKey s) r = Some pkg"
  shows "fst (kexec d s env r m) = fst (kexec_commit s env pkg (m\<lparr>globalKexecLock := True\<rparr>))"
proof -
  obtain o1 m1 where "kexec_commit s env pkg (m\<lparr>globalKexecLock := True\<rparr>) = (o1, m1)" by fastforce
  with assms show ?thesis
    by (cases o1) (simp_all add: kexec_def try_lock_def kexec_locked_accepted)
qed

lemma kexec_refused:
  "\<not> KexecEnabled s \<or> globalKexecLock m \<or> unsealed d (Version s) (KexecEncryptionKey s) r = None \<Longrightarrow>
     comes_back (fst (kexec d s env r m)) \<and> snd (kexec d s env r m) = m"
  using api.busy [of m d s env r] api.refused [of m d s r env]
  by (cases "globalKexecLock m"; cases "KexecEnabled s") (auto simp: api_unseals_def)

lemma kexec_Rebooted_iff:
  "fst (kexec d s env r m) = Rebooted \<longleftrightarrow>
     KexecEnabled s \<and> \<not> globalKexecLock m \<and>
     (\<exists>pkg. unsealed d (Version s) (KexecEncryptionKey s) r = Some pkg \<and> commit_ready env m pkg)"
proof (cases "unsealed d (Version s) (KexecEncryptionKey s) r")
  case None
  with kexec_refused [of s m d r env] show ?thesis by auto
next
  case (Some pkg)
  have "commit_ready env (m\<lparr>globalKexecLock := True\<rparr>) pkg = commit_ready env m pkg"
    by (simp add: commit_ready_def)
  with Some kexec_refused [of s m d r env] fst_kexec [of s m d r pkg env] show ?thesis
    by (cases "KexecEnabled s \<and> \<not> globalKexecLock m") (auto simp: kexec_commit_Rebooted)
qed

definition upgrade_script :: "api_server \<Rightarrow> kexec_env \<Rightarrow> machine \<Rightarrow> unsealed_package \<Rightarrow> nat \<Rightarrow> effect list" where
  "upgrade_script s env m pkg n =
     (if KexecSshKill m then [CloseSshKill] else []) @ replicate n Pkill
     @ Unmount ''/vroot/tmp'' # map Unmount (Disks s)
     @ [WriteOcram (Config pkg),
        KexecLoad 0x80000000 \<lparr>seg_buf = Kernel pkg, seg_bufsz = of_nat (length (Kernel pkg)),
          seg_mem = 0x80000000, seg_memsz = 0x8000000\<rparr>, LogSync]
     @ (if sync_returns env then [Reply200] else []) @ [RebootKexec]"

lemma kexec_commit_script:
  assumes "commit_ready env m pkg" "pkill_loop (pkill_kills env) 0 = Some n" "ocram_ok (ocram m)"
    and "kexec_commit s env pkg m = (out, m')"
  shows "out = Rebooted \<and> effects m' = effects m @ upgrade_script s env m pkg n
    \<and> kexec_image m' = Some \<lparr>seg_buf = Kernel pkg, seg_bufsz = of_nat (length (Kernel pkg)),
          seg_mem = 0x80000000, seg_memsz = 0x8000000\<rparr>
    \<and> ocram m' = ocram_store (Config pkg) (ocram m)"
proof -
  have w: "writeConfigToOcram (mem env) (Config pkg) (ocram m) = (Inr (), ocram_store (Config pkg) (ocram m))"
    using assms(1,3) by (auto simp: commit_ready_def ocram_store_def writeConfigToOcram_def Let_def)
  from assms(1,2,4) show ?thesis
    by (cases "KexecSshKill m")
       (auto simp: kexec_commit_def commit_ready_def kill_ssh_def close_chan_def load_image_def reboot_def w
         kexec_segment_of_def upgrade_script_def)
qed

lemma kexec_script:
  assumes "KexecEnabled s" "\<not> globalKexecLock m" "ocram_ok (ocram m)"
    and "unsealed d (Version s) (KexecEncryptionKey s) r = Some pkg"
    and "commit_ready env m pkg" "pkill_loop (pkill_kills env) 0 = Some n"
  shows "\<exists>m'. kexec d s env r m = (Rebooted, m') \<and> effects m' = effects m @ upgrade_script s env m pkg n
    \<and> kexec_image m' = Some \<lparr>seg_buf = Kernel pkg, seg_bufsz = of_nat (length (Kernel pkg)),
          seg_mem = 0x80000000, seg_memsz = 0x8000000\<rparr>
    \<and> ocram m' = ocram_store (Config pkg) (ocram m)"
proof -
  let ?m = "m\<lparr>globalKexecLock := True\<rparr>"
  obtain out m' where c: "kexec_commit s env pkg ?m = (out, m')" by fastforce
  moreover have "commit_ready env ?m pkg" using assms(5) by (simp add: commit_ready_def)
  ultimately show ?thesis
    using assms kexec_commit_script [of env ?m pkg n s out m']
    by (simp add: kexec_def try_lock_def kexec_locked_accepted upgrade_script_def)
qed

section \<open>Properties\<close>

lemma api_unseals_no_nul: "api_unseals d s r = Some pkg \<Longrightarrow> 0 \<notin> set (Config pkg)"
  by (auto simp: api_unseals_def Unseal_Inr_iff split: if_splits dest!: unsealed_SomeD dest: unmarshal_version_no_nul)

lemma rescue_unseals_no_nul: "unsealed d 1 key r = Some pkg \<Longrightarrow> 0 \<notin> set (Config pkg)"
  by (auto simp: Unseal_Inr_iff dest!: unsealed_SomeD dest: unmarshal_version_no_nul)

text \<open>
  C3: Only verified kernels are ever loaded: whatever sequence of requests the API serves, starting
  with nothing loaded, every \<open>kexec_load\<close> it makes is of the kernel of a package that \<open>Unseal\<close>
  accepted from the body of one of the requests, with a version no older than the running one, and
  comes with a write of the package's configuration; and whenever an image is in place, the OCRAM
  window really holds that same package's configuration: the next boot would load exactly it.
\<close>

theorem kexec_loads_only_unsealed:
  assumes "effects m = []" "kexec_image m = None" "length (ocram m) = OCRAM_END - OCRAM_START"
    and "serve (kexec d s) rs m = (outs, m')"
    and "KexecLoad e seg \<in> set (effects m') \<or> kexec_image m' = Some seg"
  shows "\<exists>env r pkg v. (env, r) \<in> set rs
    \<and> Unseal d (Version s) (KexecEncryptionKey s) (take (nat (ContentLength r)) (Body r))
        (X_External_Signature r) = Inr pkg
    \<and> unmarshal_version (Config pkg) = Some v \<and> Version s \<le> v
    \<and> seg_buf seg = Kernel pkg \<and> WriteOcram (Config pkg) \<in> set (effects m')
    \<and> (kexec_image m' = Some seg \<longrightarrow> fst (loadConfigFromOcram mem_available (ocram m')) = Inr (Some (Config pkg)))"
proof -
  let ?P = "\<lambda>pkg. \<exists>env r. (env, r) \<in> set rs \<and> api_unseals d s r = Some pkg"
  have "from_accepted ?P (snd (serve (kexec d s) rs m))"
    by (rule api.serve_from_accepted) (use assms(1,2) in \<open>auto simp: from_accepted_def\<close>)
  moreover have "image_backed ?P (snd (serve (kexec d s) rs m))"
    by (rule api.serve_image_backed)
       (use assms(2,3) in \<open>auto simp: image_backed_def ocram_ok_def dest: api_unseals_no_nul\<close>)
  ultimately obtain pkg env r where "(env, r) \<in> set rs" "api_unseals d s r = Some pkg"
    "seg_buf seg = Kernel pkg" "WriteOcram (Config pkg) \<in> set (effects m')"
    "kexec_image m' = Some seg \<longrightarrow> boots_with pkg (ocram m')"
    using loaded_origin [of ?P m' True e seg] assms(4,5) by auto
  then show ?thesis
    using unsealed_SomeD [of d "Version s" "KexecEncryptionKey s" r pkg]
    by (fastforce simp: api_unseals_def Unseal_Inr_iff boots_with_def split: if_splits)
qed

text \<open>
  C13: The same of the rescue process, whose packages are checked in the same way except that any
  version from 1 on is accepted.
\<close>

theorem emergency_loads_only_unsealed:
  assumes "effects m = []" "kexec_image m = None" "serve (emergency_kexec d key) rs m = (outs, m')"
    and "KexecLoad e seg \<in> set (effects m') \<or> kexec_image m' = Some seg"
  shows "\<exists>env r pkg v. (env, r) \<in> set rs
    \<and> Unseal d 1 key (take (nat (ContentLength r)) (Body r)) (X_External_Signature r) = Inr pkg
    \<and> unmarshal_version (Config pkg) = Some v \<and> 1 \<le> v
    \<and> seg_buf seg = Kernel pkg \<and> WriteOcram (Config pkg) \<in> set (effects m')
    \<and> (length (ocram m) = OCRAM_END - OCRAM_START \<and> kexec_image m' = Some seg \<longrightarrow>
         fst (loadConfigFromOcram mem_available (ocram m')) = Inr (Some (Config pkg)))"
proof -
  let ?P = "\<lambda>pkg. \<exists>env r. (env, r) \<in> set rs \<and> unsealed d 1 key r = Some pkg"
  have "from_accepted ?P (snd (serve (emergency_kexec d key) rs m))"
    by (rule rescue.serve_from_accepted) (use assms(1,2) in \<open>auto simp: from_accepted_def\<close>)
  moreover have "image_backed ?P (snd (serve (emergency_kexec d key) rs m))" if "ocram_ok (ocram m)"
    by (rule rescue.serve_image_backed)
       (use assms(2) that in \<open>auto simp: image_backed_def dest: rescue_unseals_no_nul\<close>)
  ultimately obtain pkg env r where "(env, r) \<in> set rs" "unsealed d 1 key r = Some pkg"
    "seg_buf seg = Kernel pkg" "WriteOcram (Config pkg) \<in> set (effects m')"
    "ocram_ok (ocram m) \<and> kexec_image m' = Some seg \<longrightarrow> boots_with pkg (ocram m')"
    using loaded_origin [of ?P m' "ocram_ok (ocram m)" e seg] assms(3,4) by auto
  then show ?thesis
    using unsealed_SomeD [of d 1 key r pkg] by (fastforce simp: Unseal_Inr_iff boots_with_def ocram_ok_def)
qed

text \<open>
  C12: Requests that carry no acceptable package change nothing: after any number of them the
  machine is exactly as before, no process was killed, no disk unmounted, the OCRAM window is
  untouched, and every request was answered or its panic contained.
\<close>

theorem kexec_refusals_harmless:
  assumes "\<not> globalKexecLock m"
    and "\<forall>(env, r) \<in> set rs. \<forall>pkg.
      Unseal d (Version s) (KexecEncryptionKey s) (take (nat (ContentLength r)) (Body r)) (X_External_Signature r)
        \<noteq> Inr pkg"
  shows "snd (serve (kexec d s) rs m) = m \<and> list_all comes_back (fst (serve (kexec d s) rs m))"
proof -
  have "api_unseals d s r = None" if "(env, r) \<in> set rs" for env r
    using that assms(2) unsealed_SomeD [of d "Version s" "KexecEncryptionKey s" r]
    by (cases "unsealed d (Version s) (KexecEncryptionKey s) r") (auto simp: api_unseals_def)
  then have "\<forall>(env, r) \<in> set rs. api_unseals d s r = None" by auto
  then show ?thesis by (rule api.serve_refused [OF assms(1)])
qed

text \<open>
  C11: An accepted package is carried all the way: with kexec enabled and idle, the SSH server and
  user processes stoppable, OCRAM available, a configuration that fits, a kernel that is not empty
  and the system calls succeeding, the handler ends in the new kernel, after exactly the source's
  sequence of effects; the image is the package's kernel at its load address, the OCRAM window holds
  the package's configuration, and a log sink that never flushes does not matter.
\<close>

theorem kexec_completes:
  assumes "KexecEnabled s" "\<not> globalKexecLock m" "ocram_ok (ocram m)"
    and "unsealed d (Version s) (KexecEncryptionKey s) r = Some pkg"
    and "commit_ready env m pkg" "pkill_loop (pkill_kills env) 0 = Some n"
  shows "\<exists>m'. kexec d s env r m = (Rebooted, m') \<and> effects m' = effects m @ upgrade_script s env m pkg n
    \<and> kexec_image m' = Some \<lparr>seg_buf = Kernel pkg, seg_bufsz = of_nat (length (Kernel pkg)),
          seg_mem = 0x80000000, seg_memsz = 0x8000000\<rparr>
    \<and> ocram m' = sha256 (Config pkg) @ Config pkg @ 0 # drop (33 + length (Config pkg)) (ocram m)"
  using kexec_script [OF assms] written_window [OF assms(3), of "Config pkg"] assms(5)
  by (auto simp: ocram_store_def commit_ready_def)

text \<open>
  The handler reaches the new kernel under no other circumstances.
\<close>

lemma kexec_reboots_iff:
  "fst (kexec d s env r m) = Rebooted \<longleftrightarrow>
     KexecEnabled s \<and> \<not> globalKexecLock m \<and>
     (\<exists>pkg. unsealed d (Version s) (KexecEncryptionKey s) r = Some pkg \<and> commit_ready env m pkg)"
  by (rule kexec_Rebooted_iff)

text \<open>
  C18: The loop that kills the user's processes returns exactly when two consecutive runs of
  \<^verbatim>\<open>pkill\<close> find nothing, and it stops at the first such pair.
\<close>

theorem pkill_loop_first_quiet_pair:
  "pkill_loop kills 0 = Some n \<longleftrightarrow>
     (\<exists>j. n = j + 2 \<and> \<not> kills j \<and> \<not> kills (j + 1) \<and> (\<forall>k < j. kills k \<or> kills (k + 1)))"
proof
  assume "pkill_loop kills 0 = Some n"
  from pkill_loop_sound [OF this]
  show "\<exists>j. n = j + 2 \<and> \<not> kills j \<and> \<not> kills (j + 1) \<and> (\<forall>k < j. kills k \<or> kills (k + 1))" by auto
next
  assume "\<exists>j. n = j + 2 \<and> \<not> kills j \<and> \<not> kills (j + 1) \<and> (\<forall>k < j. kills k \<or> kills (k + 1))"
  then obtain j where j: "n = Suc (Suc j)" "\<not> kills j" "\<not> kills (Suc j)" "\<forall>k < j. kills k \<or> kills (Suc k)" by auto
  then obtain n' where n': "pkill_loop kills 0 = Some n'" using pkill_loop_stops [of kills 0 j] by auto
  from pkill_loop_sound [OF this] obtain i where "n' = Suc (Suc i)" "\<not> kills i" "\<not> kills (Suc i)"
    "\<forall>k < i. kills k \<or> kills (Suc k)" by auto
  with j have "i = j" by (metis linorder_neqE_nat)
  with j n' \<open>n' = Suc (Suc i)\<close> show "pkill_loop kills 0 = Some n" by simp
qed

text \<open>
  C17: When the SSH server never reports that it stopped, or \<^verbatim>\<open>pkill\<close> keeps finding processes, the
  handler of an accepted package hangs with the lock held, and from then on every request, whatever
  it carries, is answered without any effect.
\<close>

theorem kexec_hang_locks_out:
  assumes "KexecEnabled s" "\<not> globalKexecLock m" "KexecSshKill m \<longrightarrow> \<not> closed (sshKill m)"
    and "unsealed d (Version s) (KexecEncryptionKey s) r = Some pkg"
    and "KexecSshKill m \<and> \<not> sshKillCompletion env \<or> (\<forall>j. pkill_kills env j \<or> pkill_kills env (Suc j))"
  shows "\<exists>m'. kexec d s env r m = (Blocked, m') \<and> ocram m' = ocram m \<and> kexec_image m' = kexec_image m
    \<and> (\<forall>rs. snd (serve (kexec d s) rs m') = m'
         \<and> (\<forall>out \<in> set (fst (serve (kexec d s) rs m')). \<exists>code body. out = Respond code body))"
proof -
  let ?m = "m\<lparr>globalKexecLock := True\<rparr>"
  obtain out m' where c: "kexec_commit s env pkg ?m = (out, m')" by fastforce
  then have "out = Blocked" using assms(3,5) kexec_commit_Blocked [of s env pkg ?m] by (auto simp: pkill_loop_never)
  moreover from this c have "globalKexecLock m'" "ocram m' = ocram m" "kexec_image m' = kexec_image m"
    by (auto simp: kexec_commit_def kill_ssh_def load_image_def reboot_def Let_def
        split: if_splits option.splits sum.splits prod.splits)
  moreover have "kexec d s env r m = defer_unlock (out, m')"
    using assms(1,2,4) c by (simp add: kexec_def try_lock_def kexec_locked_accepted)
  ultimately show ?thesis using api.serve_busy [of m' d s] by auto
qed

section \<open>Witnesses\<close>

definition demo_server :: api_server where
  "demo_server = \<lparr>Version = 4, KexecEnabled = True, KexecEncryptionKey = demo_key, Disks = [''/data'']\<rparr>"

definition demo_env :: kexec_env where
  "demo_env = \<lparr>sshKillCompletion = True, pkill_kills = (\<lambda>i. i = 0), mem = mem_available,
     kexec_load_errno = (\<lambda>_. 0), sync_returns = False, reboot_errno = 0\<rparr>"

definition demo_request :: request where
  "demo_request = \<lparr>ContentLength = 168, Body = demo_blob, X_External_Signature = []\<rparr>"

definition demo_machine :: machine where
  "demo_machine = \<lparr>globalKexecLock = False, KexecSshKill = True, sshKill = make_chan 0,
     ocram = replicate (OCRAM_END - OCRAM_START) 0, kexec_image = None, effects = []\<rparr>"

abbreviation demo_segment :: kexec_segment where
  "demo_segment \<equiv> \<lparr>seg_buf = demo_kernel, seg_bufsz = 3, seg_mem = 0x80000000, seg_memsz = 0x8000000\<rparr>"

lemma length_demo_blob: "length demo_blob = 168"
  by (simp add: demo_blob_def demo_aead_def magic_header_def put_field_def demo_data_def demo_kernel_def demo_config_def)

lemma demo_unsealed: "cur \<le> 5 \<Longrightarrow>
  unsealed demo_deps cur demo_key demo_request = Some \<lparr>Kernel = demo_kernel, Config = demo_config\<rparr>"
  using demo_unseal [of cur] length_demo_blob by (simp add: unsealed_def read_full_def demo_request_def)

lemma demo_pkill: "pkill_loop (pkill_kills demo_env) 0 = Some 3"
  by (subst pkill_loop.simps, simp add: demo_env_def) (subst pkill_loop.simps, simp)

lemma demo_ready: "commit_ready demo_env demo_machine \<lparr>Kernel = demo_kernel, Config = demo_config\<rparr>"
  using demo_pkill
  by (simp add: commit_ready_def) (simp add: demo_env_def demo_machine_def make_chan_def demo_kernel_def
      demo_config_def OCRAM_START_def OCRAM_END_def)

lemma demo_machine_simps [simp]:
  "\<not> globalKexecLock demo_machine" "effects demo_machine = []" "kexec_image demo_machine = None"
  "ocram_ok (ocram demo_machine)" "KexecSshKill demo_machine" "\<not> closed (sshKill demo_machine)"
  by (simp_all add: demo_machine_def make_chan_def ocram_ok_def)

lemma demo_server_simps [simp]:
  "KexecEnabled demo_server" "Version demo_server = 4" "KexecEncryptionKey demo_server = demo_key"
  by (simp_all add: demo_server_def)

theorem pkill_loop_witness: "pkill_loop (\<lambda>i. i = 0) 0 = Some 3"
  using pkill_loop_first_quiet_pair [of "\<lambda>i. i = 0" 3] by (auto intro: exI [of _ 1])

theorem kexec_completes_witness:
  "\<exists>m'. kexec demo_deps demo_server demo_env demo_request demo_machine = (Rebooted, m')
    \<and> effects m' = [CloseSshKill, Pkill, Pkill, Pkill, Unmount ''/vroot/tmp'', Unmount ''/data'',
         WriteOcram demo_config, KexecLoad 0x80000000 demo_segment, LogSync, RebootKexec]
    \<and> kexec_image m' = Some demo_segment"
  using kexec_completes [of demo_server demo_machine demo_deps demo_request
      "\<lparr>Kernel = demo_kernel, Config = demo_config\<rparr>" demo_env 3] demo_unsealed [of 4] demo_ready demo_pkill
  by (auto simp: upgrade_script_def demo_server_def demo_env_def demo_kernel_def numeral_3_eq_3)

lemma demo_serve:
  "\<exists>m'. serve (kexec demo_deps demo_server) [(demo_env, demo_request)] demo_machine = ([Rebooted], m')
    \<and> kexec_image m' = Some demo_segment"
  using kexec_script [of demo_server demo_machine demo_deps demo_request
      "\<lparr>Kernel = demo_kernel, Config = demo_config\<rparr>" demo_env 3] demo_unsealed [of 4] demo_ready demo_pkill
  by (auto simp: demo_kernel_def)

theorem kexec_loads_only_unsealed_witness:
  "\<exists>m' (pkg :: unsealed_package). serve (kexec demo_deps demo_server) [(demo_env, demo_request)] demo_machine = ([Rebooted], m')
    \<and> seg_buf demo_segment = Kernel pkg \<and> WriteOcram (Config pkg) \<in> set (effects m')
    \<and> fst (loadConfigFromOcram mem_available (ocram m')) = Inr (Some (Config pkg))"
proof -
  obtain m' where m': "serve (kexec demo_deps demo_server) [(demo_env, demo_request)] demo_machine = ([Rebooted], m')"
    "kexec_image m' = Some demo_segment" using demo_serve by blast
  have "length (ocram demo_machine) = OCRAM_END - OCRAM_START" using demo_machine_simps(4) by (simp add: ocram_ok_def)
  from kexec_loads_only_unsealed [OF demo_machine_simps(2,3) this m'(1) disjI2 [OF m'(2)]] m' show ?thesis by blast
qed

theorem kexec_refusals_harmless_witness:
  "snd (serve (kexec demo_deps (demo_server\<lparr>Version := 6\<rparr>)) [(demo_env, demo_request)] demo_machine) = demo_machine"
proof -
  have "Unseal demo_deps 6 demo_key demo_blob [] \<noteq> Inr pkg" for pkg
    using demo_unseal [of 4] demo_version by (auto simp: Unseal_Inr_iff)
  then show ?thesis
    using length_demo_blob
      kexec_refusals_harmless [of demo_machine "[(demo_env, demo_request)]" demo_deps "demo_server\<lparr>Version := 6\<rparr>"]
    by (simp add: demo_request_def)
qed

theorem kexec_hang_locks_out_witness:
  "\<exists>m'. kexec demo_deps demo_server (demo_env\<lparr>sshKillCompletion := False\<rparr>) demo_request demo_machine = (Blocked, m')
    \<and> snd (serve (kexec demo_deps demo_server) [(demo_env, demo_request)] m') = m'"
proof -
  have "unsealed demo_deps (Version demo_server) (KexecEncryptionKey demo_server) demo_request =
      Some \<lparr>Kernel = demo_kernel, Config = demo_config\<rparr>" using demo_unsealed [of 4] by simp
  from kexec_hang_locks_out [OF _ _ _ this, of demo_machine "demo_env\<lparr>sshKillCompletion := False\<rparr>"]
  show ?thesis by (auto simp del: serve.simps)
qed

lemma demo_rescue:
  "\<exists>m'. serve (emergency_kexec demo_deps demo_key) [(demo_env\<lparr>sync_returns := True\<rparr>, demo_request)] demo_machine =
      ([Rebooted], m') \<and> kexec_image m' = Some demo_segment"
proof -
  have "storable demo_config" by (simp add: storable_def demo_config_def OCRAM_START_def OCRAM_END_def)
  then have w: "writeConfigToOcram mem_available demo_config (ocram demo_machine) = (Inr (), ocram_store demo_config (ocram demo_machine))"
    by (auto simp: ocram_store_def storable_def written_window)
  have "pkill_loop (\<lambda>i. i = 0) 0 = Some 3" using demo_pkill by (simp add: demo_env_def)
  then show ?thesis
    using demo_unsealed [of 1] w
    by (simp add: emergency_kexec_def try_lock_def emergency_locked_accepted emergency_commit_def
        load_image_def reboot_def demo_env_def kexec_segment_of_def Let_def demo_kernel_def add_effects_def)
qed

theorem emergency_loads_only_unsealed_witness:
  "\<exists>m' (pkg :: unsealed_package). serve (emergency_kexec demo_deps demo_key) [(demo_env\<lparr>sync_returns := True\<rparr>, demo_request)] demo_machine =
      ([Rebooted], m')
    \<and> seg_buf demo_segment = Kernel pkg \<and> WriteOcram (Config pkg) \<in> set (effects m')"
proof -
  obtain m' where m': "serve (emergency_kexec demo_deps demo_key) [(demo_env\<lparr>sync_returns := True\<rparr>, demo_request)] demo_machine =
      ([Rebooted], m')" "kexec_image m' = Some demo_segment" using demo_rescue by blast
  obtain pkg :: unsealed_package where "seg_buf demo_segment = Kernel pkg" "WriteOcram (Config pkg) \<in> set (effects m')"
    using emergency_loads_only_unsealed [OF demo_machine_simps(2,3) m'(1) disjI2 [OF m'(2)]] by blast
  with m'(1) show ?thesis by blast
qed

end
