(* ===== verification/Tesla_Api.thy ===== *)
theory Tesla_Api
  imports Go_Sync
begin

text \<open>
  \<^verbatim>\<open>homegw-libs/concurrency/value_task.go\<close> and \<^verbatim>\<open>homegw-libs/tesla-api/\<close>: a value computed once in the
  background, and the vehicle behind each configured VIN, looked up that way with retries. The Tesla
  client and the backoff package are outside the repository: \<open>attempts i\<close> is what the \<open>i\<close>-th call of
  \<open>client.Vehicles()\<close> returns, and with \<open>MaxElapsedTime = 0\<close> and a context that is never cancelled
  \<open>RetryNotify\<close> repeats the operation until it succeeds.
\<close>

section \<open>ValueTask\<close>

record 'a value_task =
  ch :: "unit chan"
  val :: "'a option"        \<comment> \<open>the field \<open>value\<close>, a pointer: \<open>None\<close> is \<open>nil\<close>\<close>

definition NewValueTask :: "'a value_task" where
  "NewValueTask = \<lparr>ch = make_chan 1, val = None\<rparr>"

definition WaitForValue :: "'a value_task \<Rightarrow> 'a option option" where
  "WaitForValue t = (case try_recv (ch t) of Received _ _ \<Rightarrow> Some (val t) | RecvBlocks \<Rightarrow> None)"

definition Ready :: "'a value_task \<Rightarrow> bool" where
  "Ready t \<longleftrightarrow> (case try_recv (ch t) of Received _ _ \<Rightarrow> True | RecvBlocks \<Rightarrow> False)"

text \<open>The goroutine: the assignment, then the deferred \<open>close\<close>. \<open>True\<close> marks that it has assigned.\<close>

inductive task_step :: "'a option \<Rightarrow> bool \<times> 'a value_task \<Rightarrow> bool \<times> 'a value_task \<Rightarrow> bool" for result where
  assigns: "task_step result (False, t) (True, t\<lparr>val := result\<rparr>)"
| finishes: "close_chan (ch t) = Inr c \<Longrightarrow> task_step result (True, t) (True, t\<lparr>ch := c\<rparr>)"

inductive_cases task_stepE: "task_step result st st'"

section \<open>VehicleApi\<close>

record vehicle =
  Vin :: string
  vehicle_id :: nat

record TeslaApiConfig =
  OauthToken :: string
  cfg_Vin :: string

definition MAX_CONCURRENCY :: nat where "MAX_CONCURRENCY = 3"

record VehicleApi =
  api_vehicle :: "vehicle value_task"
  api_Vin :: string
  Sem :: "unit chan"

text \<open>The operation that is retried; an error of the client is \<open>None\<close>.\<close>

definition select_vehicle :: "string \<Rightarrow> vehicle list option \<Rightarrow> vehicle option" where
  "select_vehicle vin vehicles =
     (case vehicles of None \<Rightarrow> None | Some vs \<Rightarrow> find (\<lambda>v. Vin v = vin) vs)"

partial_function (option) fetchVehicle :: "string \<Rightarrow> (nat \<Rightarrow> vehicle list option) \<Rightarrow> nat \<Rightarrow> vehicle option" where
  "fetchVehicle vin attempts i =
     (case select_vehicle vin (attempts i) of Some v \<Rightarrow> Some v | None \<Rightarrow> fetchVehicle vin attempts (Suc i))"

definition NewVehicleApi :: "(string \<Rightarrow> bool) \<Rightarrow> TeslaApiConfig \<Rightarrow> VehicleApi option" where
  "NewVehicleApi new_client_ok c =
     (if \<not> new_client_ok (OauthToken c) then None
      else Some \<lparr>api_vehicle = NewValueTask, api_Vin = cfg_Vin c, Sem = make_chan MAX_CONCURRENCY\<rparr>)"

text \<open>
  \<open>main\<close> starts one entry per configured vehicle and keeps also the one that could not be created, as
  \<open>append\<close> does. The lookup gets the address of the loop variable, which the iterations share: the
  state of the loop is the number of iterations begun, the variable, and for each task the VIN it
  read from the variable once its goroutine ran.
\<close>

definition start_tesla :: "(string \<Rightarrow> bool) \<Rightarrow> TeslaApiConfig list \<Rightarrow> VehicleApi option list" where
  "start_tesla new_client_ok configs = map (NewVehicleApi new_client_ok) configs"

inductive lookup_step :: "TeslaApiConfig list \<Rightarrow> nat \<times> string \<times> string option list \<Rightarrow> nat \<times> string \<times> string option list \<Rightarrow> bool"
  for configs where
  iterates: "i < length configs \<Longrightarrow> lookup_step configs (i, v, ts) (Suc i, cfg_Vin (configs ! i), ts @ [None])"
| looks_up: "k < length ts \<Longrightarrow> ts ! k = None \<Longrightarrow> lookup_step configs (i, v, ts) (i, v, ts[k := Some v])"

inductive_cases lookup_stepE: "lookup_step configs (i, v, ts) st"

abbreviation lookup_steps :: "TeslaApiConfig list \<Rightarrow> nat \<times> string \<times> string option list \<Rightarrow> nat \<times> string \<times> string option list \<Rightarrow> bool" where
  "lookup_steps configs \<equiv> (lookup_step configs)\<^sup>*\<^sup>*"

section \<open>Lemmas\<close>

definition task_inv :: "'a option \<Rightarrow> bool \<times> 'a value_task \<Rightarrow> bool" where
  "task_inv result st \<longleftrightarrow> buf (ch (snd st)) = [] \<and> (closed (ch (snd st)) \<longrightarrow> fst st) \<and> (fst st \<longrightarrow> val (snd st) = result)"

lemma task_inv_step: "task_step result st st' \<Longrightarrow> task_inv result st \<Longrightarrow> task_inv result st'"
  by (erule task_stepE) (auto simp: task_inv_def close_chan_def split: if_splits)

interpretation computing: step_system "task_step result" "(False, NewValueTask)" "task_inv result" for result
  by unfold_locales (simp add: task_inv_def NewValueTask_def make_chan_def, rule task_inv_step)

lemma select_vehicle_Some:
  "select_vehicle vin vs = Some v \<Longrightarrow> \<exists>l. vs = Some l \<and> v \<in> set l \<and> Vin v = vin"
  by (auto simp: select_vehicle_def find_Some_iff split: option.splits)

section \<open>Properties\<close>

text \<open>
  C19: Whoever is let through by \<open>Ready\<close> or returns from \<open>WaitForValue\<close> sees the value the background
  function computed, never the unset field, in every interleaving.
\<close>

theorem value_task_published:
  assumes "(task_step result)\<^sup>*\<^sup>* (False, NewValueTask) (b, t)"
  shows "(Ready t \<longrightarrow> val t = result) \<and> (\<forall>v. WaitForValue t = Some v \<longrightarrow> v = result)"
  using computing.always [OF assms]
  by (auto simp: task_inv_def Ready_def WaitForValue_def try_recv_def split: list.splits if_splits)

text \<open>
  C20: The vehicle lookup returns as soon as one answer of the service lists the VIN, and what it
  returns is the first vehicle with that VIN in the first such answer.
\<close>

theorem fetchVehicle_first:
  assumes "attempts n = Some vs" "v \<in> set vs" "Vin v = vin"
  shows "\<exists>m \<le> n. \<exists>ws w. attempts m = Some ws \<and> find (\<lambda>u. Vin u = vin) ws = Some w
    \<and> fetchVehicle vin attempts 0 = Some w \<and> (\<forall>k < m. select_vehicle vin (attempts k) = None)"
proof -
  let ?hit = "\<lambda>k. select_vehicle vin (attempts k) \<noteq> None"
  have "?hit n" using assms by (auto simp: select_vehicle_def find_None_iff)
  then obtain m where m: "m \<le> n" "?hit m" "\<forall>k < m. \<not> ?hit k"
    using ex_least_nat_le [of ?hit n] by blast
  from m(2) obtain w where w: "select_vehicle vin (attempts m) = Some w" by blast
  have "fetchVehicle vin attempts i = Some w" if "i \<le> m" for i
    using that
  proof (induction "m - i" arbitrary: i)
    case 0
    then show ?case using w by (subst fetchVehicle.simps) simp
  next
    case (Suc d)
    then have "\<not> ?hit i" "fetchVehicle vin attempts (Suc i) = Some w" using m(3) Suc.hyps(1) [of "Suc i"] by auto
    then show ?case by (subst fetchVehicle.simps) simp
  qed
  from this [of 0] m w show ?thesis
    by (intro exI [of _ m]) (auto simp: select_vehicle_def split: option.splits)
qed

fun lookup_ok :: "TeslaApiConfig list \<Rightarrow> nat \<times> string \<times> string option list \<Rightarrow> bool" where
  "lookup_ok configs (i, v, ts) \<longleftrightarrow>
     length ts = i \<and> i \<le> length configs \<and> (0 < i \<longrightarrow> v = cfg_Vin (configs ! (i - 1)))
     \<and> (\<forall>k < i. \<forall>vin. ts ! k = Some vin \<longrightarrow> (\<exists>j. k \<le> j \<and> j < i \<and> vin = cfg_Vin (configs ! j)))"

lemma lookup_ok_step: "lookup_step configs st st' \<Longrightarrow> lookup_ok configs st \<Longrightarrow> lookup_ok configs st'"
proof (induction rule: lookup_step.induct)
  case (iterates i v ts)
  then show ?case by (fastforce simp: nth_append less_Suc_eq)
next
  case (looks_up k ts i v)
  then have v: "v = cfg_Vin (configs ! (i - 1))" and l: "length ts = i" by auto
  have "\<exists>j. k' \<le> j \<and> j < i \<and> vin = cfg_Vin (configs ! j)" if "k' < i" "ts[k := Some v] ! k' = Some vin" for k' vin
  proof (cases "k' = k")
    case True
    then have "vin = v" using that looks_up(1) by simp
    with v that(1) show ?thesis by (intro exI [of _ "i - 1"]) simp
  qed (use looks_up(3) that in auto)
  with looks_up(3) show ?case by auto
qed

interpretation looking_up: step_system "lookup_step configs" "(0, v0, [])" "lookup_ok configs" for configs v0
  by unfold_locales (simp, rule lookup_ok_step)

lemma lookup_iterations: "i \<le> length configs \<Longrightarrow> \<exists>v. lookup_steps configs (0, v0, []) (i, v, replicate i None)
    \<and> (0 < i \<longrightarrow> v = cfg_Vin (configs ! (i - 1)))"
proof (induction i)
  case (Suc i)
  then obtain v where "lookup_steps configs (0, v0, []) (i, v, replicate i None)" by auto
  moreover have "lookup_step configs (i, v, replicate i None) (Suc i, cfg_Vin (configs ! i), replicate i None @ [None])"
    using Suc.prems by (intro lookup_step.iterates) simp
  ultimately have "lookup_steps configs (0, v0, []) (Suc i, cfg_Vin (configs ! i), replicate i None @ [None])"
    by (rule rtranclp.rtrancl_into_rtrancl)
  then show ?case by (auto simp: replicate_append_same)
qed auto

text \<open>
  Which vehicle an API entry can end up with: the lookup started for the \<open>k\<close>-th configured
  vehicle can use exactly the VINs of the \<open>k\<close>-th vehicle and of those configured after it, so only
  the last entry is certain to serve its own vehicle.
\<close>

lemma tesla_lookup_vins:
  assumes "k < length configs"
  shows "(\<exists>i v ts. lookup_steps configs (0, v0, []) (i, v, ts) \<and> k < i \<and> ts ! k = Some vin) \<longleftrightarrow>
    (\<exists>j. k \<le> j \<and> j < length configs \<and> vin = cfg_Vin (configs ! j))"
proof
  assume "\<exists>i v ts. lookup_steps configs (0, v0, []) (i, v, ts) \<and> k < i \<and> ts ! k = Some vin"
  then obtain i v ts where "lookup_steps configs (0, v0, []) (i, v, ts)" "k < i" "ts ! k = Some vin" by blast
  with looking_up.always [of configs v0 "(i, v, ts)"] show "\<exists>j. k \<le> j \<and> j < length configs \<and> vin = cfg_Vin (configs ! j)"
    by (meson lookup_ok.simps order_less_le_trans)
next
  assume "\<exists>j. k \<le> j \<and> j < length configs \<and> vin = cfg_Vin (configs ! j)"
  then obtain j where j: "k \<le> j" "j < length configs" "vin = cfg_Vin (configs ! j)" by blast
  then obtain v where v: "lookup_steps configs (0, v0, []) (Suc j, v, replicate (Suc j) None)" "v = vin"
    using lookup_iterations [of "Suc j" configs v0] by auto
  have "lookup_step configs (Suc j, v, replicate (Suc j) None) (Suc j, v, (replicate (Suc j) None)[k := Some v])"
    using j(1) by (intro lookup_step.looks_up) (simp_all del: replicate_Suc)
  with v(1) have "lookup_steps configs (0, v0, []) (Suc j, v, (replicate (Suc j) None)[k := Some v])"
    by (rule rtranclp.rtrancl_into_rtrancl)
  moreover have "(replicate (Suc j) None)[k := Some v] ! k = Some vin" using j(1) v(2) by (simp del: replicate_Suc)
  ultimately show "\<exists>i v ts. lookup_steps configs (0, v0, []) (i, v, ts) \<and> k < i \<and> ts ! k = Some vin"
    using j(1) by (metis le_imp_less_Suc)
qed

section \<open>Witnesses\<close>

theorem value_task_published_witness:
  "WaitForValue (\<lparr>ch = (make_chan 1)\<lparr>closed := True\<rparr>, val = Some 7\<rparr> :: nat value_task) = Some (Some 7)"
proof -
  let ?t = "\<lparr>ch = (make_chan 1)\<lparr>closed := True\<rparr>, val = Some 7\<rparr> :: nat value_task"
  let ?a = "NewValueTask\<lparr>val := Some 7\<rparr> :: nat value_task"
  have "task_step (Some 7) (False, NewValueTask) (True, ?a)" by (rule task_step.assigns)
  then have "(task_step (Some 7))\<^sup>*\<^sup>* (False, NewValueTask) (True, ?a)" by (rule r_into_rtranclp)
  moreover have "task_step (Some 7) (True, ?a) (True, ?a\<lparr>ch := (make_chan 1)\<lparr>closed := True\<rparr>\<rparr>)"
    by (rule task_step.finishes) (simp add: close_chan_def NewValueTask_def make_chan_def)
  ultimately have "(task_step (Some 7))\<^sup>*\<^sup>* (False, NewValueTask) (True, ?a\<lparr>ch := (make_chan 1)\<lparr>closed := True\<rparr>\<rparr>)"
    by (rule rtranclp.rtrancl_into_rtrancl)
  then have "(task_step (Some 7))\<^sup>*\<^sup>* (False, NewValueTask) (True, ?t)" by (simp add: NewValueTask_def)
  from value_task_published [OF this] show ?thesis
    by (simp add: WaitForValue_def try_recv_def make_chan_def)
qed

theorem fetchVehicle_first_witness:
  "\<exists>w. fetchVehicle ''B'' (\<lambda>i. if i = 0 then None else Some [\<lparr>Vin = ''B'', vehicle_id = i\<rparr>]) 0 = Some w"
  using fetchVehicle_first [of "\<lambda>i. if i = 0 then None else Some [\<lparr>Vin = ''B'', vehicle_id = i\<rparr>]" 3
      "[\<lparr>Vin = ''B'', vehicle_id = 3\<rparr>]" "\<lparr>Vin = ''B'', vehicle_id = 3\<rparr>" "''B''"] by fastforce

lemma tesla_lookup_vins_example:
  "\<exists>i v ts. lookup_steps [\<lparr>OauthToken = [], cfg_Vin = ''A''\<rparr>, \<lparr>OauthToken = [], cfg_Vin = ''B''\<rparr>] (0, [], []) (i, v, ts)
     \<and> 0 < i \<and> ts ! 0 = Some ''B''"
  using tesla_lookup_vins [of 0 "[\<lparr>OauthToken = [], cfg_Vin = ''A''\<rparr>, \<lparr>OauthToken = [], cfg_Vin = ''B''\<rparr>]" "[]" "''B''"]
  by (auto intro: exI [of _ 1])

end
