(* ===== verification/Api_Server.thy ===== *)
theory Api_Server
  imports Kexec_Entry Tesla_Api "HOL-Library.AList"
begin

text \<open>
  \<^verbatim>\<open>homegw-init/http.go\<close> without the kexec handler, and \<^verbatim>\<open>homegw-init/sshrelay.go\<close>: who may call what, the
  limits on concurrency, and the handlers of the vehicle and debug APIs. gin's router and its basic
  authentication are outside the repository: \<open>gin_find\<close> picks a registered route for a request and
  \<open>basic_auth\<close> reads the \<^verbatim>\<open>Authorization\<close> header against a table of accounts; what they are relied on for
  is stated where it is used.
\<close>

section \<open>Configuration and routes\<close>

record ClientKey =
  ck_Id :: string
  Secret :: string
  Scopes :: "string list"

record ApiServerConfig =
  Listen :: string
  Certificates :: "(string \<times> string) list"
  ClientKeys :: "ClientKey list"
  MaxConcurrentQuicConnections :: int
  StatelessResetKey :: string
  ExtResetAllowedPins :: "string list"
  AllowCrash :: bool

definition accounts_for :: "string \<Rightarrow> ClientKey list \<Rightarrow> (string \<times> string) list" where
  "accounts_for scope keys =
     fold (\<lambda>clientKey accounts.
        if scope \<in> set (Scopes clientKey) \<and> Secret clientKey \<noteq> []
        then AList.update (ck_Id clientKey) (Secret clientKey) accounts else accounts) keys []"

datatype handler = VehicleData | KexecTrigger | KillDropbear | PublicIp | ExtReset | DebugPanic | DebugCrash

record route =
  r_method :: string
  r_path :: string
  r_handler :: handler
  r_accounts :: "(string \<times> string) list"

definition group :: "(string \<times> string) list \<Rightarrow> (string \<times> string \<times> handler) list \<Rightarrow> route list" where
  "group accounts entries =
     (if accounts = [] then []
      else map (\<lambda>(m, p, h). \<lparr>r_method = m, r_path = p, r_handler = h, r_accounts = accounts\<rparr>) entries)"

definition routes :: "ApiServerConfig \<Rightarrow> route list" where
  "routes cfg =
     group (accounts_for ''tesla'' (ClientKeys cfg)) [(''GET'', ''/tesla/:vin/vehicle_data'', VehicleData)]
     @ group (accounts_for ''kexec'' (ClientKeys cfg)) [(''POST'', ''/kexec/trigger'', KexecTrigger)]
     @ group (accounts_for ''debug'' (ClientKeys cfg))
         [(''POST'', ''/debug/kill_dropbear'', KillDropbear), (''GET'', ''/debug/public_ip'', PublicIp),
          (''POST'', ''/debug/ext_reset/:pin'', ExtReset), (''POST'', ''/debug/panic'', DebugPanic),
          (''POST'', ''/debug/crash'', DebugCrash)]"

fun scope_of :: "handler \<Rightarrow> string" where
  "scope_of VehicleData = ''tesla''"
| "scope_of KexecTrigger = ''kexec''"
| "scope_of _ = ''debug''"

section \<open>From a request to a handler\<close>

record api_request =
  req_Method :: string
  URL_Path :: string
  Authorization :: string

datatype dispatched = NotFound | Unauthorized | Handled handler "(string \<times> string) list" string

definition dispatch ::
  "(route list \<Rightarrow> string \<Rightarrow> string \<Rightarrow> (route \<times> (string \<times> string) list) option) \<Rightarrow>
   ((string \<times> string) list \<Rightarrow> string \<Rightarrow> string option) \<Rightarrow> ApiServerConfig \<Rightarrow> api_request \<Rightarrow> dispatched" where
  "dispatch gin_find basic_auth cfg req =
     (case gin_find (routes cfg) (req_Method req) (URL_Path req) of
        None \<Rightarrow> NotFound
      | Some (r, params) \<Rightarrow>
          (case basic_auth (r_accounts r) (Authorization req) of
             None \<Rightarrow> Unauthorized
           | Some user \<Rightarrow> Handled (r_handler r) params user))"

text \<open>The header of RFC 7617 for a user and a password.\<close>

definition basic_header :: "string \<Rightarrow> string \<Rightarrow> string" where
  "basic_header user pw = ''Basic '' @ string_of (base64_encode (bytes_of (user @ '':'' @ pw)))"

text \<open>The rate-limiting middleware: a semaphore of ten, except for paths under \<^verbatim>\<open>/kexec/\<close>.\<close>

datatype admission = Exempt | Admitted "unit chan" | TooMany

definition limiter :: "string \<Rightarrow> unit chan \<Rightarrow> admission" where
  "limiter path sem =
     (if prefix ''/kexec/'' path then Exempt
      else case sem_acquire sem of Some sem' \<Rightarrow> Admitted sem' | None \<Rightarrow> TooMany)"

definition limiter_sem :: "unit chan" where "limiter_sem = make_chan 10"

text \<open>
  Requests arrive and finish; the numbers are those that hold a slot and those answered 429. The
  middleware does not abort gin's chain after it has answered 429, so the latter may still be handled,
  without a slot.
\<close>

datatype traffic = Request string | Finish

fun limiter_step :: "unit chan \<times> nat \<times> nat \<Rightarrow> traffic \<Rightarrow> unit chan \<times> nat \<times> nat" where
  "limiter_step (sem, inside, over) (Request path) =
     (case limiter path sem of
        Exempt \<Rightarrow> (sem, inside, over)
      | Admitted sem' \<Rightarrow> (sem', Suc inside, over)
      | TooMany \<Rightarrow> (sem, inside, Suc over))"
| "limiter_step (sem, inside, over) Finish =
     (if inside = 0 then (sem, inside, over) else (sem_release sem, inside - 1, over))"

section \<open>Handlers\<close>

datatype 'd json_value = Str string | Bool bool | Data 'd

datatype 'd reply =
    Json nat "(string \<times> 'd json_value) list"
  | NoReply
  | HandlerPanic go_panic
  | ProcessExit

text \<open>\<open>lo.Find\<close> over the pointers in \<open>TeslaApi\<close>, \<open>None\<close> being \<open>nil\<close>.\<close>

fun find_vehicle :: "string \<Rightarrow> VehicleApi option list \<Rightarrow> go_panic + VehicleApi option" where
  "find_vehicle vin [] = Inr None"
| "find_vehicle vin (None # vs) = Inl NilDereference"
| "find_vehicle vin (Some v # vs) = (if api_Vin v = vin then Inr (Some v) else find_vehicle vin vs)"

text \<open>
  \<open>ready\<close> is how the first \<open>select\<close> ends: with the vehicle task's value, or \<open>None\<close> when the client has
  gone. \<open>fetch\<close> is \<open>vehicle.Data()\<close>. The slot is taken before and given back after it.
\<close>

definition vehicleData ::
  "vehicle option option \<Rightarrow> (vehicle option \<Rightarrow> (unit, 'd) result) \<Rightarrow> VehicleApi option list \<Rightarrow> string \<Rightarrow> 'd reply" where
  "vehicleData ready fetch vs vin =
     (case find_vehicle vin vs of
        Inl p \<Rightarrow> HandlerPanic p
      | Inr None \<Rightarrow> Json 404 [(''error'', Str ''vehicle not found'')]
      | Inr (Some v) \<Rightarrow>
          (case ready of
             None \<Rightarrow> NoReply
           | Some vehicle \<Rightarrow>
               (case sem_acquire (Sem v) of
                  None \<Rightarrow> Json 429 [(''error'', Str ''too many requests'')]
                | Some _ \<Rightarrow>
                    (case fetch vehicle of
                       Inr data \<Rightarrow> Json 200 [(''data'', Data data)]
                     | Inl (Panic p) \<Rightarrow> HandlerPanic p
                     | Inl _ \<Rightarrow> Json 500 [(''error'', Str ''failed to fetch vehicle data'')]))))"

text \<open>\<open>http_get\<close> is the outcome of the request to the IP service: status and body, if it succeeds.\<close>

definition debugGetPublicIp :: "bool \<Rightarrow> (nat \<times> bytes option) option \<Rightarrow> 'd reply" where
  "debugGetPublicIp new_request_ok http_get =
     (if \<not> new_request_ok then Json 500 [(''error'', Str ''failed to create request'')]
      else case http_get of
        None \<Rightarrow> Json 500 [(''error'', Str ''failed to perform request'')]
      | Some (status, body) \<Rightarrow>
          if status \<noteq> 200 then Json 500 [(''error'', Str ''request failed'')]
          else case body of
            None \<Rightarrow> Json 500 [(''error'', Str ''failed to read response body'')]
          | Some ip \<Rightarrow> Json 200 [(''ip'', Str (string_of (take 512 ip)))])"

text \<open>The reply and the URLs posted to the real-time controller's socket.\<close>

definition debugExtReset ::
  "string list \<Rightarrow> (string \<Rightarrow> (nat \<times> bytes option) option) \<Rightarrow> string \<Rightarrow> 'd reply \<times> string list" where
  "debugExtReset allowed post pin =
     (if pin \<notin> set allowed then (Json 403 [(''error'', Str ''pin not allowed'')], [])
      else
        (let url = ''http://unix/ext_reset/'' @ pin in
         (case post url of
            None \<Rightarrow> Json 500 [(''error'', Str ''failed to perform request'')]
          | Some (status, None) \<Rightarrow> Json 500 [(''error'', Str ''failed to read response body'')]
          | Some (status, Some body) \<Rightarrow>
              if status \<noteq> 200 then Json 500 [(''success'', Bool False), (''result'', Str (string_of body))]
              else Json 200 [(''success'', Bool True), (''result'', Str (string_of body))], [url])))"

definition debugCrash :: "ApiServerConfig \<Rightarrow> 'd reply" where
  "debugCrash cfg = (if \<not> AllowCrash cfg then Json 403 [(''error'', Str ''crash not allowed'')] else ProcessExit)"

definition debugPanic :: "'d reply" where
  "debugPanic = HandlerPanic ExplicitPanic"

text \<open>The reply and the command run.\<close>

definition debugKillDropbear :: "'d reply \<times> string list" where
  "debugKillDropbear = (Json 200 [(''status'', Str ''ok'')], [''killall'', ''-9'', ''dropbear''])"

section \<open>Accept loops\<close>

text \<open>
  The QUIC server's loop and the SSH relay's loop have the same shape: take a slot, accept, hand the
  connection or stream to a goroutine that gives the slot back. The relay's loop also ends when its
  connection is gone (\<open>may_leave\<close>); both end when accepting fails, keeping the slot.
\<close>

record accept_loop =
  slot_sem :: "unit chan"
  accepting :: bool
  running :: nat
  left :: bool

definition new_loop :: "nat \<Rightarrow> accept_loop" where
  "new_loop n = \<lparr>slot_sem = make_chan n, accepting = False, running = 0, left = False\<rparr>"

inductive accept_step :: "bool \<Rightarrow> accept_loop \<Rightarrow> accept_loop \<Rightarrow> bool" for may_leave where
  acquires: "\<not> accepting s \<Longrightarrow> \<not> left s \<Longrightarrow> sem_acquire (slot_sem s) = Some c \<Longrightarrow>
    accept_step may_leave s (s\<lparr>slot_sem := c, accepting := True\<rparr>)"
| leaves: "may_leave \<Longrightarrow> \<not> accepting s \<Longrightarrow> \<not> left s \<Longrightarrow> accept_step may_leave s (s\<lparr>left := True\<rparr>)"
| accepts: "accepting s \<Longrightarrow> accept_step may_leave s (s\<lparr>accepting := False, running := Suc (running s)\<rparr>)"
| fails: "accepting s \<Longrightarrow> accept_step may_leave s (s\<lparr>accepting := False, left := True\<rparr>)"
| ends: "0 < running s \<Longrightarrow>
    accept_step may_leave s (s\<lparr>slot_sem := sem_release (slot_sem s), running := running s - 1\<rparr>)"

definition quic_loop_step :: "accept_loop \<Rightarrow> accept_loop \<Rightarrow> bool" where
  "quic_loop_step = accept_step False"

definition relay_loop_step :: "accept_loop \<Rightarrow> accept_loop \<Rightarrow> bool" where
  "relay_loop_step = accept_step True"

text \<open>The QUIC server's limit; \<open>make\<close> panics on a negative size. The relay admits one stream.\<close>

definition quic_limit :: "int \<Rightarrow> go_panic + nat" where
  "quic_limit configured =
     (let maxConcurrency = (if configured = 0 then 100 else configured)
      in if maxConcurrency < 0 then Inl MakeSliceLen else Inr (nat maxConcurrency))"

definition stateless_reset_key :: "string \<Rightarrow> bytes option" where
  "stateless_reset_key str =
     (case base64_decode (bytes_of str) of
        Some key \<Rightarrow> if length key = 32 then Some (take 32 key) else None
      | None \<Rightarrow> None)"

definition relay_limit :: nat where "relay_limit = 1"

datatype connection = RelayToSsh | ServeHttp3

definition route_connection :: "string \<Rightarrow> connection" where
  "route_connection negotiatedProtocol = (if negotiatedProtocol = ''quicssh'' then RelayToSsh else ServeHttp3)"

text \<open>
  \<open>Run\<close> up to the two servers: which account tables gin takes (it panics on others, one with an empty
  user name for example), which key pairs parse, whether the UDP socket and the QUIC listener can be
  opened. A certificate that does not parse ends \<open>Run\<close>; a QUIC server that cannot be started does not
  keep the other one from running; a negative limit panics.
\<close>

record listen_env =
  accounts_ok :: "(string \<times> string) list \<Rightarrow> bool"
  x509_key_pair :: "string \<times> string \<Rightarrow> bool"
  udp_listen_ok :: bool
  quic_listen_ok :: bool

definition startQuicServer :: "listen_env \<Rightarrow> ApiServerConfig \<Rightarrow> go_panic + (nat \<times> bytes option) option" where
  "startQuicServer env cfg =
     (if \<not> udp_listen_ok env then Inr None
      else
        (let resetKey = stateless_reset_key (StatelessResetKey cfg) in
         if \<not> quic_listen_ok env then Inr None
         else bindR (quic_limit (MaxConcurrentQuicConnections cfg)) (\<lambda>maxConcurrency. Inr (Some (maxConcurrency, resetKey)))))"

datatype run_outcome =
    BadCertificate
  | RunPanics go_panic
  | ServesHttp2 "(nat \<times> bytes option) option"   \<comment> \<open>with the QUIC server's limit and reset key, if it runs\<close>

definition api_Run :: "listen_env \<Rightarrow> ApiServerConfig \<Rightarrow> run_outcome" where
  "api_Run env cfg =
     (if \<not> list_all (\<lambda>scope. accounts_for scope (ClientKeys cfg) = [] \<or> accounts_ok env (accounts_for scope (ClientKeys cfg)))
           [''tesla'', ''kexec'', ''debug''] then RunPanics ExplicitPanic
      else if \<not> list_all (x509_key_pair env) (Certificates cfg) then BadCertificate
      else case startQuicServer env cfg of
        Inl p \<Rightarrow> RunPanics p
      | Inr quic \<Rightarrow> ServesHttp2 quic)"

section \<open>Lemmas\<close>

definition grants :: "string \<Rightarrow> string \<Rightarrow> ClientKey \<Rightarrow> bool" where
  "grants scope user k \<longleftrightarrow> ck_Id k = user \<and> scope \<in> set (Scopes k) \<and> Secret k \<noteq> []"

lemma accounts_for_Cons_end:
  "accounts_for scope (keys @ [k]) =
     (if scope \<in> set (Scopes k) \<and> Secret k \<noteq> [] then AList.update (ck_Id k) (Secret k) (accounts_for scope keys)
      else accounts_for scope keys)"
  by (simp add: accounts_for_def)

lemma map_of_accounts_for:
  "map_of (accounts_for scope keys) user = map_option Secret (find (grants scope user) (rev keys))"
proof (induction keys rule: rev_induct)
  case (snoc k keys)
  then show ?case by (auto simp: accounts_for_Cons_end update_conv' grants_def)
qed (simp add: accounts_for_def)

lemma distinct_accounts_for: "distinct (map fst (accounts_for scope keys))"
proof (induction keys rule: rev_induct)
  case (snoc k keys)
  then show ?case by (simp add: accounts_for_Cons_end distinct_update)
qed (simp add: accounts_for_def)

lemma accounts_for_granted:
  assumes "(user, pw) \<in> set (accounts_for scope keys)"
  shows "\<exists>k \<in> set keys. grants scope user k \<and> Secret k = pw"
proof -
  have "map_of (accounts_for scope keys) user = Some pw"
    using assms distinct_accounts_for by (simp add: map_of_eq_Some_iff)
  then show ?thesis by (auto simp: map_of_accounts_for dest!: find_Some_mem)
qed

lemma routes_scope: "r \<in> set (routes cfg) \<Longrightarrow> r_accounts r = accounts_for (scope_of (r_handler r)) (ClientKeys cfg)"
  by (auto simp: routes_def group_def split: if_splits)

lemma limiter_step_sem:
  "limiter_step st (Request path) = (if prefix ''/kexec/'' path then st else sem_step sem_acquire sem_release st Arrive)"
  "limiter_step st Finish = sem_step sem_acquire sem_release st Depart"
  by (cases st; auto simp: limiter_def split: option.splits)+

fun sem_events :: "traffic list \<Rightarrow> sem_event list" where
  "sem_events [] = []"
| "sem_events (Request path # es) = (if prefix ''/kexec/'' path then sem_events es else Arrive # sem_events es)"
| "sem_events (Finish # es) = Depart # sem_events es"

lemma limiter_run_sem:
  "foldl limiter_step st es = foldl (sem_step sem_acquire sem_release) st (sem_events es)"
  by (induction es arbitrary: st rule: sem_events.induct) (simp_all add: limiter_step_sem del: limiter_step.simps)

definition loop_ok :: "nat \<Rightarrow> accept_loop \<Rightarrow> bool" where
  "loop_ok n s \<longleftrightarrow> sem_ok n (slot_sem s)
     \<and> running s + (if accepting s then 1 else 0) \<le> length (buf (slot_sem s))"

lemma loop_ok_step: "accept_step ml s s' \<Longrightarrow> loop_ok n s \<Longrightarrow> loop_ok n s'"
proof (induction rule: accept_step.induct)
  case (acquires s c)
  then have "length (buf (slot_sem s)) < n"
    using slots.acquire_full [of n "slot_sem s"] slots.within [of n "slot_sem s"] by (fastforce simp: loop_ok_def)
  with acquires slots.acquire_free [of n "slot_sem s"] show ?case by (auto simp: loop_ok_def)
next
  case (ends s)
  then have "sem_ok n (slot_sem s)" "0 < length (buf (slot_sem s))" by (auto simp: loop_ok_def)
  from slots.release_inv [OF this] ends show ?case by (auto simp: loop_ok_def)
qed (auto simp: loop_ok_def split: if_splits)

interpretation accepting: step_system "accept_step ml" "new_loop n" "loop_ok n" for ml n
  by unfold_locales (simp add: loop_ok_def new_loop_def, rule loop_ok_step)

lemma find_vehicle_nil:
  "i < length vs \<Longrightarrow> vs ! i = None \<Longrightarrow> \<forall>j < i. \<forall>v. vs ! j = Some v \<longrightarrow> api_Vin v \<noteq> vin \<Longrightarrow>
     find_vehicle vin vs = Inl NilDereference"
proof (induction vin vs arbitrary: i rule: find_vehicle.induct)
  case (3 vin v vs)
  then obtain k where k: "i = Suc k" by (cases i) auto
  with 3 have "api_Vin v \<noteq> vin" by auto
  moreover have "\<forall>j < k. \<forall>v. vs ! j = Some v \<longrightarrow> api_Vin v \<noteq> vin" using 3(4) k by force
  ultimately show ?case using 3(1) [of k] 3(2,3) k by auto
qed auto

section \<open>Properties\<close>

text \<open>
  C23: No handler runs without the right to it: if a request reaches a handler, then it carries the
  id and the non-empty secret of a configured client key that has the handler's scope, provided gin
  returns only registered routes and accepts only headers made from an account of the route's table.
\<close>

theorem handlers_need_scope:
  assumes "\<And>rs m p r ps. gin_find rs m p = Some (r, ps) \<Longrightarrow> r \<in> set rs"
    and "\<And>accounts h user. basic_auth accounts h = Some user \<Longrightarrow>
      \<exists>pw. (user, pw) \<in> set accounts \<and> h = basic_header user pw"
    and "dispatch gin_find basic_auth cfg req = Handled h params user"
  shows "\<exists>k \<in> set (ClientKeys cfg). scope_of h \<in> set (Scopes k) \<and> Secret k \<noteq> [] \<and> ck_Id k = user
    \<and> Authorization req = basic_header (ck_Id k) (Secret k)"
proof -
  from assms(3) obtain r where r: "gin_find (routes cfg) (req_Method req) (URL_Path req) = Some (r, params)"
    "basic_auth (r_accounts r) (Authorization req) = Some user" "h = r_handler r"
    by (auto simp: dispatch_def split: option.splits)
  obtain pw where pw: "(user, pw) \<in> set (r_accounts r)" "Authorization req = basic_header user pw"
    using assms(2) [OF r(2)] by blast
  have "r_accounts r = accounts_for (scope_of h) (ClientKeys cfg)"
    using assms(1) [OF r(1)] r(3) by (simp add: routes_scope)
  with pw accounts_for_granted [of user pw "scope_of h" "ClientKeys cfg"] show ?thesis by (auto simp: grants_def)
qed

text \<open>
  C30: Which secret counts for a user in a scope: the table built by the loop over the client keys
  is the function that takes the last key with that id, that scope and a non-empty secret; keys with
  an empty secret never count and never hide another.
\<close>

theorem accounts_last_key_wins:
  "map_of (accounts_for scope keys) user =
     map_option Secret (find (\<lambda>k. ck_Id k = user \<and> scope \<in> set (Scopes k) \<and> Secret k \<noteq> []) (rev keys))"
  by (simp add: map_of_accounts_for grants_def [abs_def])

text \<open>
  Never more than ten requests hold a slot of the limiter, however requests arrive and finish,
  and it answers 429 to a request outside \<^verbatim>\<open>/kexec/\<close> exactly when ten hold one.
\<close>

lemma limiter_bounded:
  "fst (snd (foldl limiter_step (limiter_sem, 0, 0) es)) \<le> 10
   \<and> (limiter path (fst (foldl limiter_step (limiter_sem, 0, 0) es)) = TooMany \<longleftrightarrow>
        \<not> prefix ''/kexec/'' path \<and> fst (snd (foldl limiter_step (limiter_sem, 0, 0) es)) = 10)"
  using slots.run_bounded [of 10 limiter_sem "sem_events es"]
  by (auto simp: limiter_run_sem sem_run_def limiter_sem_def limiter_def make_chan_def sem_ok_def split: option.splits)

text \<open>
  The QUIC server never serves more connections than its limit, and the SSH relay never more
  than one stream per connection, in every interleaving of accepts, failures and endings.
\<close>

lemma accept_loop_bounded: "(accept_step may_leave)\<^sup>*\<^sup>* (new_loop n) s \<Longrightarrow> running s \<le> n"
  using accepting.always [of may_leave n s] slots.within [of n "slot_sem s"] by (auto simp: loop_ok_def)

lemma quic_connections_bounded:
  "quic_limit configured = Inr n \<Longrightarrow> quic_loop_step\<^sup>*\<^sup>* (new_loop n) s \<Longrightarrow> running s \<le> n"
  unfolding quic_loop_step_def by (rule accept_loop_bounded)

lemma relay_streams_bounded: "relay_loop_step\<^sup>*\<^sup>* (new_loop relay_limit) s \<Longrightarrow> running s \<le> 1"
  using accept_loop_bounded [of True relay_limit s] by (simp add: relay_loop_step_def relay_limit_def)

text \<open>
  The goroutine of \<open>Run\<close> panics, and with it the init process, exactly when gin refuses the accounts of
  an API that has some, or else when the certificates parse, the listeners can be opened and the
  configured limit is negative; a limit that is taken is positive.
\<close>

lemma api_Run_panics_iff:
  "(\<exists>p. api_Run env cfg = RunPanics p) \<longleftrightarrow>
     (\<exists>scope \<in> {''tesla'', ''kexec'', ''debug''}. accounts_for scope (ClientKeys cfg) \<noteq> []
        \<and> \<not> accounts_ok env (accounts_for scope (ClientKeys cfg)))
     \<or> list_all (x509_key_pair env) (Certificates cfg)
        \<and> udp_listen_ok env \<and> quic_listen_ok env \<and> MaxConcurrentQuicConnections cfg < 0"
  by (auto simp: api_Run_def startQuicServer_def quic_limit_def Let_def)

text \<open>
  With gin's check for empty user names, one key without an id that has an API's scope and a secret
  is enough for the panic.
\<close>

lemma empty_id_panics:
  assumes "k \<in> set (ClientKeys cfg)" "ck_Id k = []" "''kexec'' \<in> set (Scopes k)" "Secret k \<noteq> []"
    and "\<And>table. accounts_ok env table = ([] \<notin> fst ` set table)"
  shows "\<exists>p. api_Run env cfg = RunPanics p"
proof -
  have "map_of (accounts_for ''kexec'' (ClientKeys cfg)) [] \<noteq> None"
    using assms(1-4) by (auto simp: map_of_accounts_for grants_def find_None_iff)
  then have "[] \<in> fst ` set (accounts_for ''kexec'' (ClientKeys cfg))" by (simp add: map_of_eq_None_iff)
  with assms(5) show ?thesis unfolding api_Run_panics_iff by auto
qed

lemma api_Run_limit_positive: "api_Run env cfg = ServesHttp2 (Some (n, k)) \<Longrightarrow> 0 < n"
  by (auto simp: api_Run_def startQuicServer_def quic_limit_def Let_def split: if_splits sum.splits)

text \<open>
  A vehicle whose client could not be created disables the vehicles after it: the list keeps a
  nil entry for it, and a request for any VIN that is not configured before it panics.
\<close>

lemma vehicle_nil_entry_panics:
  assumes "i < length configs" "\<not> new_client_ok (OauthToken (configs ! i))"
    and "\<forall>j < i. cfg_Vin (configs ! j) \<noteq> vin"
  shows "vehicleData ready fetch (start_tesla new_client_ok configs) vin = HandlerPanic NilDereference"
proof -
  have "find_vehicle vin (start_tesla new_client_ok configs) = Inl NilDereference"
    by (rule find_vehicle_nil [of i])
       (use assms in \<open>auto simp: start_tesla_def NewVehicleApi_def split: if_splits\<close>)
  then show ?thesis by (simp add: vehicleData_def)
qed

section \<open>Witnesses\<close>

definition demo_api :: ApiServerConfig where
  "demo_api = \<lparr>Listen = '':443'', Certificates = [], ClientKeys = [\<lparr>ck_Id = ''ops'', Secret = ''s3'', Scopes = [''kexec'']\<rparr>],
     MaxConcurrentQuicConnections = 0, StatelessResetKey = [], ExtResetAllowedPins = [], AllowCrash = False\<rparr>"

definition demo_find :: "route list \<Rightarrow> string \<Rightarrow> string \<Rightarrow> (route \<times> (string \<times> string) list) option" where
  "demo_find rs m p = map_option (\<lambda>r. (r, [])) (find (\<lambda>r. r_method r = m \<and> r_path r = p) rs)"

definition demo_auth :: "(string \<times> string) list \<Rightarrow> string \<Rightarrow> string option" where
  "demo_auth accounts h = map_option fst (find (\<lambda>(u, pw). h = basic_header u pw) accounts)"

definition demo_call :: api_request where
  "demo_call = \<lparr>req_Method = ''POST'', URL_Path = ''/kexec/trigger'', Authorization = basic_header ''ops'' ''s3''\<rparr>"

theorem handlers_need_scope_witness:
  "dispatch demo_find demo_auth demo_api demo_call = Handled KexecTrigger [] ''ops''
   \<and> (\<exists>k \<in> set (ClientKeys demo_api). ''kexec'' \<in> set (Scopes k) \<and> Secret k \<noteq> [] \<and> ck_Id k = ''ops''
       \<and> Authorization demo_call = basic_header (ck_Id k) (Secret k))"
proof -
  have d: "dispatch demo_find demo_auth demo_api demo_call = Handled KexecTrigger [] ''ops''"
    by (simp add: dispatch_def demo_find_def demo_auth_def demo_api_def demo_call_def routes_def group_def accounts_for_def)
  have "r \<in> set rs" if "demo_find rs m p = Some (r, ps)" for rs m p r ps
    using that by (auto simp: demo_find_def dest!: find_Some_mem)
  moreover have "\<exists>pw. (user, pw) \<in> set accounts \<and> h = basic_header user pw" if "demo_auth accounts h = Some user" for accounts h user
    using that by (auto simp: demo_auth_def dest!: find_Some_mem)
  ultimately show ?thesis using d handlers_need_scope [of demo_find demo_auth demo_api demo_call KexecTrigger "[]" "''ops''"] by auto
qed

lemma vehicle_nil_entry_panics_example:
  "vehicleData None (\<lambda>_. Inr ()) (start_tesla (\<lambda>t. t = ''good'') [\<lparr>OauthToken = ''bad'', cfg_Vin = ''A''\<rparr>, \<lparr>OauthToken = ''good'', cfg_Vin = ''B''\<rparr>]) ''B'' =
     HandlerPanic NilDereference"
  by (rule vehicle_nil_entry_panics [of 0]) simp_all

end
