(* ===== verification/Os_Commands.thy ===== *)
theory Os_Commands
  imports Go_Encoding "HOL-Library.State_Monad"
begin

text \<open>
  The operating system as the init process uses it: system calls and child processes, each of which
  the system answers with success or failure. The state of a computation is the oracle that gives
  the answers, which may depend on everything that happened before, and the trace of calls made.
  \<^verbatim>\<open>homegw-libs/memfd/lib.go\<close>, which puts secrets into sealed memory files, is modelled here, with
  the laws its clients rely on: the child reads exactly the data, and nothing but the data's
  length shows in what an observer of system calls and command lines can see.
\<close>

unbundle bit_operations_syntax

section \<open>Calls\<close>

record memfd =
  mfd_name :: string
  contents :: bytes
  seals :: u32

datatype os_event =
    Exec "string list" "memfd list"       \<comment> \<open>\<open>cmd.Run()\<close>: arguments, extra files from descriptor 3 on\<close>
  | MemfdCreate string
  | Ftruncate nat
  | Mmap nat
  | Munmap nat
  | AddSeals u32
  | CloseFd string
  | MkdirAll string
  | Pipe
  | ClosePipe
  | RunForever "string list"              \<comment> \<open>a goroutine that runs the command again whenever it ends\<close>
  | OpenTruncate string
  | AppendTo string bytes
  | WriteFile string bytes
  | Chown string nat nat
  | Start "string list" "memfd list"      \<comment> \<open>\<open>cmd.Start()\<close>\<close>
  | WaitStopped nat                       \<comment> \<open>the \<open>Wait4\<close> loop finds the process stopped\<close>
  | Setpriority nat int
  | PtraceDetach nat
  | Kill int
  | OpenSink string                       \<comment> \<open>the URL of a log output parses and its sink takes the parameters\<close>
  | NewProducer string                    \<comment> \<open>\<open>sarama.NewSyncProducer\<close>\<close>
  | BuildLogger "string list"             \<comment> \<open>\<open>zap.Config.Build\<close> with these output paths\<close>
  | PrctlNotDumpable
  | Sethostname string
  | ListenUnix string
  | ChmodTo string nat
  | DupListener
  | StdinPipe
  | StartHelper string "string list"      \<comment> \<open>\<open>cmd.Start()\<close> with these descriptors from 3 on\<close>
  | FeedStdin bytes                       \<comment> \<open>a goroutine writes to the helper's standard input and closes it\<close>
  | OpenRead string
  | StatFile
  | MapFile nat

record os =
  answers :: "os_event list \<Rightarrow> os_event \<Rightarrow> bool"
  trace :: "os_event list"

definition sys :: "os_event \<Rightarrow> (os, bool) state" where
  "sys e = State (\<lambda>s. (answers s (trace s) e, s\<lparr>trace := trace s @ [e]\<rparr>))"

text \<open>A call whose failure ends the function with this error, and one whose result is ignored.\<close>

definition must :: "'e \<Rightarrow> os_event \<Rightarrow> (os, 'e + unit) state" where
  "must err e = do { ok \<leftarrow> sys e; State_Monad.return (if ok then Inr () else Inl err) }"

definition ignore :: "os_event \<Rightarrow> (os, unit) state" where
  "ignore e = do { _ \<leftarrow> sys e; State_Monad.return () }"

text \<open>\<open>if err != nil { return err }\<close> between two parts of a function.\<close>

definition try_then :: "(os, 'e + 'a) state \<Rightarrow> ('a \<Rightarrow> (os, 'e + 'b) state) \<Rightarrow> (os, 'e + 'b) state" where
  "try_then m k = do { r \<leftarrow> m; case r of Inl e \<Rightarrow> State_Monad.return (Inl e) | Inr x \<Rightarrow> k x }"

text \<open>Loops: one that always goes through the list, and one that a failing iteration leaves.\<close>

fun for_each :: "'a list \<Rightarrow> ('a \<Rightarrow> (os, unit) state) \<Rightarrow> (os, unit) state" where
  "for_each [] f = State_Monad.return ()"
| "for_each (x # xs) f = do { f x; for_each xs f }"

fun try_each :: "'a list \<Rightarrow> ('a \<Rightarrow> (os, 'e + unit) state) \<Rightarrow> (os, 'e + unit) state" where
  "try_each [] f = State_Monad.return (Inr ())"
| "try_each (x # xs) f = try_then (f x) (\<lambda>_. try_each xs f)"

section \<open>memfd\<close>

datatype os_error =
    MemfdFailed
  | FtruncateFailed
  | MapFailed
  | SealFailed
  | DecodeFailed
  | CommandFailed string
  | PipeFailed
  | OpenFailed
  | WriteFailed
  | UnknownMode string

text \<open>\<open>F_SEAL_SEAL\<close>, \<open>F_SEAL_SHRINK\<close>, \<open>F_SEAL_GROW\<close> and \<open>F_SEAL_WRITE\<close>\<close>

definition all_seals :: u32 where "all_seals = 15"

text \<open>
  The calls on the file itself: \<open>ftruncate\<close> cuts the file or fills it with zeros, and what is copied
  into a shared mapping of \<open>n\<close> bytes reaches the file as far as mapping, data and file extend.
\<close>

definition truncate_to :: "nat \<Rightarrow> memfd \<Rightarrow> memfd" where
  "truncate_to n mfd = mfd\<lparr>contents := take n (contents mfd) @ replicate (n - length (contents mfd)) 0\<rparr>"

definition copy_mapped :: "nat \<Rightarrow> bytes \<Rightarrow> memfd \<Rightarrow> memfd" where
  "copy_mapped n data mfd =
     (let k = min n (min (length data) (length (contents mfd)))
      in mfd\<lparr>contents := take k data @ drop k (contents mfd)\<rparr>)"

definition add_seals :: "u32 \<Rightarrow> memfd \<Rightarrow> memfd" where
  "add_seals new mfd = mfd\<lparr>seals := seals mfd OR new\<rparr>"

text \<open>A mapping is represented by its length; the seals of a file accumulate.\<close>

definition ftruncate :: "nat \<Rightarrow> memfd \<Rightarrow> (os, os_error + memfd) state" where
  "ftruncate n mfd = try_then (must FtruncateFailed (Ftruncate n)) (\<lambda>_. State_Monad.return (Inr (truncate_to n mfd)))"

definition mmap :: "nat \<Rightarrow> (os, os_error + nat) state" where
  "mmap n = try_then (must MapFailed (Mmap n)) (\<lambda>_. State_Monad.return (Inr n))"

definition fcntl_add_seals :: "u32 \<Rightarrow> memfd \<Rightarrow> (os, os_error + memfd) state" where
  "fcntl_add_seals new mfd = try_then (must SealFailed (AddSeals new)) (\<lambda>_. State_Monad.return (Inr (add_seals new mfd)))"

definition writeAndSeal :: "memfd \<Rightarrow> bytes \<Rightarrow> (os, os_error + memfd) state" where
  "writeAndSeal mfd data =
     try_then
       (if data \<noteq> [] then
          try_then (ftruncate (length data) mfd) (\<lambda>mfd1.
          try_then (mmap (length data)) (\<lambda>mapping. do {
            let mfd2 = copy_mapped mapping data mfd1;
            ignore (Munmap mapping);
            State_Monad.return (Inr mfd2) }))
        else State_Monad.return (Inr mfd))
       (\<lambda>mfd'. fcntl_add_seals all_seals mfd')"

lemmas writeAndSeal_calls = writeAndSeal_def ftruncate_def mmap_def fcntl_add_seals_def

definition NewMemfdReadonlyBuffer :: "string \<Rightarrow> bytes \<Rightarrow> (os, os_error + memfd) state" where
  "NewMemfdReadonlyBuffer name data =
     try_then (must MemfdFailed (MemfdCreate name)) (\<lambda>_. do {
       r \<leftarrow> writeAndSeal \<lparr>mfd_name = name, contents = [], seals = 0\<rparr> data;
       case r of
         Inl e \<Rightarrow> do { ignore (CloseFd name); State_Monad.return (Inl e) }
       | Inr mfd \<Rightarrow> State_Monad.return (Inr mfd) })"

section \<open>Running computations\<close>

named_theorems os_simps \<open>evaluation of calls and sequencing\<close>

lemma run_sys [os_simps]: "run_state (sys e) s = (answers s (trace s) e, s\<lparr>trace := trace s @ [e]\<rparr>)"
  by (simp add: sys_def)

lemma run_must [os_simps]:
  "run_state (must err e) s = (if answers s (trace s) e then Inr () else Inl err, s\<lparr>trace := trace s @ [e]\<rparr>)"
  by (simp add: must_def os_simps)

lemma run_ignore [os_simps]: "run_state (ignore e) s = ((), s\<lparr>trace := trace s @ [e]\<rparr>)"
  by (simp add: ignore_def os_simps)

lemma run_try_then [os_simps]:
  "run_state (try_then m k) s =
     (case run_state m s of (Inl e, s') \<Rightarrow> (Inl e, s') | (Inr x, s') \<Rightarrow> run_state (k x) s')"
  by (auto simp: try_then_def split: prod.splits sum.splits)

text \<open>A computation keeps the oracle and only appends to the trace events that satisfy \<open>P\<close>.\<close>

definition emits :: "(os_event \<Rightarrow> bool) \<Rightarrow> (os, 'a) state \<Rightarrow> bool" where
  "emits P m \<longleftrightarrow> (\<forall>s. answers (snd (run_state m s)) = answers s
     \<and> (\<exists>es. trace (snd (run_state m s)) = trace s @ es \<and> list_all P es))"

lemma emits_bind:
  assumes "emits P m" "\<And>x. emits P (f x)"
  shows "emits P (State_Monad.bind m f)"
  unfolding emits_def
proof
  fix s
  obtain x s1 where 1: "run_state m s = (x, s1)" by fastforce
  obtain y s2 where 2: "run_state (f x) s1 = (y, s2)" by fastforce
  from assms(1) 1 obtain es1 where "answers s1 = answers s" "trace s1 = trace s @ es1" "list_all P es1"
    unfolding emits_def by (metis snd_conv)
  moreover from assms(2) [of x] 2 obtain es2 where "answers s2 = answers s1" "trace s2 = trace s1 @ es2" "list_all P es2"
    unfolding emits_def by (metis snd_conv)
  ultimately show "answers (snd (run_state (State_Monad.bind m f) s)) = answers s
     \<and> (\<exists>es. trace (snd (run_state (State_Monad.bind m f) s)) = trace s @ es \<and> list_all P es)"
    using 1 2 by auto
qed

lemma emits_return: "emits P (State_Monad.return x)"
  by (simp add: emits_def)

lemma emits_sys: "P e \<Longrightarrow> emits P (sys e)"
  by (simp add: emits_def os_simps)

lemma emits_try_then: "emits P m \<Longrightarrow> (\<And>x. emits P (k x)) \<Longrightarrow> emits P (try_then m k)"
  unfolding try_then_def by (intro emits_bind) (auto intro: emits_return split: sum.splits)

lemma emits_must: "P e \<Longrightarrow> emits P (must err e)"
  unfolding must_def by (intro emits_bind emits_sys emits_return)

lemma emits_ignore: "P e \<Longrightarrow> emits P (ignore e)"
  unfolding ignore_def by (intro emits_bind emits_sys emits_return)

lemma emits_for_each: "(\<And>x. x \<in> set xs \<Longrightarrow> emits P (f x)) \<Longrightarrow> emits P (for_each xs f)"
  by (induction xs) (auto intro: emits_return emits_bind)

lemma emits_try_each: "(\<And>x. x \<in> set xs \<Longrightarrow> emits P (f x)) \<Longrightarrow> emits P (try_each xs f)"
  by (induction xs) (auto intro: emits_return emits_try_then)

lemmas emits_rules = emits_bind emits_return emits_sys emits_try_then emits_must emits_ignore
  emits_for_each emits_try_each

section \<open>What an observer sees\<close>

text \<open>
  Command lines, file names and the order of calls are visible in the process table and to a
  tracer, and so are the sizes given to calls; the contents of memory files are not. A system that
  answers the same whatever the hidden parts are is \<open>blind\<close>; two runs are \<open>alike\<close> when they look the same.
\<close>

definition blank :: "memfd \<Rightarrow> memfd" where
  "blank fd = fd\<lparr>contents := []\<rparr>"

fun public :: "os_event \<Rightarrow> os_event" where
  "public (Exec argv fds) = Exec argv (map blank fds)"
| "public (Start argv fds) = Start argv (map blank fds)"
| "public e = e"

definition blind :: "(os_event list \<Rightarrow> os_event \<Rightarrow> bool) \<Rightarrow> bool" where
  "blind f \<longleftrightarrow> (\<forall>t e t' e'. map public t = map public t' \<longrightarrow> public e = public e' \<longrightarrow> f t e = f t' e')"

definition alike :: "os \<Rightarrow> os \<Rightarrow> bool" where
  "alike s s' \<longleftrightarrow> answers s = answers s' \<and> blind (answers s) \<and> map public (trace s) = map public (trace s')"

definition rel_run :: "('a \<Rightarrow> 'b \<Rightarrow> bool) \<Rightarrow> (os, 'a) state \<Rightarrow> (os, 'b) state \<Rightarrow> bool" where
  "rel_run R m m' \<longleftrightarrow> (\<forall>s s'. alike s s' \<longrightarrow>
     R (fst (run_state m s)) (fst (run_state m' s')) \<and> alike (snd (run_state m s)) (snd (run_state m' s')))"

lemma rel_runD: "rel_run R m m' \<Longrightarrow> alike s s' \<Longrightarrow> run_state m s = (x, t) \<Longrightarrow> run_state m' s' = (x', t') \<Longrightarrow>
    R x x' \<and> alike t t'"
  unfolding rel_run_def by (metis fst_conv snd_conv)

lemma rel_run_bind:
  assumes "rel_run Q m m'" "\<And>x x'. Q x x' \<Longrightarrow> rel_run R (f x) (f' x')"
  shows "rel_run R (State_Monad.bind m f) (State_Monad.bind m' f')"
  unfolding rel_run_def
proof (intro allI impI)
  fix s s'
  assume a: "alike s s'"
  obtain x t x' t' where r: "run_state m s = (x, t)" "run_state m' s' = (x', t')" by fastforce
  from rel_runD [OF assms(1) a r] have q: "Q x x'" "alike t t'" by simp_all
  obtain y u y' u' where r2: "run_state (f x) t = (y, u)" "run_state (f' x') t' = (y', u')" by fastforce
  from rel_runD [OF assms(2) [OF q(1)] q(2) r2] show "R (fst (run_state (State_Monad.bind m f) s)) (fst (run_state (State_Monad.bind m' f') s')) \<and>
      alike (snd (run_state (State_Monad.bind m f) s)) (snd (run_state (State_Monad.bind m' f') s'))"
    using r r2 by simp
qed

lemma rel_run_return: "R x x' \<Longrightarrow> rel_run R (State_Monad.return x) (State_Monad.return x')"
  by (simp add: rel_run_def)

lemma rel_run_sys: "public e = public e' \<Longrightarrow> rel_run (=) (sys e) (sys e')"
  unfolding rel_run_def
proof (intro allI impI)
  fix s s'
  assume e: "public e = public e'" and a: "alike s s'"
  then have "answers s (trace s) e = answers s' (trace s') e'" unfolding alike_def blind_def by metis
  with a e show "fst (run_state (sys e) s) = fst (run_state (sys e') s')
      \<and> alike (snd (run_state (sys e) s)) (snd (run_state (sys e') s'))"
    by (auto simp: run_sys alike_def)
qed

lemma rel_run_must: "public e = public e' \<Longrightarrow> rel_run (rel_sum (=) (=)) (must err e) (must err e')"
  unfolding must_def by (rule rel_run_bind [OF rel_run_sys], assumption) (simp add: rel_run_return)

lemma rel_run_ignore: "public e = public e' \<Longrightarrow> rel_run (=) (ignore e) (ignore e')"
  unfolding ignore_def by (rule rel_run_bind [OF rel_run_sys], assumption) (simp add: rel_run_return)

lemma rel_run_try_then:
  assumes "rel_run (rel_sum (=) Q) m m'" "\<And>x x'. Q x x' \<Longrightarrow> rel_run (rel_sum (=) R) (k x) (k' x')"
  shows "rel_run (rel_sum (=) R) (try_then m k) (try_then m' k')"
  unfolding try_then_def
proof (rule rel_run_bind [OF assms(1)])
  fix r r' :: "'a + 'b"
  show "rel_run (rel_sum (=) R) (case_sum (\<lambda>e. State_Monad.return (Inl e)) k r)
      (case_sum (\<lambda>e. State_Monad.return (Inl e)) k' r')" if "rel_sum (=) Q r r'" for r r'
    using that assms(2) by (cases rule: rel_sum.cases) (auto intro: rel_run_return)
qed

lemma rel_run_for_each:
  "list_all2 Q xs ys \<Longrightarrow> (\<And>x y. Q x y \<Longrightarrow> rel_run (=) (f x) (f' y)) \<Longrightarrow> rel_run (=) (for_each xs f) (for_each ys f')"
  by (induction rule: list_all2_induct) (auto intro!: rel_run_return rel_run_bind [where Q = "(=)"])

lemma rel_run_try_each:
  "list_all2 Q xs ys \<Longrightarrow> (\<And>x y. Q x y \<Longrightarrow> rel_run (rel_sum (=) (=)) (f x) (f' y)) \<Longrightarrow>
     rel_run (rel_sum (=) (=)) (try_each xs f) (try_each ys f')"
  by (induction rule: list_all2_induct) (auto intro!: rel_run_return rel_run_try_then [where Q = "(=)"])

section \<open>The interface of a sealed buffer\<close>

text \<open>What the users of \<open>NewMemfdReadonlyBuffer\<close> rely on.\<close>

locale readonly_buffer =
  fixes create :: "string \<Rightarrow> bytes \<Rightarrow> (os, os_error + memfd) state"
  assumes exact: "run_state (create n d) s = (Inr fd, s') \<Longrightarrow> contents fd = d \<and> seals fd = all_seals"
    and hidden: "length d = length d' \<Longrightarrow>
      rel_run (rel_sum (=) (\<lambda>fd fd'. blank fd = blank fd')) (create n d) (create n d')"
begin

text \<open>A command that gets one buffer as descriptor 3, which is closed again after it.\<close>

lemma run_with_buffer:
  assumes "length d = length d'"
  shows "rel_run (rel_sum (=) (=))
    (try_then (create n d) (\<lambda>fd. do { ok \<leftarrow> sys (Exec argv [fd]); ignore (CloseFd c); State_Monad.return (Inr ok) }))
    (try_then (create n d') (\<lambda>fd. do { ok \<leftarrow> sys (Exec argv [fd]); ignore (CloseFd c); State_Monad.return (Inr ok) }))"
  by (rule rel_run_try_then [OF hidden [OF assms]], rule rel_run_bind [OF rel_run_sys], simp)
     (rule rel_run_bind [OF rel_run_ignore], simp, rule rel_run_return, simp)

end

lemma copy_into_truncated: "contents (copy_mapped (length d) d (truncate_to (length d) m)) = d"
  by (simp add: copy_mapped_def truncate_to_def)

lemma file_ops_keep [simp]:
  "mfd_name (truncate_to n m) = mfd_name m" "seals (truncate_to n m) = seals m"
  "mfd_name (copy_mapped n d m) = mfd_name m" "seals (copy_mapped n d m) = seals m"
  "blank (truncate_to n m) = blank m" "blank (copy_mapped n d m) = blank m"
  by (simp_all add: truncate_to_def copy_mapped_def blank_def Let_def)

lemma written_file:
  "add_seals new (copy_mapped (length d) d (truncate_to (length d) m)) =
     \<lparr>mfd_name = mfd_name m, contents = d, seals = seals m OR new\<rparr>"
  by (rule memfd.equality) (simp_all add: add_seals_def copy_into_truncated)

lemma sealed_file: "add_seals new \<lparr>mfd_name = n, contents = c, seals = 0\<rparr> = \<lparr>mfd_name = n, contents = c, seals = new\<rparr>"
  by (simp add: add_seals_def)

lemma blank_add_seals: "blank m = blank m' \<Longrightarrow> blank (add_seals new m) = blank (add_seals new m')"
  by (cases m; cases m') (simp add: blank_def add_seals_def)

lemma run_NewMemfd:
  "run_state (NewMemfdReadonlyBuffer name data) s = (Inr fd, s') \<Longrightarrow>
     fd = \<lparr>mfd_name = name, contents = data, seals = all_seals\<rparr>"
  by (cases "data = []")
     (auto simp: NewMemfdReadonlyBuffer_def writeAndSeal_calls os_simps written_file sealed_file
       split: if_splits prod.splits sum.splits)

abbreviation same_file :: "os_error + memfd \<Rightarrow> os_error + memfd \<Rightarrow> bool" where
  "same_file \<equiv> rel_sum (=) (\<lambda>fd fd'. blank fd = blank fd')"

lemma rel_run_ftruncate: "blank m = blank m' \<Longrightarrow> rel_run same_file (ftruncate n m) (ftruncate n m')"
  unfolding ftruncate_def by (auto intro!: rel_run_try_then [OF rel_run_must] rel_run_return)

lemma rel_run_mmap: "rel_run (rel_sum (=) (=)) (mmap n) (mmap n)"
  unfolding mmap_def by (auto intro!: rel_run_try_then [OF rel_run_must] rel_run_return)

lemma rel_run_fcntl: "blank m = blank m' \<Longrightarrow> rel_run same_file (fcntl_add_seals new m) (fcntl_add_seals new m')"
  unfolding fcntl_add_seals_def by (auto intro!: rel_run_try_then [OF rel_run_must] rel_run_return blank_add_seals)

lemma rel_run_writeAndSeal:
  assumes "blank m = blank m'" "length d = length d'"
  shows "rel_run (rel_sum (=) (\<lambda>fd fd'. blank fd = blank fd')) (writeAndSeal m d) (writeAndSeal m' d')"
proof -
  have "(d = []) = (d' = [])" using assms(2) by (metis length_0_conv)
  with assms show ?thesis
    unfolding writeAndSeal_def Let_def
    by (intro rel_run_try_then [OF _ rel_run_fcntl])
       (auto intro!: rel_run_try_then [OF rel_run_ftruncate] rel_run_try_then [OF rel_run_mmap]
          rel_run_bind [OF rel_run_ignore] rel_run_return)
qed

interpretation memfd_buffer: readonly_buffer NewMemfdReadonlyBuffer
proof
  fix n d s fd s'
  assume "run_state (NewMemfdReadonlyBuffer n d) s = (Inr fd, s')"
  then show "contents fd = d \<and> seals fd = all_seals" by (auto dest: run_NewMemfd)
next
  fix d d' :: bytes and n
  assume d: "length d = length d'"
  show "rel_run (rel_sum (=) (\<lambda>fd fd'. blank fd = blank fd')) (NewMemfdReadonlyBuffer n d) (NewMemfdReadonlyBuffer n d')"
    unfolding NewMemfdReadonlyBuffer_def
  proof (rule rel_run_try_then [OF rel_run_must], simp, rule rel_run_bind [OF rel_run_writeAndSeal [OF refl d]])
    fix r r' :: "os_error + memfd"
    assume "rel_sum (=) (\<lambda>fd fd'. blank fd = blank fd') r r'"
    then show "rel_run (rel_sum (=) (\<lambda>fd fd'. blank fd = blank fd'))
        (case r of Inl e \<Rightarrow> do { ignore (CloseFd n); State_Monad.return (Inl e) } | Inr mfd \<Rightarrow> State_Monad.return (Inr mfd))
        (case r' of Inl e \<Rightarrow> do { ignore (CloseFd n); State_Monad.return (Inl e) } | Inr mfd \<Rightarrow> State_Monad.return (Inr mfd))"
      by (cases rule: rel_sum.cases) (auto intro!: rel_run_return rel_run_bind [OF rel_run_ignore])
  qed
qed

section \<open>Properties\<close>

text \<open>
  C29: A memory file handed out by \<open>NewMemfdReadonlyBuffer\<close> holds exactly the data, the empty data
  included, and carries all four seals; when a call after its creation fails, the descriptor is
  closed.
\<close>

theorem memfd_exact:
  assumes "run_state (NewMemfdReadonlyBuffer name data) s = (r, s')"
  shows "(case r of
      Inr fd \<Rightarrow> fd = \<lparr>mfd_name = name, contents = data, seals = 15\<rparr>
    | Inl e \<Rightarrow> e = MemfdFailed \<or> last (trace s') = CloseFd name)"
proof (cases r)
  case (Inr fd)
  with assms run_NewMemfd show ?thesis by (fastforce simp: all_seals_def)
next
  case (Inl e)
  with assms show ?thesis
    by (cases "data = []")
       (auto simp: NewMemfdReadonlyBuffer_def writeAndSeal_calls os_simps split: if_splits prod.splits sum.splits)
qed

theorem memfd_exact_witness:
  "fst (run_state (NewMemfdReadonlyBuffer ''k'' [1, 2]) \<lparr>answers = (\<lambda>_ _. True), trace = []\<rparr>) =
     Inr \<lparr>mfd_name = ''k'', contents = [1, 2], seals = 15\<rparr>"
proof -
  obtain r s' where r: "run_state (NewMemfdReadonlyBuffer ''k'' [1, 2]) \<lparr>answers = (\<lambda>_ _. True), trace = []\<rparr> = (r, s')"
    by fastforce
  then have "\<exists>fd. r = Inr fd" by (auto simp: NewMemfdReadonlyBuffer_def writeAndSeal_calls os_simps)
  with r memfd_exact [OF r] show ?thesis by auto
qed

end
