(* ===== verification/System_Setup.thy ===== *)
theory System_Setup
  imports Os_Commands
begin

text \<open>
  What the init process sets up from its configuration by running commands: encrypted disks
  (\<^verbatim>\<open>homegw-libs/disk/lib.go\<close>), WireGuard interfaces (\<^verbatim>\<open>homegw-init/wireguard.go\<close>), network interfaces
  (\<^verbatim>\<open>homegw-init/netif.go\<close>), file permissions and sysctls (\<^verbatim>\<open>homegw-init/config.go\<close>). Log entries are not
  part of the model.
\<close>

section \<open>Strings\<close>

text \<open>\<open>fmt.Sprintf("%d", n)\<close> and \<open>strings.Join\<close>\<close>

fun digits :: "nat \<Rightarrow> string" where
  "digits n = (if n < 10 then [char_of (48 + n)] else digits (n div 10) @ [char_of (48 + n mod 10)])"

declare digits.simps [simp del]

definition itoa :: "int \<Rightarrow> string" where
  "itoa i = (if i < 0 then CHR ''-'' # digits (nat (- i)) else digits (nat i))"

fun join :: "string \<Rightarrow> string list \<Rightarrow> string" where
  "join sep [] = []"
| "join sep [x] = x"
| "join sep (x # y # xs) = x @ sep @ join sep (y # xs)"

section \<open>Disks\<close>

record DiskConfig =
  Device :: string
  EncryptedDevice :: string
  Mountpoint :: string
  LuksKey :: string

definition luksOpen_args :: "DiskConfig \<Rightarrow> string list" where
  "luksOpen_args c = [''nice'', ''-n'', ''10'', ''cryptsetup'', ''luksOpen'', Device c, EncryptedDevice c,
     ''--key-file'', ''/proc/self/fd/3'']"

definition mount_args :: "DiskConfig \<Rightarrow> string list" where
  "mount_args c = [''mount'', ''-t'', ''ext4'', ''-o'', ''nosuid,nodev,noatime'',
     ''/dev/mapper/'' @ EncryptedDevice c, Mountpoint c]"

definition disk_Open :: "DiskConfig \<Rightarrow> (os, os_error + unit) state" where
  "disk_Open c =
     (case base64_decode (bytes_of (LuksKey c)) of
        None \<Rightarrow> State_Monad.return (Inl DecodeFailed)
      | Some luksKey \<Rightarrow>
          try_then (NewMemfdReadonlyBuffer ''luks-key'' luksKey) (\<lambda>keyfd. do {
            r \<leftarrow> try_then (must (CommandFailed ''luksOpen'') (Exec (luksOpen_args c) [keyfd])) (\<lambda>_. do {
                   ignore (MkdirAll (Mountpoint c));
                   must (CommandFailed ''mount'') (Exec (mount_args c) []) });
            ignore (CloseFd ''luks-key'');
            State_Monad.return r }))"

section \<open>WireGuard\<close>

record WireguardPeer =
  PublicKey :: string
  AllowedIPs :: "string list"
  Endpoint :: string
  PresharedKey :: string
  PersistentKeepalive :: int

record WireguardConfig =
  Interface :: string
  PrivateKey :: string
  Addresses :: "string list"
  Peers :: "WireguardPeer list"

definition private_key_args :: "string \<Rightarrow> string list" where
  "private_key_args ifc = [''wg'', ''set'', ifc, ''listen-port'', ''0'', ''private-key'', ''/proc/self/fd/3'']"

definition peer_args :: "string \<Rightarrow> WireguardPeer \<Rightarrow> string list" where
  "peer_args ifc peer =
     [''wg'', ''set'', ifc, ''peer'', PublicKey peer, ''endpoint'', Endpoint peer]
     @ (if PresharedKey peer \<noteq> [] then [''preshared-key'', ''/proc/self/fd/3''] else [])
     @ (if PersistentKeepalive peer \<noteq> 0 then [''persistent-keepalive'', itoa (PersistentKeepalive peer)] else [])
     @ (if AllowedIPs peer \<noteq> [] then [''allowed-ips'', join '','' (AllowedIPs peer)] else [])"

definition run_with_secret :: "string \<Rightarrow> bytes \<Rightarrow> string list \<Rightarrow> (os, os_error + bool) state" where
  "run_with_secret name secret argv =
     try_then (NewMemfdReadonlyBuffer name secret)
       (\<lambda>fd. do { ok \<leftarrow> sys (Exec argv [fd]); ignore (CloseFd name); State_Monad.return (Inr ok) })"

definition wireguard_Apply :: "WireguardConfig \<Rightarrow> (os, os_error + unit) state" where
  "wireguard_Apply c =
     try_then (must (CommandFailed ''ip link add'') (Exec [''ip'', ''link'', ''add'', Interface c, ''type'', ''wireguard''] [])) (\<lambda>_. do {
       for_each (Addresses c) (\<lambda>addr. ignore (Exec [''ip'', ''addr'', ''add'', addr, ''dev'', Interface c] []));
       try_then (run_with_secret ''private-key.pem'' (bytes_of (PrivateKey c)) (private_key_args (Interface c))) (\<lambda>ok.
         if \<not> ok then State_Monad.return (Inl (CommandFailed ''wg set''))
         else
           try_then
             (try_each (Peers c) (\<lambda>peer.
                try_then (run_with_secret ''preshared-key.pem'' (bytes_of (PresharedKey peer)) (peer_args (Interface c) peer))
                  (\<lambda>_. State_Monad.return (Inr ()))))
             (\<lambda>_. must (CommandFailed ''ip link set'') (Exec [''ip'', ''link'', ''set'', Interface c, ''up''] []))) })"

section \<open>Network interfaces\<close>

record NetifConfig =
  netif_Name :: string
  Mode :: string
  Ipv4Address :: string
  Ipv4Gateway :: string
  Nameservers :: "string list"

definition resolv_conf :: string where "resolv_conf = ''/etc/resolv.conf''"

definition nameserver_line :: "string \<Rightarrow> bytes" where
  "nameserver_line ns = bytes_of (''nameserver '' @ ns) @ [10]"

definition write_resolv_conf :: "string list \<Rightarrow> (os, os_error + unit) state" where
  "write_resolv_conf nss =
     try_then (must OpenFailed (OpenTruncate resolv_conf)) (\<lambda>_. do {
       r \<leftarrow> try_each nss (\<lambda>ns. must WriteFailed (AppendTo resolv_conf (nameserver_line ns)));
       ignore (CloseFd resolv_conf);
       State_Monad.return r })"

definition netif_static :: "NetifConfig \<Rightarrow> (os, os_error + unit) state" where
  "netif_static c =
     try_then (must (CommandFailed ''ip link set'') (Exec [''ip'', ''link'', ''set'', netif_Name c, ''up''] [])) (\<lambda>_.
     try_then (if Ipv4Address c \<noteq> []
               then must (CommandFailed ''ip addr add'') (Exec [''ip'', ''addr'', ''add'', Ipv4Address c, ''dev'', netif_Name c] [])
               else State_Monad.return (Inr ())) (\<lambda>_.
     try_then (if Ipv4Gateway c \<noteq> []
               then must (CommandFailed ''ip route add'') (Exec [''ip'', ''route'', ''add'', ''default'', ''via'', Ipv4Gateway c] [])
               else State_Monad.return (Inr ())) (\<lambda>_.
     if Nameservers c \<noteq> [] then write_resolv_conf (Nameservers c) else State_Monad.return (Inr ()))))"

definition netif_Start :: "NetifConfig \<Rightarrow> (os, os_error + unit) state" where
  "netif_Start c =
     try_then (must PipeFailed Pipe) (\<lambda>_.
       if Mode c = ''dhcp'' then do { ignore (RunForever [''udhcpc'', ''-i'', netif_Name c, ''-f'']); State_Monad.return (Inr ()) }
       else if Mode c = ''static'' then do { r \<leftarrow> netif_static c; ignore ClosePipe; State_Monad.return r }
       else do { ignore ClosePipe; State_Monad.return (Inl (UnknownMode (Mode c))) })"

section \<open>Permissions and sysctls\<close>

record FsPermissionConfig =
  fs_Path :: string
  fs_Name :: string
  fs_Type :: string
  Chmod :: string
  fs_Chown :: string

definition find_args :: "FsPermissionConfig \<Rightarrow> string list \<Rightarrow> string list" where
  "find_args c execCmd =
     [''find'', fs_Path c]
     @ (if fs_Name c \<noteq> [] then [''-name'', fs_Name c] else [])
     @ (if fs_Type c \<noteq> [] then [''-type'', fs_Type c] else [])
     @ [''-exec''] @ execCmd"

definition fs_permission_Apply :: "FsPermissionConfig \<Rightarrow> (os, unit) state" where
  "fs_permission_Apply c = do {
     (if Chmod c \<noteq> [] then ignore (Exec (find_args c [''chmod'', Chmod c, ''{}'', '';'']) []) else State_Monad.return ());
     (if fs_Chown c \<noteq> [] then ignore (Exec (find_args c [''chown'', fs_Chown c, ''{}'', '';'']) []) else State_Monad.return ()) }"

record SysctlConfig =
  sysctl_Name :: string
  sysctl_Value :: string

definition sysctl_Apply :: "SysctlConfig \<Rightarrow> (os, unit) state" where
  "sysctl_Apply c = ignore (Exec [''sysctl'', ''-w'', sysctl_Name c @ ''='' @ sysctl_Value c] [])"

section \<open>Lemmas\<close>

lemma rel_run_with_secret:
  "length d = length d' \<Longrightarrow> rel_run (rel_sum (=) (=)) (run_with_secret n d argv) (run_with_secret n d' argv)"
  unfolding run_with_secret_def by (rule memfd_buffer.run_with_buffer)

text \<open>Configurations that differ in nothing but the characters of the keys.\<close>

definition peer_alike :: "WireguardPeer \<Rightarrow> WireguardPeer \<Rightarrow> bool" where
  "peer_alike p q \<longleftrightarrow> PublicKey p = PublicKey q \<and> AllowedIPs p = AllowedIPs q \<and> Endpoint p = Endpoint q
     \<and> PersistentKeepalive p = PersistentKeepalive q \<and> length (PresharedKey p) = length (PresharedKey q)"

definition wg_alike :: "WireguardConfig \<Rightarrow> WireguardConfig \<Rightarrow> bool" where
  "wg_alike c d \<longleftrightarrow> Interface c = Interface d \<and> Addresses c = Addresses d
     \<and> length (PrivateKey c) = length (PrivateKey d) \<and> list_all2 peer_alike (Peers c) (Peers d)"

lemma peer_args_alike: "peer_alike p q \<Longrightarrow> peer_args ifc p = peer_args ifc q"
  using length_0_conv [of "PresharedKey p"] length_0_conv [of "PresharedKey q"]
  by (auto simp: peer_alike_def peer_args_def simp del: length_0_conv)

lemma rel_run_wireguard:
  assumes "wg_alike c d"
  shows "rel_run (rel_sum (=) (=)) (wireguard_Apply c) (wireguard_Apply d)"
proof -
  note a = assms [unfolded wg_alike_def]
  have peers: "rel_run (rel_sum (=) (=))
      (try_each (Peers c) (\<lambda>peer. try_then (run_with_secret n (bytes_of (PresharedKey peer)) (peer_args ifc peer)) (\<lambda>_. State_Monad.return (Inr ()))))
      (try_each (Peers d) (\<lambda>peer. try_then (run_with_secret n (bytes_of (PresharedKey peer)) (peer_args ifc peer)) (\<lambda>_. State_Monad.return (Inr ()))))"
    for n ifc
  proof (rule rel_run_try_each [where Q = peer_alike])
    fix p q
    assume "peer_alike p q"
    then show "rel_run (rel_sum (=) (=))
        (try_then (run_with_secret n (bytes_of (PresharedKey p)) (peer_args ifc p)) (\<lambda>_. State_Monad.return (Inr ())))
        (try_then (run_with_secret n (bytes_of (PresharedKey q)) (peer_args ifc q)) (\<lambda>_. State_Monad.return (Inr ())))"
      unfolding peer_args_alike [OF \<open>peer_alike p q\<close>]
      by (intro rel_run_try_then [OF rel_run_with_secret] rel_run_return) (auto simp: peer_alike_def)
  qed (use a in simp)
  have addrs: "rel_run (=) (for_each (Addresses c) (\<lambda>addr. ignore (Exec (f addr) []))) (for_each (Addresses d) (\<lambda>addr. ignore (Exec (f addr) [])))"
    for f using a by (intro rel_run_for_each [where Q = "(=)"]) (auto simp: list.rel_eq intro: rel_run_ignore)
  have key: "length (bytes_of (PrivateKey c)) = length (bytes_of (PrivateKey d))" using a by simp
  have ifc: "Interface c = Interface d" using a by simp
  show ?thesis
    unfolding wireguard_Apply_def ifc
  proof (rule rel_run_try_then [OF rel_run_must [OF refl]], rule rel_run_bind [OF addrs],
      rule rel_run_try_then [OF rel_run_with_secret [OF key]])
    fix ok ok' :: bool
    assume "ok = ok'"
    then show "rel_run (rel_sum (=) (=))
        (if \<not> ok then State_Monad.return (Inl (CommandFailed ''wg set''))
         else try_then (try_each (Peers c) (\<lambda>peer. try_then (run_with_secret ''preshared-key.pem'' (bytes_of (PresharedKey peer)) (peer_args (Interface d) peer))
                  (\<lambda>_. State_Monad.return (Inr ()))))
             (\<lambda>_. must (CommandFailed ''ip link set'') (Exec [''ip'', ''link'', ''set'', Interface d, ''up''] [])))
        (if \<not> ok' then State_Monad.return (Inl (CommandFailed ''wg set''))
         else try_then (try_each (Peers d) (\<lambda>peer. try_then (run_with_secret ''preshared-key.pem'' (bytes_of (PresharedKey peer)) (peer_args (Interface d) peer))
                  (\<lambda>_. State_Monad.return (Inr ()))))
             (\<lambda>_. must (CommandFailed ''ip link set'') (Exec [''ip'', ''link'', ''set'', Interface d, ''up''] [])))"
      by (auto intro!: rel_run_try_then [OF peers] rel_run_must rel_run_return)
  qed
qed

lemma rel_run_disk:
  assumes "Device c = Device d" "EncryptedDevice c = EncryptedDevice d" "Mountpoint c = Mountpoint d"
    and "base64_decode (bytes_of (LuksKey c)) = Some k" "base64_decode (bytes_of (LuksKey d)) = Some k'" "length k = length k'"
  shows "rel_run (rel_sum (=) (=)) (disk_Open c) (disk_Open d)"
proof -
  have args: "luksOpen_args c = luksOpen_args d" "mount_args c = mount_args d"
    using assms(1-3) by (simp_all add: luksOpen_args_def mount_args_def)
  show ?thesis
    unfolding disk_Open_def assms(4,5) args assms(3) option.case
    by (rule rel_run_try_then [OF memfd_buffer.hidden [OF assms(6)]],
        rule rel_run_bind [where Q = "rel_sum (=) (=)"])
       (auto intro!: rel_run_try_then [OF rel_run_must] rel_run_bind [OF rel_run_ignore] rel_run_must rel_run_return)
qed

lemma alike_fresh: "blind f \<Longrightarrow> alike \<lparr>answers = f, trace = []\<rparr> \<lparr>answers = f, trace = []\<rparr>"
  by (simp add: alike_def)

lemma rel_run_fresh:
  assumes "rel_run (rel_sum (=) (=)) m m'" "blind f"
  shows "map public (trace (snd (run_state m \<lparr>answers = f, trace = []\<rparr>))) =
      map public (trace (snd (run_state m' \<lparr>answers = f, trace = []\<rparr>)))
    \<and> fst (run_state m \<lparr>answers = f, trace = []\<rparr>) = fst (run_state m' \<lparr>answers = f, trace = []\<rparr>)"
proof -
  let ?s = "\<lparr>answers = f, trace = []\<rparr>"
  obtain x t x' t' where r: "run_state m ?s = (x, t)" "run_state m' ?s = (x', t')" by fastforce
  from rel_runD [OF assms(1) alike_fresh [OF assms(2)] r] show ?thesis
    using r by (simp add: sum.rel_eq alike_def)
qed

fun is_exec :: "os_event \<Rightarrow> bool" where
  "is_exec (Exec _ _) = True"
| "is_exec _ = False"

lemma emits_NewMemfd: "emits (\<lambda>e. \<not> is_exec e) (NewMemfdReadonlyBuffer name data)"
proof -
  have "emits (\<lambda>e. \<not> is_exec e) (writeAndSeal m data)" for m
    unfolding writeAndSeal_calls by (auto intro!: emits_rules simp: Let_def)
  then show ?thesis
    unfolding NewMemfdReadonlyBuffer_def by (auto intro!: emits_rules split: sum.splits)
qed

lemma run_NewMemfd_trace:
  assumes "run_state (NewMemfdReadonlyBuffer name data) s = (r, s')"
  shows "answers s' = answers s \<and> (\<exists>es. trace s' = trace s @ es \<and> list_all (\<lambda>e. \<not> is_exec e) es)"
  using emits_NewMemfd [of name data] assms unfolding emits_def by (metis snd_conv)

lemma run_try_each_must:
  "run_state (try_each xs (\<lambda>x. must err (ev x))) s = (Inr (), s') \<Longrightarrow>
     trace s' = trace s @ map ev xs \<and> answers s' = answers s"
  by (induction xs arbitrary: s) (auto simp: os_simps split: if_splits)

text \<open>The contents of a file after the calls of a trace have succeeded.\<close>

fun file_after :: "string \<Rightarrow> bytes \<Rightarrow> os_event list \<Rightarrow> bytes" where
  "file_after p old [] = old"
| "file_after p old (OpenTruncate q # es) = file_after p (if q = p then [] else old) es"
| "file_after p old (AppendTo q b # es) = file_after p (if q = p then old @ b else old) es"
| "file_after p old (_ # es) = file_after p old es"

lemma file_after_append: "file_after p old (xs @ ys) = file_after p (file_after p old xs) ys"
  by (induction p old xs rule: file_after.induct) simp_all

lemma file_after_appends: "file_after p old (map (\<lambda>x. AppendTo p (f x)) xs) = old @ concat (map f xs)"
  by (induction xs arbitrary: old) simp_all

lemma run_write_resolv_conf:
  assumes "run_state (write_resolv_conf nss) s = (Inr (), s')"
  shows "file_after resolv_conf old (trace s') = concat (map nameserver_line nss)"
proof -
  let ?s = "s\<lparr>trace := trace s @ [OpenTruncate resolv_conf]\<rparr>"
  obtain s1 where "run_state (try_each nss (\<lambda>ns. must WriteFailed (AppendTo resolv_conf (nameserver_line ns)))) ?s = (Inr (), s1)"
    "trace s' = trace s1 @ [CloseFd resolv_conf]"
    using assms by (auto simp: write_resolv_conf_def os_simps split: if_splits prod.splits)
  with run_try_each_must [where ev = "\<lambda>ns. AppendTo resolv_conf (nameserver_line ns)"]
  have "trace s' = trace s @ [OpenTruncate resolv_conf] @ map (\<lambda>ns. AppendTo resolv_conf (nameserver_line ns)) nss @ [CloseFd resolv_conf]"
    by fastforce
  then show ?thesis by (simp add: file_after_append file_after_appends)
qed

fun execs :: "os_event list \<Rightarrow> (string list \<times> bytes list) list" where
  "execs [] = []"
| "execs (Exec argv fds # es) = (argv, map contents fds) # execs es"
| "execs (_ # es) = execs es"

lemma execs_append: "execs (xs @ ys) = execs xs @ execs ys"
  by (induction xs rule: execs.induct) simp_all

text \<open>A system that accepts every call.\<close>

definition willing :: "os_event list \<Rightarrow> os" where
  "willing t = \<lparr>answers = (\<lambda>_ _. True), trace = t\<rparr>"

lemma willing_exec [simp]: "answers (willing t) u e" "trace (willing t) = t" "(willing t)\<lparr>trace := u\<rparr> = willing u"
  by (simp_all add: willing_def)

lemma willing_memfd:
  "\<exists>es. run_state (NewMemfdReadonlyBuffer n d) (willing t) =
     (Inr \<lparr>mfd_name = n, contents = d, seals = all_seals\<rparr>, willing (t @ es)) \<and> execs es = []"
  by (auto simp: NewMemfdReadonlyBuffer_def writeAndSeal_calls os_simps written_file sealed_file)

lemma willing_secret:
  "\<exists>es. run_state (run_with_secret n d argv) (willing t) = (Inr True, willing (t @ es)) \<and> execs es = [(argv, [d])]"
  using willing_memfd [of n d t] by (auto simp: run_with_secret_def os_simps execs_append)

lemma willing_for_each [simp]:
  "run_state (for_each xs (\<lambda>x. ignore (Exec (g x) []))) (willing t) = ((), willing (t @ map (\<lambda>x. Exec (g x) []) xs))"
  by (induction xs arbitrary: t) (simp_all add: os_simps)

lemma execs_plain: "execs (map (\<lambda>x. Exec (g x) []) xs) = map (\<lambda>x. (g x, [])) xs"
  by (induction xs) simp_all

lemma willing_peers:
  "\<exists>es. run_state (try_each ps (\<lambda>p. try_then (run_with_secret n (d p) (g p)) (\<lambda>_. State_Monad.return (Inr ())))) (willing t) =
     (Inr (), willing (t @ es)) \<and> execs es = map (\<lambda>p. (g p, [d p])) ps"
proof (induction ps arbitrary: t)
  case (Cons p ps)
  obtain es1 where "run_state (run_with_secret n (d p) (g p)) (willing t) = (Inr True, willing (t @ es1))"
    "execs es1 = [(g p, [d p])]" using willing_secret by blast
  moreover obtain es2 where "run_state (try_each ps (\<lambda>p. try_then (run_with_secret n (d p) (g p)) (\<lambda>_. State_Monad.return (Inr ()))))
      (willing (t @ es1)) = (Inr (), willing ((t @ es1) @ es2))" "execs es2 = map (\<lambda>p. (g p, [d p])) ps"
    using Cons by blast
  ultimately show ?case by (auto simp: os_simps execs_append)
qed (auto intro: exI [of _ "[]"])

section \<open>Properties\<close>

text \<open>
  C24: WireGuard keys stay out of sight: two configurations that differ only in the characters of
  their private and preshared keys, each key having the same length in both, lead to the same calls
  and commands with the same arguments in the same order, the sizes given to \<open>ftruncate\<close>, \<open>mmap\<close> and
  \<open>munmap\<close> included, and to the same result, as long as the system itself does not react to the
  contents of the keys.
\<close>

theorem wireguard_keys_hidden:
  assumes "wg_alike c d" "blind f"
  shows "map public (trace (snd (run_state (wireguard_Apply c) \<lparr>answers = f, trace = []\<rparr>))) =
      map public (trace (snd (run_state (wireguard_Apply d) \<lparr>answers = f, trace = []\<rparr>)))
    \<and> fst (run_state (wireguard_Apply c) \<lparr>answers = f, trace = []\<rparr>) =
      fst (run_state (wireguard_Apply d) \<lparr>answers = f, trace = []\<rparr>)"
  by (rule rel_run_fresh [OF rel_run_wireguard [OF assms(1)] assms(2)])

text \<open>
  The same of the disk keys: opening a disk with one or another decodable key of the same length
  looks the same from outside.
\<close>

lemma disk_key_hidden:
  assumes "Device c = Device d" "EncryptedDevice c = EncryptedDevice d" "Mountpoint c = Mountpoint d"
    and "base64_decode (bytes_of (LuksKey c)) = Some k" "base64_decode (bytes_of (LuksKey d)) = Some k'"
    and "length k = length k'" "blind f"
  shows "map public (trace (snd (run_state (disk_Open c) \<lparr>answers = f, trace = []\<rparr>))) =
      map public (trace (snd (run_state (disk_Open d) \<lparr>answers = f, trace = []\<rparr>)))
    \<and> fst (run_state (disk_Open c) \<lparr>answers = f, trace = []\<rparr>) = fst (run_state (disk_Open d) \<lparr>answers = f, trace = []\<rparr>)"
  by (rule rel_run_fresh [OF rel_run_disk [OF assms(1-6)] assms(7)])

text \<open>
  C25: A disk is mounted only after \<^verbatim>\<open>cryptsetup luksOpen\<close> has succeeded, and that command was given
  exactly the decoded key in a sealed file as descriptor 3.
\<close>

theorem disk_mount_after_unlock:
  assumes "Exec (mount_args c) [] \<in> set (trace (snd (run_state (disk_Open c) \<lparr>answers = f, trace = []\<rparr>)))"
  shows "\<exists>key t. base64_decode (bytes_of (LuksKey c)) = Some key
    \<and> f t (Exec (luksOpen_args c) [\<lparr>mfd_name = ''luks-key'', contents = key, seals = all_seals\<rparr>])
    \<and> prefix (t @ [Exec (luksOpen_args c) [\<lparr>mfd_name = ''luks-key'', contents = key, seals = all_seals\<rparr>]])
        (trace (snd (run_state (disk_Open c) \<lparr>answers = f, trace = []\<rparr>)))"
proof -
  let ?s = "\<lparr>answers = f, trace = []\<rparr>"
  from assms obtain key where k: "base64_decode (bytes_of (LuksKey c)) = Some key"
    by (auto simp: disk_Open_def split: option.splits)
  obtain r s1 where r: "run_state (NewMemfdReadonlyBuffer ''luks-key'' key) ?s = (r, s1)" by fastforce
  from run_NewMemfd_trace [OF r] have s1: "answers s1 = f" "list_all (\<lambda>e. \<not> is_exec e) (trace s1)" by auto
  then have no: "Exec a fds \<notin> set (trace s1)" for a fds by (auto simp: list_all_iff)
  show ?thesis
  proof (cases r)
    case (Inl e)
    with assms k r no show ?thesis by (simp add: disk_Open_def os_simps)
  next
    case (Inr fd)
    have "mount_args c \<noteq> luksOpen_args c" by (simp add: mount_args_def luksOpen_args_def)
    then have "f (trace s1) (Exec (luksOpen_args c) [fd])"
      using assms k r no Inr s1(1) by (auto simp: disk_Open_def os_simps split: if_splits)
    moreover have "fd = \<lparr>mfd_name = ''luks-key'', contents = key, seals = all_seals\<rparr>" using run_NewMemfd r Inr by simp
    ultimately show ?thesis
      using k r Inr s1(1) by (intro exI [of _ key] exI [of _ "trace s1"]) (auto simp: disk_Open_def os_simps prefix_def)
  qed
qed

text \<open>
  C31: With a system that accepts every call, applying a WireGuard configuration runs exactly the
  source's commands in order, each peer after the private key and the interface brought up last,
  and every key reaches its command byte for byte.
\<close>

theorem wireguard_commands:
  "execs (trace (snd (run_state (wireguard_Apply c) (willing [])))) =
     [([''ip'', ''link'', ''add'', Interface c, ''type'', ''wireguard''], [])]
     @ map (\<lambda>addr. ([''ip'', ''addr'', ''add'', addr, ''dev'', Interface c], [])) (Addresses c)
     @ [(private_key_args (Interface c), [bytes_of (PrivateKey c)])]
     @ map (\<lambda>p. (peer_args (Interface c) p, [bytes_of (PresharedKey p)])) (Peers c)
     @ [([''ip'', ''link'', ''set'', Interface c, ''up''], [])]"
proof -
  let ?t1 = "Exec [''ip'', ''link'', ''add'', Interface c, ''type'', ''wireguard''] []
    # map (\<lambda>addr. Exec [''ip'', ''addr'', ''add'', addr, ''dev'', Interface c] []) (Addresses c)"
  obtain es1 where 1: "run_state (run_with_secret ''private-key.pem'' (bytes_of (PrivateKey c)) (private_key_args (Interface c)))
      (willing ?t1) = (Inr True, willing (?t1 @ es1))"
    "execs es1 = [(private_key_args (Interface c), [bytes_of (PrivateKey c)])]"
    using willing_secret by blast
  obtain es2 where 2: "run_state (try_each (Peers c) (\<lambda>p. try_then (run_with_secret ''preshared-key.pem'' (bytes_of (PresharedKey p))
        (peer_args (Interface c) p)) (\<lambda>_. State_Monad.return (Inr ())))) (willing (?t1 @ es1)) = (Inr (), willing ((?t1 @ es1) @ es2))"
    "execs es2 = map (\<lambda>p. (peer_args (Interface c) p, [bytes_of (PresharedKey p)])) (Peers c)"
    using willing_peers [of "Peers c" "''preshared-key.pem''" "\<lambda>p. bytes_of (PresharedKey p)" "peer_args (Interface c)" "?t1 @ es1"]
    by blast
  have "trace (snd (run_state (wireguard_Apply c) (willing []))) =
      ?t1 @ es1 @ es2 @ [Exec [''ip'', ''link'', ''set'', Interface c, ''up''] []]"
    using 1(1) 2(1) by (simp add: wireguard_Apply_def os_simps willing_exec)
  then show ?thesis using 1(2) 2(2) by (simp add: execs_append execs_plain)
qed

text \<open>
  C32: When a static interface with nameservers is set up without error, \<^verbatim>\<open>/etc/resolv.conf\<close> holds
  exactly one line per configured nameserver, in order, whatever it held before and however the
  system behaved otherwise.
\<close>

theorem netif_static_resolv_conf:
  assumes "run_state (netif_Start c) s = (Inr (), s')" "Mode c = ''static''" "Nameservers c \<noteq> []"
  shows "file_after resolv_conf old (trace s') = concat (map nameserver_line (Nameservers c))"
proof -
  obtain s1 s2 where w: "run_state (write_resolv_conf (Nameservers c)) s1 = (Inr (), s2)" "trace s' = trace s2 @ [ClosePipe]"
    using assms by (auto simp: netif_Start_def netif_static_def os_simps split: if_splits prod.splits sum.splits)
  from run_write_resolv_conf [OF w(1)] w(2) show ?thesis by (simp add: file_after_append)
qed

section \<open>Witnesses\<close>

definition demo_wg :: "string \<Rightarrow> WireguardConfig" where
  "demo_wg key = \<lparr>Interface = ''wg0'', PrivateKey = key, Addresses = [''10.0.0.1/24''],
     Peers = [\<lparr>PublicKey = ''P'', AllowedIPs = [''10.0.0.0/24''], Endpoint = ''h:1'', PresharedKey = key, PersistentKeepalive = 25\<rparr>]\<rparr>"

theorem wireguard_keys_hidden_witness:
  "map public (trace (snd (run_state (wireguard_Apply (demo_wg ''a'')) \<lparr>answers = (\<lambda>_ _. True), trace = []\<rparr>))) =
     map public (trace (snd (run_state (wireguard_Apply (demo_wg ''b'')) \<lparr>answers = (\<lambda>_ _. True), trace = []\<rparr>)))"
  using wireguard_keys_hidden [of "demo_wg ''a''" "demo_wg ''b''" "\<lambda>_ _. True"]
  by (simp add: wg_alike_def peer_alike_def demo_wg_def blind_def)

definition demo_disk :: "string \<Rightarrow> DiskConfig" where
  "demo_disk key = \<lparr>Device = ''/dev/sda1'', EncryptedDevice = ''data'', Mountpoint = ''/data'', LuksKey = key\<rparr>"

lemma demo_disk_keys:
  "base64_decode (bytes_of (LuksKey (demo_disk ''AAAA''))) = Some [0, 0, 0]"
  "base64_decode (bytes_of (LuksKey (demo_disk ''AAAB''))) = Some [0, 0, 1]"
  by (simp_all add: demo_disk_def bytes_of_def base64_decode_def b64_val_def b64_word_def)

lemma disk_key_hidden_example:
  "map public (trace (snd (run_state (disk_Open (demo_disk ''AAAA'')) \<lparr>answers = (\<lambda>_ _. True), trace = []\<rparr>))) =
     map public (trace (snd (run_state (disk_Open (demo_disk ''AAAB'')) \<lparr>answers = (\<lambda>_ _. True), trace = []\<rparr>)))"
  using disk_key_hidden [OF _ _ _ demo_disk_keys, of "\<lambda>_ _. True"] by (simp add: demo_disk_def blind_def)

theorem disk_mount_after_unlock_witness:
  "\<exists>t. prefix (t @ [Exec (luksOpen_args (demo_disk ''AAAA'')) [\<lparr>mfd_name = ''luks-key'', contents = [0, 0, 0], seals = all_seals\<rparr>]])
        (trace (snd (run_state (disk_Open (demo_disk ''AAAA'')) \<lparr>answers = (\<lambda>_ _. True), trace = []\<rparr>)))"
proof -
  have "Exec (mount_args (demo_disk ''AAAA'')) [] \<in> set (trace (snd (run_state (disk_Open (demo_disk ''AAAA'')) \<lparr>answers = (\<lambda>_ _. True), trace = []\<rparr>)))"
    using demo_disk_keys by (simp add: disk_Open_def NewMemfdReadonlyBuffer_def writeAndSeal_calls os_simps)
  from disk_mount_after_unlock [OF this] demo_disk_keys show ?thesis by auto
qed

definition demo_netif :: NetifConfig where
  "demo_netif = \<lparr>netif_Name = ''eth0'', Mode = ''static'', Ipv4Address = ''10.0.0.2/24'', Ipv4Gateway = [], Nameservers = [''1.1.1.1'']\<rparr>"

theorem netif_static_resolv_conf_witness:
  "\<exists>s'. run_state (netif_Start demo_netif) \<lparr>answers = (\<lambda>_ _. True), trace = []\<rparr> = (Inr (), s')
     \<and> file_after resolv_conf [65] (trace s') = bytes_of ''nameserver 1.1.1.1'' @ [10]"
proof -
  obtain s' where s': "run_state (netif_Start demo_netif) \<lparr>answers = (\<lambda>_ _. True), trace = []\<rparr> = (Inr (), s')"
    by (simp add: netif_Start_def netif_static_def write_resolv_conf_def demo_netif_def os_simps)
  with netif_static_resolv_conf [OF s', of "[65]"] show ?thesis by (simp add: demo_netif_def nameserver_line_def)
qed

end
