(* ===== verification/Ssh_Server.thy ===== *)
theory Ssh_Server
  imports System_Setup Go_Sync
begin

text \<open>
  \<^verbatim>\<open>homegw-init/ssh.go\<close>: the dropbear server under \<open>/vroot\<close>. \<open>ssh_Spawn\<close> is \<open>Spawn\<close> up to the start of its
  goroutine, \<open>runOnce\<close> the closure that starts one traced dropbear, and \<open>ssh_own_step\<close> the goroutine
  that restarts it until it is told to stop, with the inner goroutines that wait for that and the
  delivery of their signal. \<open>ssh_env_step\<close> is what happens around them: processes that fork or end by
  themselves, and whoever closes the kill channel. The kexec handler waits on the completion channel
  before it goes on.
\<close>

section \<open>Starting\<close>

record SshServerConfig =
  HostKey :: string
  AuthorizedKeys :: "string list"

definition ssh_Spawn :: "SshServerConfig \<Rightarrow> (os, os_error + memfd) state" where
  "ssh_Spawn c =
     try_then (must PipeFailed Pipe) (\<lambda>_. do {
       ignore (MkdirAll ''/vroot/tmp/user/.ssh'');
       ignore (WriteFile ''/vroot/tmp/user/.ssh/authorized_keys'' (bytes_of (join [CHR 0x0A] (AuthorizedKeys c))));
       ignore (Chown ''/vroot/tmp/user'' 1000 1000);
       ignore (Chown ''/vroot/tmp/user/.ssh'' 1000 1000);
       ignore (Chown ''/vroot/tmp/user/.ssh/authorized_keys'' 1000 1000);
       case base64_decode (bytes_of (HostKey c)) of
         None \<Rightarrow> State_Monad.return (Inl DecodeFailed)
       | Some hostKeyDecoded \<Rightarrow> NewMemfdReadonlyBuffer ''host.key'' hostKeyDecoded })"

definition dropbear_args :: "string list" where
  "dropbear_args = [''dropbear'', ''-E'', ''-F'', ''-s'', ''-p'', ''22'', ''-r'', ''/proc/self/fd/3'']"

definition proc_file :: "nat \<Rightarrow> string \<Rightarrow> string" where
  "proc_file pid name = ''/proc/'' @ digits pid @ ''/'' @ name"

text \<open>\<open>pid\<close> is the process number the system assigns.\<close>

definition runOnce :: "memfd \<Rightarrow> nat \<Rightarrow> (os, os_error + nat) state" where
  "runOnce hostKey pid =
     try_then (must (CommandFailed ''dropbear'') (Start dropbear_args [hostKey])) (\<lambda>_. do {
       stopped \<leftarrow> sys (WaitStopped pid);
       if \<not> stopped then do { ignore (Kill (int pid)); State_Monad.return (Inl (CommandFailed ''wait'')) }
       else do {
         ignore (WriteFile (proc_file pid ''oom_score_adj'') (bytes_of ''0''));
         ignore (WriteFile (proc_file pid ''limits'') (bytes_of ''Max processes=300:300'' @ [10]));
         ignore (Setpriority pid 5);
         ok \<leftarrow> sys (PtraceDetach pid);
         if \<not> ok then do { ignore (Kill (int pid)); State_Monad.return (Inl (CommandFailed ''detach'')) }
         else State_Monad.return (Inr pid) } })"

section \<open>Supervision\<close>

text \<open>
  Where the supervising goroutine is: about to call \<open>runOnce\<close>, in \<open>proc.Wait()\<close>, after it, in the
  one-second sleep, or past its deferred \<open>close(killCompletion)\<close>.

  \<open>alive\<close> is the dropbear that \<open>runOnce\<close> returned last, the leader of its process group; \<open>group\<close> counts the
  other processes of that group, and \<open>hit\<close> tells whether the group was sent \<open>SIGKILL\<close>. \<open>lost\<close> is a
  dropbear that was started but could not be waited for or detached: it is sent a kill whose result
  is ignored, and nobody waits for it. \<open>orphans\<close> counts what is left of earlier groups, or was forked
  by a lost dropbear. \<open>watching\<close> is the inner goroutine that waits for the kill channel, \<open>late\<close> counts
  those whose \<open>stop\<close> channel is closed but that have not run since.
\<close>

datatype phase = Spawning | Waiting | Reaped | Sleeping | Finished

record supervisor =
  phase :: phase
  alive :: bool
  group :: nat
  hit :: bool
  lost :: bool
  orphans :: nat
  watching :: bool
  late :: nat
  kill :: "unit chan"
  killCompletion :: "unit chan"

definition new_supervisor :: supervisor where
  "new_supervisor = \<lparr>phase = Spawning, alive = False, group = 0, hit = False, lost = False, orphans = 0,
     watching = False, late = 0, kill = make_chan 0, killCompletion = make_chan 0\<rparr>"

text \<open>Whether a failed \<open>runOnce\<close> had started a process.\<close>

definition left_behind :: "os_error \<Rightarrow> bool" where
  "left_behind e \<longleftrightarrow> e \<noteq> CommandFailed ''dropbear''"

lemma runOnce_error:
  assumes "run_state (runOnce hostKey pid) w = (Inl e, w')"
  shows "if left_behind e then answers w (trace w) (Start dropbear_args [hostKey]) \<and> last (trace w') = Kill (int pid)
    else \<not> answers w (trace w) (Start dropbear_args [hostKey])"
  using assms by (auto simp: runOnce_def left_behind_def os_simps split: if_splits)

text \<open>
  \<open>kill_works\<close> tells whether \<open>syscall.Kill\<close> of the process group succeeds; when it does not, the error is
  logged and the process goes on. A watcher whose \<open>stop\<close> is closed may still take the kill branch
  once the kill channel is closed too; its signal then goes to a group whose leader is gone. \<open>dies\<close> is
  the kernel ending a leader that was sent \<open>SIGKILL\<close>. \<open>runOnce\<close> runs on any system \<open>w\<close>.
\<close>

inductive ssh_own_step :: "bool \<Rightarrow> supervisor \<Rightarrow> supervisor \<Rightarrow> bool" for kill_works where
  spawned: "phase s = Spawning \<Longrightarrow> run_state (runOnce hostKey pid) w = (Inr proc, w') \<Longrightarrow>
    ssh_own_step kill_works s (s\<lparr>phase := Waiting, alive := True, group := 0, hit := False,
      orphans := orphans s + group s, watching := True\<rparr>)"
| spawn_failed: "phase s = Spawning \<Longrightarrow> run_state (runOnce hostKey pid) w = (Inl err, w') \<Longrightarrow>
    close_chan (killCompletion s) = Inr c \<Longrightarrow>
    ssh_own_step kill_works s (s\<lparr>phase := Finished, lost := left_behind err, killCompletion := c\<rparr>)"
| fires: "watching s \<Longrightarrow> closed (kill s) \<Longrightarrow>
    ssh_own_step kill_works s (s\<lparr>watching := False, hit := hit s \<or> kill_works\<rparr>)"
| late_ends: "0 < late s \<Longrightarrow> ssh_own_step kill_works s (s\<lparr>late := late s - 1\<rparr>)"
| late_fires: "0 < late s \<Longrightarrow> closed (kill s) \<Longrightarrow> killed \<le> group s \<Longrightarrow> killed' \<le> orphans s \<Longrightarrow>
    ssh_own_step kill_works s (s\<lparr>late := late s - 1, group := group s - killed, orphans := orphans s - killed'\<rparr>)"
| dies: "alive s \<Longrightarrow> hit s \<Longrightarrow> ssh_own_step kill_works s (s\<lparr>alive := False\<rparr>)"
| reaped: "phase s = Waiting \<Longrightarrow> \<not> alive s \<Longrightarrow>
    ssh_own_step kill_works s (s\<lparr>phase := Reaped, watching := False, late := late s + of_bool (watching s)\<rparr>)"
| stops: "phase s = Reaped \<Longrightarrow> closed (kill s) \<Longrightarrow> close_chan (killCompletion s) = Inr c \<Longrightarrow>
    ssh_own_step kill_works s (s\<lparr>phase := Finished, killCompletion := c\<rparr>)"
| pauses: "phase s = Reaped \<Longrightarrow> \<not> closed (kill s) \<Longrightarrow> ssh_own_step kill_works s (s\<lparr>phase := Sleeping\<rparr>)"
| restarts: "phase s = Sleeping \<Longrightarrow> ssh_own_step kill_works s (s\<lparr>phase := Spawning\<rparr>)"

inductive ssh_env_step :: "supervisor \<Rightarrow> supervisor \<Rightarrow> bool" where
  exits: "alive s \<Longrightarrow> ssh_env_step s (s\<lparr>alive := False\<rparr>)"
| forks: "alive s \<or> 0 < group s \<Longrightarrow> \<not> hit s \<Longrightarrow> ssh_env_step s (s\<lparr>group := Suc (group s)\<rparr>)"
| member_ends: "0 < group s \<Longrightarrow> ssh_env_step s (s\<lparr>group := group s - 1\<rparr>)"
| orphan_forks: "lost s \<or> 0 < orphans s \<Longrightarrow> ssh_env_step s (s\<lparr>orphans := Suc (orphans s)\<rparr>)"
| orphan_ends: "0 < orphans s \<Longrightarrow> ssh_env_step s (s\<lparr>orphans := orphans s - 1\<rparr>)"
| lost_ends: "lost s \<Longrightarrow> ssh_env_step s (s\<lparr>lost := False\<rparr>)"
| told: "close_chan (kill s) = Inr c \<Longrightarrow> ssh_env_step s (s\<lparr>kill := c\<rparr>)"

inductive_cases ssh_own_stepE: "ssh_own_step kill_works s s'"
inductive_cases ssh_env_stepE: "ssh_env_step s s'"

definition ssh_step :: "bool \<Rightarrow> supervisor \<Rightarrow> supervisor \<Rightarrow> bool" where
  "ssh_step kill_works s s' \<longleftrightarrow> ssh_own_step kill_works s s' \<or> ssh_env_step s s'"

abbreviation ssh_steps :: "bool \<Rightarrow> supervisor \<Rightarrow> supervisor \<Rightarrow> bool" where
  "ssh_steps kill_works \<equiv> (ssh_step kill_works)\<^sup>*\<^sup>*"

text \<open>Executions in which \<open>n\<close> of the steps are the gateway's and the kernel's own.\<close>

inductive ssh_run :: "bool \<Rightarrow> nat \<Rightarrow> supervisor \<Rightarrow> supervisor \<Rightarrow> bool" for kill_works where
  run_nil: "ssh_run kill_works 0 s s"
| run_own: "ssh_run kill_works n s s' \<Longrightarrow> ssh_own_step kill_works s' s'' \<Longrightarrow> ssh_run kill_works (Suc n) s s''"
| run_env: "ssh_run kill_works n s s' \<Longrightarrow> ssh_env_step s' s'' \<Longrightarrow> ssh_run kill_works n s s''"

lemma ssh_run_steps: "ssh_run kw n s s' \<Longrightarrow> ssh_steps kw s s'"
  by (induction rule: ssh_run.induct) (auto simp: ssh_step_def intro: rtranclp.rtrancl_into_rtrancl)

section \<open>Invariant\<close>

definition supervisor_ok :: "supervisor \<Rightarrow> bool" where
  "supervisor_ok s \<longleftrightarrow> (alive s \<longrightarrow> phase s = Waiting) \<and> (watching s \<longrightarrow> phase s = Waiting)
     \<and> (closed (killCompletion s) \<longleftrightarrow> phase s = Finished) \<and> (lost s \<longrightarrow> phase s = Finished)"

lemma supervisor_ok_own: "ssh_own_step kw s s' \<Longrightarrow> supervisor_ok s \<Longrightarrow> supervisor_ok s'"
  by (induction rule: ssh_own_step.induct) (auto simp: supervisor_ok_def close_chan_def split: if_splits)

lemma supervisor_ok_env: "ssh_env_step s s' \<Longrightarrow> supervisor_ok s \<Longrightarrow> supervisor_ok s'"
  by (induction rule: ssh_env_step.induct) (auto simp: supervisor_ok_def close_chan_def split: if_splits)

lemma supervisor_ok_new: "supervisor_ok new_supervisor"
  by (simp add: supervisor_ok_def new_supervisor_def make_chan_def)

interpretation supervising: step_system "ssh_step kw" new_supervisor supervisor_ok for kw
  by unfold_locales (auto simp: ssh_step_def supervisor_ok_new intro: supervisor_ok_own supervisor_ok_env)

text \<open>With a kill that works, a watcher that is gone has hit the process it watched.\<close>

definition watched_or_hit :: "supervisor \<Rightarrow> bool" where
  "watched_or_hit s \<longleftrightarrow> supervisor_ok s \<and> (alive s \<longrightarrow> watching s \<or> hit s)"

lemma watched_or_hit_own: "ssh_own_step True s s' \<Longrightarrow> watched_or_hit s \<Longrightarrow> watched_or_hit s'"
proof -
  have "ssh_own_step True s s' \<Longrightarrow> supervisor_ok s \<Longrightarrow> alive s \<longrightarrow> watching s \<or> hit s \<Longrightarrow> alive s' \<longrightarrow> watching s' \<or> hit s'"
    by (induction rule: ssh_own_step.induct) (simp_all add: supervisor_ok_def)
  then show "ssh_own_step True s s' \<Longrightarrow> watched_or_hit s \<Longrightarrow> watched_or_hit s'"
    using supervisor_ok_own by (simp add: watched_or_hit_def)
qed

lemma watched_or_hit_env: "ssh_env_step s s' \<Longrightarrow> watched_or_hit s \<Longrightarrow> watched_or_hit s'"
  using supervisor_ok_env [of s s'] unfolding watched_or_hit_def by (auto elim: ssh_env_step.cases)

interpretation killing: step_system "ssh_step True" new_supervisor watched_or_hit
proof
  show "watched_or_hit new_supervisor" using supervisor_ok_new by (simp add: watched_or_hit_def new_supervisor_def)
qed (auto simp: ssh_step_def intro: watched_or_hit_own watched_or_hit_env)

fun phase_rank :: "phase \<Rightarrow> nat" where
  "phase_rank Sleeping = 7"
| "phase_rank Spawning = 6"
| "phase_rank Waiting = 2"
| "phase_rank Reaped = 1"
| "phase_rank Finished = 0"

definition steps_left :: "supervisor \<Rightarrow> nat" where
  "steps_left s = phase_rank (phase s) + of_bool (alive s) + 2 * of_bool (watching s) + late s"

lemma steps_left_own:
  "ssh_own_step kw s s' \<Longrightarrow> supervisor_ok s \<Longrightarrow> closed (kill s) \<Longrightarrow> steps_left s' < steps_left s \<and> closed (kill s')"
  by (induction rule: ssh_own_step.induct) (auto simp: steps_left_def supervisor_ok_def)

lemma steps_left_env: "ssh_env_step s s' \<Longrightarrow> closed (kill s) \<Longrightarrow> steps_left s' \<le> steps_left s \<and> closed (kill s')"
  by (induction rule: ssh_env_step.induct) (auto simp: steps_left_def close_chan_def)

lemma steps_left_bound: "supervisor_ok s \<Longrightarrow> steps_left s \<le> 7 + late s"
  by (cases "phase s") (auto simp: steps_left_def supervisor_ok_def)

lemma ssh_run_bounded:
  "ssh_run kw n s s' \<Longrightarrow> supervisor_ok s \<Longrightarrow> closed (kill s) \<Longrightarrow>
     n + steps_left s' \<le> steps_left s \<and> closed (kill s') \<and> supervisor_ok s'"
proof (induction rule: ssh_run.induct)
  case (run_own n s s' s'')
  then show ?case using steps_left_own [of kw s' s''] supervisor_ok_own [of kw s' s''] by fastforce
next
  case (run_env n s s' s'')
  then show ?case using steps_left_env [of s' s''] supervisor_ok_env [of s' s''] by fastforce
qed simp

lemma ssh_progress:
  assumes "watched_or_hit s" "closed (kill s)" "phase s \<noteq> Finished"
  shows "\<exists>s'. ssh_own_step True s s'"
proof -
  from assms have close: "close_chan (killCompletion s) = Inr ((killCompletion s)\<lparr>closed := True\<rparr>)"
    by (simp add: watched_or_hit_def supervisor_ok_def close_chan_def)
  show ?thesis
  proof (cases "phase s")
    case Spawning
    obtain r w' where r: "run_state (runOnce undefined 0) undefined = (r, w')" by fastforce
    with Spawning close show ?thesis by (cases r) (blast intro: ssh_own_step.spawned ssh_own_step.spawn_failed)+
  next
    case Waiting
    then show ?thesis
      using assms ssh_own_step.fires [of s True] ssh_own_step.dies [of s True] ssh_own_step.reaped [of s True]
      by (auto simp: watched_or_hit_def)
  next
    case Reaped
    with assms close show ?thesis by (blast intro: ssh_own_step.stops)
  next
    case Sleeping
    then show ?thesis by (blast intro: ssh_own_step.restarts)
  qed (use assms in simp)
qed

lemma finished_stays:
  "ssh_step kw s s' \<Longrightarrow> supervisor_ok s \<Longrightarrow> phase s = Finished \<Longrightarrow> phase s' = Finished \<and> (lost s' \<longrightarrow> lost s)"
  unfolding ssh_step_def supervisor_ok_def by (auto elim!: ssh_own_stepE ssh_env_stepE)

section \<open>Properties\<close>

text \<open>
  C27: When the completion channel is closed, which is what the kexec handler waits for, the dropbear
  that was being supervised has ended and been waited for, and none is ever started again: the
  supervisor is past its loop for good, in every interleaving with its watchers, the processes and
  the requester, even when killing fails. The only dropbear that may still be running is one whose
  start-up failed after the process existed.
\<close>

theorem ssh_completion_means_stopped:
  assumes "ssh_steps kill_works new_supervisor s" "closed (killCompletion s)" "ssh_steps kill_works s s'"
  shows "\<not> alive s' \<and> phase s' = Finished \<and> (lost s' \<longrightarrow> lost s)"
proof -
  have ok: "supervisor_ok s" using assms(1) by (rule supervising.always)
  then have "phase s = Finished" using assms(2) by (simp add: supervisor_ok_def)
  from assms(3) this ok have "phase s' = Finished \<and> (lost s' \<longrightarrow> lost s) \<and> supervisor_ok s'"
  proof (induction rule: rtranclp_induct)
    case (step t u)
    then show ?case using finished_stays [of kill_works t u] supervising.step_ok [of kill_works t u] by blast
  qed simp
  then show ?thesis by (auto simp: supervisor_ok_def)
qed

text \<open>
  What completion does not mean: a dropbear whose start-up failed is only sent a kill, and the other
  processes of the group are sent one, or none when the leader ended by itself, but not waited for.
  Both can still be running, even when every kill works.
\<close>

lemma completion_leaves_lost:
  "\<exists>s. ssh_steps kw new_supervisor s \<and> closed (killCompletion s) \<and> lost s"
proof -
  let ?w = "\<lparr>answers = (\<lambda>_ e. e \<noteq> WaitStopped 7), trace = []\<rparr>"
  let ?s = "new_supervisor\<lparr>phase := Finished, lost := True, killCompletion := (make_chan 0)\<lparr>closed := True\<rparr>\<rparr>"
  obtain w' where "run_state (runOnce undefined 7) ?w = (Inl (CommandFailed ''wait''), w')"
    by (simp add: runOnce_def os_simps)
  then have "ssh_own_step kw new_supervisor (new_supervisor\<lparr>phase := Finished, lost := left_behind (CommandFailed ''wait''),
      killCompletion := (make_chan 0)\<lparr>closed := True\<rparr>\<rparr>)"
    by (intro ssh_own_step.spawn_failed) (simp_all add: new_supervisor_def close_chan_def make_chan_def)
  then have "ssh_step kw new_supervisor ?s" by (simp add: ssh_step_def left_behind_def)
  then show ?thesis by (intro exI [of _ ?s]) auto
qed

text \<open>
  C26: Once told to stop, the supervisor ends because it was told to, whatever dropbear does: in every
  execution from there, interleaved in any way with processes that fork or end, at most seven steps
  of the gateway and of the kernel delivering its signal can still be taken, besides one for each
  watcher left over, and until the completion channel is closed one of them is possible without
  waiting for a process to end by itself, provided the process group can be killed.
\<close>

theorem ssh_kill_completes:
  assumes "ssh_steps True new_supervisor s" "closed (kill s)" "ssh_run True n s s'"
  shows "n \<le> 7 + late s \<and> (closed (killCompletion s') \<or> (\<exists>s''. ssh_own_step True s' s''))"
proof -
  have ok: "supervisor_ok s" using assms(1) by (rule supervising.always)
  from ssh_run_bounded [OF assms(3) ok assms(2)] steps_left_bound [OF ok]
  have n: "n \<le> 7 + late s" and c: "closed (kill s')" and ok': "supervisor_ok s'" by simp_all
  have "watched_or_hit s'"
    using killing.always rtranclp_trans [OF assms(1) ssh_run_steps [OF assms(3)]] by blast
  from n ssh_progress [OF this c] ok' show ?thesis by (auto simp: supervisor_ok_def)
qed

section \<open>Witnesses\<close>

text \<open>A dropbear that forked a session and then ended by itself while the requester arrived.\<close>

definition demo_serving :: supervisor where
  "demo_serving = new_supervisor\<lparr>phase := Waiting, alive := True, watching := True\<rparr>"

definition demo_told :: supervisor where
  "demo_told = demo_serving\<lparr>kill := (make_chan 0)\<lparr>closed := True\<rparr>, group := 1\<rparr>"

definition demo_stopped :: supervisor where
  "demo_stopped = demo_told\<lparr>phase := Finished, alive := False, watching := False, late := 1, killCompletion := (make_chan 0)\<lparr>closed := True\<rparr>\<rparr>"

lemmas demo_ssh = demo_stopped_def demo_told_def demo_serving_def new_supervisor_def make_chan_def close_chan_def ssh_step_def

lemma demo_serving_reachable: "ssh_steps kw new_supervisor demo_serving"
proof -
  obtain w' where "run_state (runOnce undefined 7) (willing []) = (Inr 7, w')"
    by (simp add: runOnce_def os_simps)
  from ssh_own_step.spawned [OF _ this, of new_supervisor kw] show ?thesis
    by (intro r_into_rtranclp) (simp add: demo_ssh)
qed

lemma demo_told_reachable: "ssh_steps kw new_supervisor demo_told"
proof -
  have "ssh_step kw demo_serving (demo_serving\<lparr>group := Suc 0\<rparr>)"
    using ssh_env_step.forks [of demo_serving] by (simp add: demo_ssh)
  moreover have "ssh_step kw (demo_serving\<lparr>group := Suc 0\<rparr>) demo_told"
    using ssh_env_step.told [of "demo_serving\<lparr>group := Suc 0\<rparr>"] by (simp add: demo_ssh)
  ultimately show ?thesis using demo_serving_reachable [of kw] by (meson rtranclp.rtrancl_into_rtrancl)
qed

lemma demo_stopped_reached: "ssh_run kw 2 demo_told demo_stopped"
proof -
  let ?a = "demo_told\<lparr>alive := False\<rparr>"
  let ?b = "?a\<lparr>phase := Reaped, watching := False, late := 1\<rparr>"
  have "ssh_run kw 0 demo_told ?a"
    using ssh_run.run_env [OF ssh_run.run_nil ssh_env_step.exits [of demo_told]] by (simp add: demo_ssh)
  moreover have "ssh_own_step kw ?a ?b"
    using ssh_own_step.reaped [of ?a kw] by (simp add: demo_ssh)
  moreover have "ssh_own_step kw ?b demo_stopped"
    using ssh_own_step.stops [of ?b] by (simp add: demo_ssh)
  ultimately show ?thesis by (auto intro: ssh_run.run_own simp: numeral_2_eq_2)
qed

lemma completion_leaves_group:
  "\<exists>s. ssh_steps kw new_supervisor s \<and> closed (kill s) \<and> closed (killCompletion s) \<and> 0 < group s"
  using rtranclp_trans [OF demo_told_reachable ssh_run_steps [OF demo_stopped_reached]]
  by (intro exI [of _ demo_stopped]) (simp add: demo_ssh)

theorem ssh_completion_means_stopped_witness: "\<not> alive demo_stopped \<and> phase demo_stopped = Finished"
  using ssh_completion_means_stopped [OF rtranclp_trans [OF demo_told_reachable ssh_run_steps [OF demo_stopped_reached [of True]]] _ rtranclp.rtrancl_refl]
  by (simp add: demo_ssh)

theorem ssh_kill_completes_witness: "\<exists>s'. ssh_own_step True demo_told s'"
  using ssh_kill_completes [OF demo_told_reachable _ ssh_run.run_nil] by (simp add: demo_ssh)

end
