(* ===== verification/Netboot.thy ===== *)
theory Netboot
  imports Go_Encoding
begin

text \<open>
  \<^verbatim>\<open>homegw-libs/netboot/lib.go\<close>: the TFTP server. The handler refuses names with two dots in a row and
  opens \<open>path.Join(root, filename)\<close>; \<open>path.Join\<close> and \<open>path.Clean\<close> of the Go library are modelled on the
  path's elements. What the file system holds and whether the transfer succeeds is the environment's.
\<close>

section \<open>strings.Contains, path.Clean and path.Join\<close>

fun contains :: "string \<Rightarrow> string \<Rightarrow> bool" where
  "contains [] sub = (sub = [])"
| "contains (c # cs) sub = (prefix sub (c # cs) \<or> contains cs sub)"

definition elements :: "string \<Rightarrow> string list" where
  "elements path = filter (\<lambda>e. e \<noteq> [] \<and> e \<noteq> ''.'') (split_on CHR ''/'' path)"

text \<open>The cleaned elements, last first; a leading \<open>..\<close> of a rooted path is dropped.\<close>

fun clean_stack :: "bool \<Rightarrow> string list \<Rightarrow> string list \<Rightarrow> string list" where
  "clean_stack rooted st [] = st"
| "clean_stack rooted st (e # es) =
     (if e = ''..'' then
        (case st of
           [] \<Rightarrow> clean_stack rooted (if rooted then [] else [''..'']) es
         | e' # st' \<Rightarrow> if e' = ''..'' then clean_stack rooted (''..'' # st) es else clean_stack rooted st' es)
      else clean_stack rooted (e # st) es)"

definition is_rooted :: "string \<Rightarrow> bool" where
  "is_rooted path \<longleftrightarrow> path \<noteq> [] \<and> hd path = CHR ''/''"

definition cleaned :: "string \<Rightarrow> string list" where
  "cleaned path = rev (clean_stack (is_rooted path) [] (elements path))"

fun join_elements :: "string list \<Rightarrow> string" where
  "join_elements [] = []"
| "join_elements [e] = e"
| "join_elements (e # f # es) = e @ CHR ''/'' # join_elements (f # es)"

definition Clean :: "string \<Rightarrow> string" where
  "Clean path =
     (let out = (if is_rooted path then [CHR ''/''] else []) @ join_elements (cleaned path)
      in if out = [] then ''.'' else out)"

definition Join :: "string \<Rightarrow> string \<Rightarrow> string" where
  "Join root filename =
     (if root = [] \<and> filename = [] then []
      else if root = [] then Clean filename
      else Clean (root @ CHR ''/'' # filename))"

section \<open>The handler\<close>

record NetbootConfig =
  TftpRoot :: string

datatype tftp_result = InvalidFilename | OpenError string | ReadError string | Served string nat

record tftp_env =
  open_file :: "string \<Rightarrow> bytes option"
  read_from :: "bytes \<Rightarrow> nat option"

definition tftp_read :: "tftp_env \<Rightarrow> string \<Rightarrow> string \<Rightarrow> tftp_result" where
  "tftp_read env root filename =
     (if contains filename ''..'' then InvalidFilename
      else
        (let path = Join root filename in
         case open_file env path of
           None \<Rightarrow> OpenError path
         | Some file \<Rightarrow> (case read_from env file of None \<Rightarrow> ReadError path | Some n \<Rightarrow> Served path n)))"

section \<open>Lemmas\<close>

lemma contains_iff: "contains s sub \<longleftrightarrow> (\<exists>pre post. s = pre @ sub @ post)"
proof (induction s)
  case (Cons c cs)
  show ?case
  proof
    assume "contains (c # cs) sub"
    then consider "prefix sub (c # cs)" | "contains cs sub" by auto
    then show "\<exists>pre post. c # cs = pre @ sub @ post"
    proof cases
      case 1
      then show ?thesis by (metis append_Nil prefixE)
    next
      case 2
      with Cons show ?thesis by (metis append_Cons)
    qed
  next
    assume "\<exists>pre post. c # cs = pre @ sub @ post"
    then obtain pre post where "c # cs = pre @ sub @ post" by blast
    then have "prefix sub (c # cs) \<or> (\<exists>pre post. cs = pre @ sub @ post)"
      by (cases pre) (simp_all, blast)
    with Cons show "contains (c # cs) sub" by simp
  qed
qed auto

lemma split_on_append: "split_on d (xs @ d # ys) = split_on d xs @ split_on d ys"
  by (induction xs) (auto split: list.splits)

lemma split_on_parts: "e \<in> set (split_on d s) \<Longrightarrow> \<exists>pre post. s = pre @ e @ post"
proof (induction s arbitrary: e)
  case (Cons c s)
  obtain p ps where p: "split_on d s = p # ps" using split_on_nonempty by (cases "split_on d s") auto
  then have "p = takeWhile (\<lambda>c. c \<noteq> d) s" using hd_split_on [of d s] by simp
  then have hd: "s = p @ dropWhile (\<lambda>c. c \<noteq> d) s" by simp
  consider "e = []" | "e \<in> set (split_on d s)" | "e = c # p"
    using Cons.prems p by (auto split: if_splits)
  then show ?case
  proof cases
    case 1
    then show ?thesis by (metis append_Nil append_Nil2)
  next
    case 2
    with Cons.IH show ?thesis by (metis append_Cons)
  next
    case 3
    with hd show ?thesis by (metis append_Cons append_Nil)
  qed
qed auto

lemma clean_stack_append: "clean_stack r st (xs @ ys) = clean_stack r (clean_stack r st xs) ys"
  by (induction r st xs rule: clean_stack.induct) (auto split: list.splits)

lemma clean_stack_plain: "''..'' \<notin> set es \<Longrightarrow> clean_stack r st es = rev es @ st"
  by (induction es arbitrary: st) auto

lemma elements_join: "elements (root @ CHR ''/'' # f) = elements root @ elements f"
  by (simp add: elements_def split_on_append)

lemma no_dotdot_elements: "\<not> contains f ''..'' \<Longrightarrow> ''..'' \<notin> set (elements f)"
  using split_on_parts [of "''..''" "CHR ''/''" f] by (auto simp: elements_def contains_iff)

lemma cleaned_join:
  assumes "root \<noteq> []" "\<not> contains f ''..''"
  shows "cleaned (root @ CHR ''/'' # f) = cleaned root @ elements f"
proof -
  have "is_rooted (root @ CHR ''/'' # f) = is_rooted root" using assms(1) by (simp add: is_rooted_def)
  then show ?thesis
    using clean_stack_plain [OF no_dotdot_elements [OF assms(2)]]
    by (simp add: cleaned_def elements_join clean_stack_append)
qed

lemma join_elements_append:
  "xs \<noteq> [] \<Longrightarrow> join_elements (xs @ ys) = join_elements xs @ concat (map (\<lambda>e. CHR ''/'' # e) ys)"
proof (induction xs rule: join_elements.induct)
  case (2 e)
  show ?case by (induction ys arbitrary: e) simp_all
qed auto

lemma set_clean_stack: "set (clean_stack r st es) \<subseteq> set st \<union> set es \<union> {''..''}"
proof (induction r st es rule: clean_stack.induct)
  case (2 r st e es)
  then show ?case by (cases st) (auto split: if_splits)
qed auto

lemma cleaned_nonempty: "e \<in> set (cleaned path) \<Longrightarrow> e \<noteq> []"
  using set_clean_stack [of "is_rooted path" "[]" "elements path"] by (auto simp: cleaned_def elements_def)

lemma Clean_join:
  assumes "root \<noteq> []" "\<not> contains f ''..''" "cleaned root \<noteq> []"
  shows "Clean (root @ CHR ''/'' # f) = Clean root @ concat (map (\<lambda>e. CHR ''/'' # e) (elements f))"
proof -
  have "is_rooted (root @ CHR ''/'' # f) = is_rooted root" using assms(1) by (simp add: is_rooted_def)
  moreover have "join_elements (cleaned root) \<noteq> []"
    using assms(3) cleaned_nonempty [of "hd (cleaned root)" root]
    by (cases "cleaned root" rule: join_elements.cases) auto
  ultimately show ?thesis
    using assms by (simp add: Clean_def cleaned_join join_elements_append)
qed

lemma elements_no_slash: "e \<in> set (elements f) \<Longrightarrow> CHR ''/'' \<notin> set e"
proof -
  have "e \<in> set (split_on d s) \<Longrightarrow> d \<notin> set e" for e and d :: char and s
    by (induction s arbitrary: e) (auto split: if_splits list.splits)
  then show "e \<in> set (elements f) \<Longrightarrow> CHR ''/'' \<notin> set e" by (auto simp: elements_def)
qed

section \<open>Properties\<close>

text \<open>
  C28: With a configured root the TFTP server cannot leave it: every path it opens is the cleaned
  root followed by elements of the requested name, each of them a plain name without a slash and
  none of them \<open>..\<close>, whatever the client sends.
\<close>

theorem tftp_confined:
  assumes "root \<noteq> []"
    and "tftp_read env root filename = Served path n \<or> tftp_read env root filename = ReadError path
      \<or> tftp_read env root filename = OpenError path"
  shows "\<exists>es. path = Clean (root @ CHR ''/'' # filename)
    \<and> cleaned (root @ CHR ''/'' # filename) = cleaned root @ es
    \<and> (cleaned root \<noteq> [] \<longrightarrow> path = Clean root @ concat (map (\<lambda>e. CHR ''/'' # e) es))
    \<and> (\<forall>e \<in> set es. e \<noteq> [] \<and> e \<noteq> ''.'' \<and> e \<noteq> ''..'' \<and> CHR ''/'' \<notin> set e)"
proof -
  have f: "\<not> contains filename ''..''" and p: "path = Join root filename"
    using assms(2) by (auto simp: tftp_read_def Let_def split: if_splits option.splits)
  have "\<forall>e \<in> set (elements filename). e \<noteq> [] \<and> e \<noteq> ''.'' \<and> e \<noteq> ''..'' \<and> CHR ''/'' \<notin> set e"
    using no_dotdot_elements [OF f] elements_no_slash [of _ filename] by (auto simp: elements_def)
  with assms(1) p cleaned_join [OF assms(1) f] Clean_join [OF assms(1) f] show ?thesis
    by (intro exI [of _ "elements filename"]) (auto simp: Join_def)
qed

text \<open>
  Without a configured root the name is used as it is: an absolute name opens that file.
\<close>

lemma tftp_empty_root_opens_anything:
  "tftp_read \<lparr>open_file = (\<lambda>p. if p = ''/etc/shadow'' then Some [1] else None), read_from = (\<lambda>b. Some (length b))\<rparr>
     [] ''/etc/shadow'' = Served ''/etc/shadow'' 1"
  by (simp add: tftp_read_def Join_def Clean_def cleaned_def elements_def is_rooted_def)

section \<open>Witnesses\<close>

theorem tftp_confined_witness:
  "\<exists>es. cleaned (''/srv/tftp'' @ CHR ''/'' # ''/boot//./a.img'') = cleaned ''/srv/tftp'' @ es"
  using tftp_confined [of "''/srv/tftp''" "\<lparr>open_file = (\<lambda>_. Some [1]), read_from = (\<lambda>b. Some (length b))\<rparr>"
      "''/boot//./a.img''" "Clean (''/srv/tftp'' @ CHR ''/'' # ''/boot//./a.img'')" 1]
  by (auto simp: tftp_read_def Join_def)

end
