(* ===== verification/Init_Config.thy ===== *)
theory Init_Config
  imports Go_Unmarshal Api_Server Ssh_Server Netboot
begin

text \<open>
  \<open>InitConfig\<close> of \<^verbatim>\<open>homegw-init/config.go\<close> with the configuration types of its components, and how
  \<open>json.Unmarshal\<close> fills them: the decoder of a type follows its fields and their \<^verbatim>\<open>json\<close> tags. The
  configuration is what a package delivers and a boot starts from, so the lemmas here connect the
  version \<open>Unseal\<close> checks with the version the next boot runs, and show where the two differ in what
  they accept. \<open>int\<close> has 32 bits on the gateway, \<open>int64\<close> 64.
\<close>

section \<open>Types\<close>

record InitConfig =
  init_Version :: int
  Hostname :: string
  LogKafkaUrl :: string
  init_TeslaApi :: "TeslaApiConfig list"
  Wireguard :: "WireguardConfig list"
  init_ApiServer :: "ApiServerConfig option"
  init_SshServer :: "SshServerConfig option"
  init_KexecEncryptionKey :: string
  init_Disks :: "DiskConfig list"
  Netif :: "NetifConfig list"
  FsPermissions :: "FsPermissionConfig list"
  init_Netboot :: "NetbootConfig option"
  Sysctl :: "SysctlConfig list"

section \<open>Decoders\<close>

abbreviation str :: "json list \<Rightarrow> string" where "str \<equiv> build string_decoder"
abbreviation strs :: "json list \<Rightarrow> string list" where "strs \<equiv> build (slice_decoder string_decoder)"
abbreviation is_str :: "json \<Rightarrow> bool" where "is_str \<equiv> string_fits"
abbreviation is_strs :: "json \<Rightarrow> bool" where "is_strs \<equiv> slice_fits string_fits"

definition TeslaApiConfig_decoder :: "TeslaApiConfig decoder" where
  "TeslaApiConfig_decoder = struct_decoder [(''oauth_token'', is_str), (''vin'', is_str)]
     (\<lambda>f. \<lparr>OauthToken = str (f ''oauth_token''), cfg_Vin = str (f ''vin'')\<rparr>)"

definition WireguardPeer_decoder :: "WireguardPeer decoder" where
  "WireguardPeer_decoder = struct_decoder
     [(''public_key'', is_str), (''allowed_ips'', is_strs), (''endpoint'', is_str), (''preshared_key'', is_str),
      (''persistent_keepalive'', int_fits 32)]
     (\<lambda>f. \<lparr>PublicKey = str (f ''public_key''), AllowedIPs = strs (f ''allowed_ips''), Endpoint = str (f ''endpoint''),
           PresharedKey = str (f ''preshared_key''),
           PersistentKeepalive = build (int_decoder 32) (f ''persistent_keepalive'')\<rparr>)"

definition WireguardConfig_decoder :: "WireguardConfig decoder" where
  "WireguardConfig_decoder = struct_decoder
     [(''interface'', is_str), (''private_key'', is_str), (''addresses'', is_strs),
      (''peers'', slice_fits (fits WireguardPeer_decoder))]
     (\<lambda>f. \<lparr>Interface = str (f ''interface''), PrivateKey = str (f ''private_key''), Addresses = strs (f ''addresses''),
           Peers = build (slice_decoder WireguardPeer_decoder) (f ''peers'')\<rparr>)"

definition CertificateConfig_decoder :: "(string \<times> string) decoder" where
  "CertificateConfig_decoder = struct_decoder [(''cert'', is_str), (''key'', is_str)]
     (\<lambda>f. (str (f ''cert''), str (f ''key'')))"

definition ClientKey_decoder :: "ClientKey decoder" where
  "ClientKey_decoder = struct_decoder [(''id'', is_str), (''secret'', is_str), (''scopes'', is_strs)]
     (\<lambda>f. \<lparr>ck_Id = str (f ''id''), Secret = str (f ''secret''), Scopes = strs (f ''scopes'')\<rparr>)"

definition ApiServerConfig_decoder :: "ApiServerConfig decoder" where
  "ApiServerConfig_decoder = struct_decoder
     [(''listen'', is_str), (''certificates'', slice_fits (fits CertificateConfig_decoder)),
      (''client_keys'', slice_fits (fits ClientKey_decoder)), (''max_concurrent_quic_connections'', int_fits 32),
      (''stateless_reset_key'', is_str), (''ext_reset_allowed_pins'', is_strs), (''allow_crash'', bool_fits)]
     (\<lambda>f. \<lparr>Listen = str (f ''listen''),
           Certificates = build (slice_decoder CertificateConfig_decoder) (f ''certificates''),
           ClientKeys = build (slice_decoder ClientKey_decoder) (f ''client_keys''),
           MaxConcurrentQuicConnections = build (int_decoder 32) (f ''max_concurrent_quic_connections''),
           StatelessResetKey = str (f ''stateless_reset_key''),
           ExtResetAllowedPins = strs (f ''ext_reset_allowed_pins''),
           AllowCrash = build bool_decoder (f ''allow_crash'')\<rparr>)"

definition SshServerConfig_decoder :: "SshServerConfig decoder" where
  "SshServerConfig_decoder = struct_decoder [(''host_key'', is_str), (''authorized_keys'', is_strs)]
     (\<lambda>f. \<lparr>HostKey = str (f ''host_key''), AuthorizedKeys = strs (f ''authorized_keys'')\<rparr>)"

definition DiskConfig_decoder :: "DiskConfig decoder" where
  "DiskConfig_decoder = struct_decoder
     [(''device'', is_str), (''encrypted_device'', is_str), (''mountpoint'', is_str), (''luks_key'', is_str)]
     (\<lambda>f. \<lparr>Device = str (f ''device''), EncryptedDevice = str (f ''encrypted_device''),
           Mountpoint = str (f ''mountpoint''), LuksKey = str (f ''luks_key'')\<rparr>)"

definition NetifConfig_decoder :: "NetifConfig decoder" where
  "NetifConfig_decoder = struct_decoder
     [(''name'', is_str), (''mode'', is_str), (''ipv4_address'', is_str), (''ipv4_gateway'', is_str), (''nameservers'', is_strs)]
     (\<lambda>f. \<lparr>netif_Name = str (f ''name''), Mode = str (f ''mode''), Ipv4Address = str (f ''ipv4_address''),
           Ipv4Gateway = str (f ''ipv4_gateway''), Nameservers = strs (f ''nameservers'')\<rparr>)"

definition FsPermissionConfig_decoder :: "FsPermissionConfig decoder" where
  "FsPermissionConfig_decoder = struct_decoder
     [(''path'', is_str), (''name'', is_str), (''type'', is_str), (''chmod'', is_str), (''chown'', is_str)]
     (\<lambda>f. \<lparr>fs_Path = str (f ''path''), fs_Name = str (f ''name''), fs_Type = str (f ''type''),
           Chmod = str (f ''chmod''), fs_Chown = str (f ''chown'')\<rparr>)"

definition NetbootConfig_decoder :: "NetbootConfig decoder" where
  "NetbootConfig_decoder = struct_decoder [(''tftp_root'', is_str)] (\<lambda>f. \<lparr>TftpRoot = str (f ''tftp_root'')\<rparr>)"

definition SysctlConfig_decoder :: "SysctlConfig decoder" where
  "SysctlConfig_decoder = struct_decoder [(''name'', is_str), (''value'', is_str)]
     (\<lambda>f. \<lparr>sysctl_Name = str (f ''name''), sysctl_Value = str (f ''value'')\<rparr>)"

definition InitConfig_fields :: "(string \<times> (json \<Rightarrow> bool)) list" where
  "InitConfig_fields =
     [(''version'', int_fits 64), (''hostname'', is_str), (''log_kafka_url'', is_str),
      (''tesla_api'', slice_fits (fits TeslaApiConfig_decoder)), (''wireguard'', slice_fits (fits WireguardConfig_decoder)),
      (''api_server'', fits (pointer_decoder ApiServerConfig_decoder)),
      (''ssh_server'', fits (pointer_decoder SshServerConfig_decoder)), (''kexec_encryption_key'', is_str),
      (''disks'', slice_fits (fits DiskConfig_decoder)), (''netif'', slice_fits (fits NetifConfig_decoder)),
      (''fs_permissions'', slice_fits (fits FsPermissionConfig_decoder)),
      (''netboot'', fits (pointer_decoder NetbootConfig_decoder)), (''sysctl'', slice_fits (fits SysctlConfig_decoder))]"

definition make_InitConfig :: "(string \<Rightarrow> json list) \<Rightarrow> InitConfig" where
  "make_InitConfig f =
     \<lparr>init_Version = build (int_decoder 64) (f ''version''),
      Hostname = str (f ''hostname''),
      LogKafkaUrl = str (f ''log_kafka_url''),
      init_TeslaApi = build (slice_decoder TeslaApiConfig_decoder) (f ''tesla_api''),
      Wireguard = build (slice_decoder WireguardConfig_decoder) (f ''wireguard''),
      init_ApiServer = build (pointer_decoder ApiServerConfig_decoder) (f ''api_server''),
      init_SshServer = build (pointer_decoder SshServerConfig_decoder) (f ''ssh_server''),
      init_KexecEncryptionKey = str (f ''kexec_encryption_key''),
      init_Disks = build (slice_decoder DiskConfig_decoder) (f ''disks''),
      Netif = build (slice_decoder NetifConfig_decoder) (f ''netif''),
      FsPermissions = build (slice_decoder FsPermissionConfig_decoder) (f ''fs_permissions''),
      init_Netboot = build (pointer_decoder NetbootConfig_decoder) (f ''netboot''),
      Sysctl = build (slice_decoder SysctlConfig_decoder) (f ''sysctl'')\<rparr>"

definition InitConfig_decoder :: "InitConfig decoder" where
  "InitConfig_decoder = struct_decoder InitConfig_fields make_InitConfig"

definition unmarshal_InitConfig :: "bytes \<Rightarrow> InitConfig option" where
  "unmarshal_InitConfig = unmarshal InitConfig_decoder"

section \<open>Lemmas\<close>

text \<open>
  The version \<open>Unseal\<close> reads from a configuration with its minimal struct is the version the next
  boot runs with, whatever else the document holds and whichever spelling of the key it uses.
\<close>

lemma unmarshal_InitConfig_version:
  "unmarshal_InitConfig s = Some c \<Longrightarrow> unmarshal_version s = Some (init_Version c)"
  unfolding unmarshal_InitConfig_def InitConfig_decoder_def
  by (erule unmarshal_struct_version) (simp_all add: InitConfig_fields_def make_InitConfig_def)

lemmas config_eval = unmarshal_InitConfig_def unmarshal_def InitConfig_decoder_def struct_decoder_def struct_fits_def
  member_fits_def InitConfig_fields_def key_matches_def json_eval

section \<open>Properties\<close>

text \<open>
  C38: The version \<open>Unseal\<close> checks is the version the next boot runs with: the small struct \<open>Unseal\<close>
  decodes a configuration into and the full \<open>InitConfig\<close> get the same version from every document that
  boots, whatever else it holds, however often the key is repeated, in whichever spelling, and with
  \<open>null\<close> among its values.
\<close>

theorem boot_version_is_checked_version:
  assumes "unmarshal_InitConfig s = Some c"
  shows "unmarshal_version s = Some (init_Version c)"
  using assms by (rule unmarshal_InitConfig_version)

definition bad_hostname :: bytes where
  \<open>bad_hostname = bytes_of ''{"version":5,"hostname":7}''\<close>

text \<open>
  The converse fails: \<open>Unseal\<close> accepts a configuration that the next boot cannot decode, and on which
  \<open>loadConfig\<close> exits.
\<close>

lemma checked_config_may_not_decode:
  "unmarshal_version bad_hostname = Some 5
   \<and> unmarshal_InitConfig bad_hostname = None"
  by (simp add: bad_hostname_def config_eval digits_val_def parse_int64_def in_width_def)

section \<open>Witnesses\<close>

definition respelt_config :: bytes where
  \<open>respelt_config = bytes_of ''{"version":7,"VERSION":null,"Version":5}''\<close>

lemma demo_respelt: "\<exists>c. unmarshal_InitConfig respelt_config = Some c"
  by (simp add: respelt_config_def config_eval upper_def make_InitConfig_def field_values_def int_decoder_def in_width_def
      parse_int64_def digits_val_def)

theorem boot_version_is_checked_version_witness:
  "\<exists>c. unmarshal_InitConfig respelt_config = Some c \<and> unmarshal_version respelt_config = Some (init_Version c)"
  using demo_respelt boot_version_is_checked_version by blast

end
