(* ===== verification/Bootstrap.thy ===== *)
theory Bootstrap
  imports Ocram
begin

text \<open>
  \<^verbatim>\<open>homegw-init/bootstrap.go\<close>: where the configuration comes from at boot. \<open>loadConfig\<close> takes it from the
  file named by \<^verbatim>\<open>HOMEGW_CONFIG_PATH\<close>, else from OCRAM, else over the USB serial line, where
  \<open>loadConfigFromGs0\<close> waits for a framed, base64-coded transmission and checks its digest. The
  input of the serial line is the bytes it will deliver until it is closed; \<open>gen_config_text\<close> is what
  \<^verbatim>\<open>scripts/gen_config_text.sh\<close> sends.
\<close>

unbundle bit_operations_syntax

section \<open>bufio.Scanner with ScanLines\<close>

text \<open>
  The tokens the scanner delivers before \<open>Scan\<close> returns false: lines without their newline and one
  trailing carriage return. A line that does not fit the 64 KiB buffer ends the scan.
\<close>

definition max_token :: nat where "max_token = 65536"

definition drop_cr :: "bytes \<Rightarrow> bytes" where
  "drop_cr l = (if l \<noteq> [] \<and> last l = 13 then butlast l else l)"

function scan_lines :: "bytes \<Rightarrow> bytes list" where
  "scan_lines s =
     (if s = [] then []
      else let l = takeWhile (\<lambda>c. c \<noteq> 10) s
           in if max_token \<le> length l then []
              else drop_cr l # scan_lines (drop (Suc (length l)) s))"
  by pat_completeness auto
termination
  by (relation "measure length") auto

declare scan_lines.simps [simp del]

text \<open>
  The results of successive calls of \<open>Scan\<close>, \<open>None\<close> for false, after which it is false forever: when the
  buffer is full without a newline, \<open>Scan\<close> is false once, and a further call delivers what the buffer
  holds.
\<close>

function too_long :: "bytes \<Rightarrow> bytes option" where
  "too_long s =
     (if s = [] then None
      else let l = takeWhile (\<lambda>c. c \<noteq> 10) s
           in if max_token \<le> length l then Some (take max_token l) else too_long (drop (Suc (length l)) s))"
  by pat_completeness auto
termination
  by (relation "measure length") auto

declare too_long.simps [simp del]

definition scans :: "bytes \<Rightarrow> bytes option list" where
  "scans s = map Some (scan_lines s) @ (case too_long s of None \<Rightarrow> [] | Some b \<Rightarrow> [None, Some (drop_cr b)])"

section \<open>The serial protocol\<close>

definition begin_line :: bytes where "begin_line = bytes_of ''<BEGIN>''"
definition end_line :: bytes where "end_line = bytes_of ''<END>''"

fun skip_to_begin :: "bytes option list \<Rightarrow> bytes option list" where
  "skip_to_begin [] = []"
| "skip_to_begin (None # ts) = ts"
| "skip_to_begin (Some l # ts) = (if l = begin_line then ts else skip_to_begin ts)"

text \<open>The data lines up to the end line, concatenated, and the results left.\<close>

fun read_data :: "bytes \<Rightarrow> bytes option list \<Rightarrow> bytes \<times> bytes option list" where
  "read_data acc [] = (acc, [])"
| "read_data acc (None # ts) = (acc, ts)"
| "read_data acc (Some l # ts) = (if l = end_line then (acc, ts) else read_data (acc @ l) ts)"

definition accept_config :: "bytes \<Rightarrow> bytes \<Rightarrow> bytes option" where
  "accept_config configHashB64 configDataB64 =
     (case base64_decode configHashB64 of
        None \<Rightarrow> None
      | Some expectedHash \<Rightarrow>
          if length expectedHash \<noteq> 32 then None
          else case base64_decode configDataB64 of
                 None \<Rightarrow> None
               | Some configData \<Rightarrow>
                   if sha256 configData \<noteq> expectedHash then None else Some configData)"

lemma length_skip_to_begin: "length (skip_to_begin ts) \<le> length ts"
  by (induction ts rule: skip_to_begin.induct) auto

lemma length_read_data: "length (snd (read_data acc ts)) \<le> length ts"
  by (induction acc ts rule: read_data.induct) (auto intro: le_SucI)

datatype gs0_output =
    SetLflag u32             \<comment> \<open>\<open>ioctl(TCSETS)\<close> with this \<open>Lflag\<close>\<close>
  | WaitingForConfig
  | ConfigReceived

text \<open>The outer loop; the result comes with what was written to the line.\<close>

function gs0_loop :: "bytes option list \<Rightarrow> (ocram_error, bytes) result \<times> gs0_output list" where
  "gs0_loop ts =
     (case skip_to_begin ts of
        [] \<Rightarrow> (Inl (Fatal ''can't read config hash''), [WaitingForConfig])
      | None # _ \<Rightarrow> (Inl (Fatal ''can't read config hash''), [WaitingForConfig])
      | Some configHashB64 # rest \<Rightarrow>
          (case accept_config configHashB64 (fst (read_data [] rest)) of
             Some configData \<Rightarrow> (Inr configData, [WaitingForConfig, ConfigReceived])
           | None \<Rightarrow> apsnd (Cons WaitingForConfig) (gs0_loop (snd (read_data [] rest)))))"
  by pat_completeness auto
termination
proof (relation "measure length", goal_cases)
  case (2 ts t rest h)
  then show ?case
    using length_skip_to_begin [of ts] length_read_data [of "[]" rest] by simp
qed simp

declare gs0_loop.simps [simp del]

record gs0_env =
  gs0_open_ok :: bool
  tcgets :: "u32 option"      \<comment> \<open>the terminal's \<open>Lflag\<close>\<close>
  tcsets_ok :: bool
  gs0_input :: bytes

text \<open>\<open>unix.ECHO\<close>\<close>

definition ECHO :: u32 where "ECHO = 8"

definition loadConfigFromGs0 :: "gs0_env \<Rightarrow> (ocram_error, bytes) result \<times> gs0_output list" where
  "loadConfigFromGs0 env =
     (if \<not> gs0_open_ok env then (Inl (Fatal ''can't open /dev/ttyGS0''), [])
      else case tcgets env of
             None \<Rightarrow> (Inl (Fatal ''can't get termios''), [])
           | Some lflag \<Rightarrow>
               if \<not> tcsets_ok env then (Inl (Fatal ''can't set termios''), [])
               else apsnd (Cons (SetLflag (lflag AND NOT ECHO)))
                      (gs0_loop (scans (gs0_input env))))"

section \<open>loadConfig\<close>

record load_env =
  config_path :: string                       \<comment> \<open>\<open>os.Getenv("HOMEGW_CONFIG_PATH")\<close>\<close>
  read_file :: "string \<Rightarrow> bytes option"
  mem_dev :: mem_env
  gs0 :: gs0_env

text \<open>
  \<open>unmarshal\<close> is \<open>json.Unmarshal\<close> into \<open>InitConfig\<close>. The state is the OCRAM window.
\<close>

definition load_config_text :: "load_env \<Rightarrow> bytes \<Rightarrow> (ocram_error, bytes) result \<times> bytes" where
  "load_config_text env mem =
     (if config_path env = [] then
        (case loadConfigFromOcram (mem_dev env) mem of
           (Inl e, mem') \<Rightarrow> (Inl e, mem')
         | (Inr (Some text), mem') \<Rightarrow> (Inr text, mem')
         | (Inr None, mem') \<Rightarrow> (fst (loadConfigFromGs0 (gs0 env)), mem'))
      else
        (case read_file env (config_path env) of
           None \<Rightarrow> (Inl (Fatal ''can't read config''), mem)
         | Some text \<Rightarrow> (Inr text, mem)))"

definition loadConfig ::
  "(bytes \<Rightarrow> 'cfg option) \<Rightarrow> load_env \<Rightarrow> bytes \<Rightarrow> (ocram_error, 'cfg \<times> bytes) result \<times> bytes" where
  "loadConfig unmarshal env mem =
     (let (r, mem') = load_config_text env mem
      in (bindR r (\<lambda>configText.
            case unmarshal configText of
              None \<Rightarrow> Inl (Fatal ''can't parse config'')
            | Some config \<Rightarrow> Inr (config, configText)), mem'))"

section \<open>The sender\<close>

text \<open>\<^verbatim>\<open>base64 -w 80\<close>: lines of eighty characters.\<close>

function wrap80 :: "bytes \<Rightarrow> bytes list" where
  "wrap80 s = (if s = [] then [] else take 80 s # wrap80 (drop 80 s))"
  by pat_completeness auto
termination
  by (relation "measure length") auto

declare wrap80.simps [simp del]

definition frame_lines :: "bytes \<Rightarrow> bytes list \<Rightarrow> bytes list" where
  "frame_lines h body = [begin_line, h] @ body @ [end_line]"

definition gen_config_text :: "bytes \<Rightarrow> bytes" where
  "gen_config_text input =
     (let config = echo_n (shell_text input) in
     concat (map (\<lambda>l. l @ [10])
       (frame_lines (base64_encode (sha256 config)) (wrap80 (base64_encode config) @ [[]]))))"

section \<open>Lemmas\<close>

lemma scan_lines_line:
  assumes "10 \<notin> set l" "l = [] \<or> last l \<noteq> 13" "length l < max_token"
  shows "scan_lines (l @ 10 # s) = l # scan_lines s"
proof -
  have "\<forall>c \<in> set l. c \<noteq> 10" using assms(1) by auto
  then have "takeWhile (\<lambda>c. c \<noteq> 10) (l @ 10 # s) = l" by (rule takeWhile_stop) simp
  moreover have "drop_cr l = l" using assms(2) by (auto simp: drop_cr_def)
  ultimately show ?thesis using assms(3) by (simp add: scan_lines.simps [of "l @ 10 # s"] Let_def)
qed

lemma scan_lines_Cons:
  "10 \<notin> set l \<Longrightarrow> 13 \<notin> set l \<Longrightarrow> length l < max_token \<Longrightarrow> scan_lines (l @ 10 # s) = l # scan_lines s"
  by (rule scan_lines_line) (auto dest: last_in_set)

lemma too_long_line:
  assumes "10 \<notin> set l" "length l < max_token"
  shows "too_long (l @ 10 # s) = too_long s"
proof -
  have "\<forall>c \<in> set l. c \<noteq> 10" using assms(1) by auto
  then have "takeWhile (\<lambda>c. c \<noteq> 10) (l @ 10 # s) = l" by (rule takeWhile_stop) simp
  then show ?thesis using assms(2) by (simp add: too_long.simps [of "l @ 10 # s"] Let_def)
qed

lemma scans_text:
  assumes "\<forall>l \<in> set ls. 10 \<notin> set l \<and> 13 \<notin> set l \<and> length l < max_token"
  shows "scans (concat (map (\<lambda>l. l @ [10]) ls)) = map Some ls"
proof -
  have "too_long (concat (map (\<lambda>l. l @ [10]) ls)) = None"
    using assms by (induction ls) (simp add: too_long.simps, simp add: too_long_line)
  moreover have "scan_lines (concat (map (\<lambda>l. l @ [10]) ls)) = ls"
    using assms by (induction ls) (simp add: scan_lines.simps, simp add: scan_lines_Cons)
  ultimately show ?thesis by (simp add: scans_def)
qed

lemma skip_to_begin_noise:
  "begin_line \<notin> set noise \<Longrightarrow> skip_to_begin (map Some noise @ Some begin_line # ts) = ts"
  by (induction noise) auto

lemma read_data_body:
  "end_line \<notin> set body \<Longrightarrow> read_data acc (map Some body @ Some end_line # ts) = (acc @ concat body, ts)"
  by (induction body arbitrary: acc) auto

lemma gs0_loop_frame:
  assumes "begin_line \<notin> set noise" "end_line \<notin> set body"
  shows "gs0_loop (map Some (noise @ frame_lines h body) @ ts) =
    (case accept_config h (concat body) of
       Some c \<Rightarrow> (Inr c, [WaitingForConfig, ConfigReceived])
     | None \<Rightarrow> apsnd (Cons WaitingForConfig) (gs0_loop ts))"
  using assms
  by (subst gs0_loop.simps) (simp add: frame_lines_def skip_to_begin_noise read_data_body split: option.split)

lemma accept_config_iff:
  "accept_config h d = Some c \<longleftrightarrow> base64_decode h = Some (sha256 c) \<and> base64_decode d = Some c"
  by (auto simp: accept_config_def split: option.splits)

lemma wrap80_concat: "concat (wrap80 s) = s"
  by (induction s rule: wrap80.induct) (subst wrap80.simps, simp)

lemma wrap80_lines: "l \<in> set (wrap80 s) \<Longrightarrow> set l \<subseteq> set s \<and> length l \<le> 80"
proof (induction s rule: wrap80.induct)
  case (1 s)
  then show ?case
    by (subst (asm) (2) wrap80.simps) (auto split: if_splits dest: in_set_takeD in_set_dropD)
qed

lemma b64_alphabet: "c \<in> set (base64_encode bs) \<Longrightarrow> c \<noteq> 60 \<and> c \<noteq> 10 \<and> c \<noteq> 13"
proof -
  have d: "k < 64 \<Longrightarrow> b64_char k \<noteq> 60" for k
    using unat_b64_char [of k] by (auto split: if_splits)
  have m: "b64_char (n mod 64) \<noteq> 60" for n using d [of "n mod 64"] by simp
  have t: "b64_char (b64_group x y z div 262144) \<noteq> 60" for x y z
    using b64_group_bytes(1) [of x y z] by (intro d) simp
  have "c \<in> set (base64_encode bs) \<Longrightarrow> c \<noteq> 60"
    by (induction bs rule: base64_encode.induct) (auto simp: Let_def t m)
  then show "c \<in> set (base64_encode bs) \<Longrightarrow> c \<noteq> 60 \<and> c \<noteq> 10 \<and> c \<noteq> 13"
    using base64_encode_no_break by blast
qed

lemma length_base64_encode: "length (base64_encode bs) = 4 * ((length bs + 2) div 3)"
  by (induction bs rule: base64_encode.induct) (simp_all add: Let_def, presburger)

lemma marker_lines:
  "60 \<in> set begin_line" "60 \<in> set end_line" "length begin_line = 7" "length end_line = 5"
  "10 \<notin> set begin_line" "13 \<notin> set begin_line" "10 \<notin> set end_line" "13 \<notin> set end_line"
  by (simp_all add: begin_line_def end_line_def bytes_of_def)

lemma body_no_marker: "end_line \<notin> set (wrap80 (base64_encode c) @ [[]])"
proof
  assume "end_line \<in> set (wrap80 (base64_encode c) @ [[]])"
  then have "end_line \<in> set (wrap80 (base64_encode c))" by (auto simp: end_line_def bytes_of_def)
  then have "60 \<in> set (base64_encode c)" using wrap80_lines marker_lines(2) by blast
  then show False using b64_alphabet by blast
qed

lemma scan_gen_config_text:
  assumes "c = echo_n (shell_text input)"
  shows "scans (gen_config_text input) = map Some (frame_lines (base64_encode (sha256 c)) (wrap80 (base64_encode c) @ [[]]))"
  unfolding gen_config_text_def Let_def assms [symmetric]
proof (rule scans_text, rule ballI)
  fix l
  assume l: "l \<in> set (frame_lines (base64_encode (sha256 c)) (wrap80 (base64_encode c) @ [[]]))"
  have "length (base64_encode (sha256 c)) = 44" by (simp add: length_base64_encode)
  moreover have "length w < max_token \<and> 10 \<notin> set w \<and> 13 \<notin> set w" if "w \<in> set (wrap80 (base64_encode c))" for w
    using wrap80_lines [OF that] b64_alphabet by (auto simp: max_token_def)
  ultimately show "10 \<notin> set l \<and> 13 \<notin> set l \<and> length l < max_token"
    using l marker_lines by (auto simp: frame_lines_def max_token_def dest: b64_alphabet)
qed

section \<open>Properties\<close>

text \<open>
  C14: The serial bootstrap delivers exactly the configuration the sender script transmits: for
  every input of the script, if the line works and carries the script's output, the gateway turns
  echo off, asks once, acknowledges and returns the text the script read into its variable, that is
  the input without NUL bytes and trailing newlines (and nothing for a text that \<^verbatim>\<open>echo\<close> takes for an
  option); a configuration that has none of these arrives unchanged.
\<close>

theorem gs0_receives_gen_config_text:
  assumes "gs0_open_ok env" "tcgets env = Some lflag" "tcsets_ok env"
    and "gs0_input env = gen_config_text input"
  shows "\<exists>config. loadConfigFromGs0 env =
      (Inr config, [SetLflag (lflag AND NOT ECHO), WaitingForConfig, ConfigReceived])
    \<and> config = echo_n (shell_text input)
    \<and> (0 \<notin> set input \<and> (input = [] \<or> hd input \<noteq> 45 \<and> last input \<noteq> 10) \<longrightarrow> config = input)"
proof -
  define config where "config = echo_n (shell_text input)"
  have "accept_config (base64_encode (sha256 config)) (concat (wrap80 (base64_encode config) @ [[]])) = Some config"
    by (simp add: accept_config_iff wrap80_concat)
  then have "gs0_loop (scans (gs0_input env)) = (Inr config, [WaitingForConfig, ConfigReceived])"
    using gs0_loop_frame [of "[]" "wrap80 (base64_encode config) @ [[]]" "base64_encode (sha256 config)" "[]"]
      body_no_marker by (simp add: assms(4) scan_gen_config_text [OF config_def])
  with assms show ?thesis using script_passes_unchanged [of input] by (auto simp: loadConfigFromGs0_def config_def)
qed

theorem gs0_receives_gen_config_text_witness:
  "loadConfigFromGs0 \<lparr>gs0_open_ok = True, tcgets = Some 0x8A3B, tcsets_ok = True, gs0_input = gen_config_text [123, 125, 10]\<rparr> =
     (Inr [123, 125], [SetLflag (0x8A3B AND NOT ECHO), WaitingForConfig, ConfigReceived])"
  using gs0_receives_gen_config_text [of "\<lparr>gs0_open_ok = True, tcgets = Some 0x8A3B, tcsets_ok = True,
      gs0_input = gen_config_text [123, 125, 10]\<rparr>" "0x8A3B" "[123, 125, 10]"]
  by (simp add: shell_text_def echo_n_def)

text \<open>
  C15: Line noise and damaged transmissions do not lose the configuration: after any number of frames
  that fail a check, each preceded by arbitrary other lines, the first frame that passes is
  accepted, with one prompt per frame.
\<close>

theorem gs0_retries_until_accepted:
  assumes "\<forall>(noise, h, body) \<in> set bad. begin_line \<notin> set noise \<and> end_line \<notin> set body
      \<and> accept_config h (concat body) = None"
    and "begin_line \<notin> set noise" "end_line \<notin> set body" "accept_config h (concat body) = Some c"
  shows "gs0_loop (map Some (concat (map (\<lambda>(noise, h, body). noise @ frame_lines h body) bad)
      @ noise @ frame_lines h body) @ rest) =
    (Inr c, replicate (Suc (length bad)) WaitingForConfig @ [ConfigReceived])"
  using assms
proof (induction bad)
  case Nil
  then show ?case by (simp add: gs0_loop_frame del: map_append)
next
  case (Cons f bad)
  obtain n1 h1 b1 where f: "f = (n1, h1, b1)" by (cases f)
  let ?ts = "map Some (concat (map (\<lambda>(noise, h, body). noise @ frame_lines h body) bad) @ noise @ frame_lines h body) @ rest"
  have "gs0_loop (map Some (n1 @ frame_lines h1 b1) @ ?ts) = apsnd (Cons WaitingForConfig) (gs0_loop ?ts)"
    using Cons.prems by (subst gs0_loop_frame) (auto simp: f)
  with Cons show ?case by (simp add: f)
qed

theorem gs0_retries_until_accepted_witness:
  "gs0_loop (map Some ([bytes_of ''junk''] @ frame_lines [] [] @
     [] @ frame_lines (base64_encode (sha256 [7])) [base64_encode [7]])) =
   (Inr [7], [WaitingForConfig, WaitingForConfig, ConfigReceived])"
proof -
  have "accept_config [] (concat []) = None"
    by (simp add: accept_config_def base64_decode_def)
  moreover have "accept_config (base64_encode (sha256 [7])) (concat [base64_encode [7]]) = Some [7]"
    by (simp add: accept_config_iff del: base64_encode.simps)
  moreover have "end_line \<notin> set [base64_encode [7]]"
    using b64_alphabet [of 60 "[7]"] marker_lines(2) by auto
  moreover have "begin_line \<notin> set [bytes_of ''junk'']"
    by (simp add: begin_line_def bytes_of_def)
  ultimately show ?thesis
    using gs0_retries_until_accepted [of "[([bytes_of ''junk''], [], [])]" "[]" "[base64_encode [7]]"
        "base64_encode (sha256 [7])" "[7]" "[]"] by simp
qed

lemma skip_to_begin_split: "\<exists>pre. ts = pre @ skip_to_begin ts"
proof -
  have "suffix (skip_to_begin ts) ts"
    by (induction ts rule: skip_to_begin.induct) (auto intro: suffix_ConsI)
  then show ?thesis unfolding suffix_def .
qed

lemma read_data_split: "\<exists>pre. ts = pre @ snd (read_data acc ts)"
proof -
  have "suffix (snd (read_data acc ts)) ts"
    by (induction acc ts rule: read_data.induct) (auto intro: suffix_ConsI)
  then show ?thesis unfolding suffix_def .
qed

text \<open>
  Whatever arrives on the serial line, a configuration is returned only if some line is the base64
  of its SHA-256 and the data lines after it decode to it; otherwise the gateway exits fatally once
  the input ends. It never returns an unchecked configuration and never panics.
\<close>

lemma gs0_loop_checked:
  "(\<exists>msg. fst (gs0_loop ts) = Inl (Fatal msg)) \<or>
   (\<exists>c pre h post. fst (gs0_loop ts) = Inr c \<and> ts = pre @ Some h # post \<and>
      base64_decode h = Some (sha256 c) \<and> base64_decode (fst (read_data [] post)) = Some c)"
proof (induction ts rule: gs0_loop.induct)
  case (1 ts)
  obtain pre where ts: "ts = pre @ skip_to_begin ts" using skip_to_begin_split by blast
  consider "skip_to_begin ts = []" | r where "skip_to_begin ts = None # r" | h rest where "skip_to_begin ts = Some h # rest"
    by (metis list.exhaust option.exhaust)
  then show ?case
  proof cases
    case (3 h rest)
    show ?thesis
    proof (cases "accept_config h (fst (read_data [] rest))")
      case None
      then have step: "fst (gs0_loop ts) = fst (gs0_loop (snd (read_data [] rest)))"
        using 3 by (subst gs0_loop.simps) simp
      obtain mid where "rest = mid @ snd (read_data [] rest)" using read_data_split by blast
      with ts 3 have "ts = (pre @ Some h # mid) @ snd (read_data [] rest)" by simp
      with "1.IH" [OF 3 refl None] step show ?thesis by (metis append_assoc)
    next
      case (Some c)
      then have "fst (gs0_loop ts) = Inr c" using 3 by (subst gs0_loop.simps) simp
      with Some ts 3 show ?thesis unfolding accept_config_iff by metis
    qed
  qed (subst gs0_loop.simps, simp)+
qed

text \<open>The order of the sources, with the OCRAM path spelled out by what a load of the window gives.\<close>

lemma load_config_text_sources:
  "load_config_text env mem =
     (if config_path env \<noteq> [] then
        (case read_file env (config_path env) of
           Some text \<Rightarrow> Inr text | None \<Rightarrow> Inl (Fatal ''can't read config''), mem)
      else if \<not> open_mem_ok (mem_dev env) then (Inl (Fatal ''Failed to open /dev/mem''), mem)
      else if \<not> mmap_ok (mem_dev env) then (Inl (Fatal ''Failed to mmap OCRAM''), mem)
      else
        (case fst (ocram_load mem) of
           Some text \<Rightarrow> Inr text | None \<Rightarrow> fst (loadConfigFromGs0 (gs0 env)), replicate (length mem) 0))"
  by (auto simp: load_config_text_def ocram_load_def loadConfigFromOcram_def dumpAndEraseOcram_def Let_def
      map_replicate_const split: option.splits)

end
