(* ===== verification/Rt_Control.thy ===== *)
theory Rt_Control
  imports Bootstrap Go_Json Os_Commands
begin

text \<open>
  \<^verbatim>\<open>homegw-libs/rt-control/lib.go\<close>: the start of the real-time helper \<^verbatim>\<open>/homegw-rt\<close>, which gets the whole
  configuration on its standard input and a listening socket, and the relay of its log, one JSON
  document per line, into the gateway's own log. A failed start is fatal, and so is the end of the
  helper's log.
\<close>

section \<open>Starting the helper\<close>

definition SocketPath :: string where "SocketPath = ''/run/homegw-rt.sock''"

definition NewRtControl :: "bytes \<Rightarrow> (os, unit failure + unit) state" where
  "NewRtControl initConfig =
     try_then (must (Fatal ''failed to create pipe'') Pipe) (\<lambda>_.
     try_then (must (Fatal ''failed to listen on unix socket'') (ListenUnix SocketPath)) (\<lambda>_. do {
       ignore (ChmodTo SocketPath 436);
       ignore (Chown SocketPath 0 1000);
       try_then (must (Fatal ''failed to get unix listener file'') DupListener) (\<lambda>_.
       try_then (must (Fatal ''failed to get stdin pipe'') StdinPipe) (\<lambda>_.
       try_then (must (Fatal ''failed to start homegw-rt'') (StartHelper ''/homegw-rt'' [''log pipe'', ''listener''])) (\<lambda>_. do {
         ignore (FeedStdin initConfig);
         ignore (CloseFd ''listener'');
         ignore ClosePipe;
         State_Monad.return (Inr ()) }))) }))"

section \<open>Numbers of interface values\<close>

text \<open>
  A number decoded into an \<open>interface{}\<close> becomes a \<open>float64\<close>; a literal whose value rounds to infinity is
  a type error. \<open>strconv.ParseFloat\<close> stops reading an exponent once it has reached 10000.
\<close>

definition exponent :: "bytes \<Rightarrow> nat" where
  "exponent ds = fold (\<lambda>d e. if e < 10000 then 10 * e + (unat d - 48) else e) ds 0"

definition number_parts :: "bytes \<Rightarrow> nat \<times> int" where
  "number_parts lit =
     (let l = (if lit \<noteq> [] \<and> hd lit = 45 then tl lit else lit);
          ip = takeWhile is_digit l; r = dropWhile is_digit l;
          fp = (case r of c # r' \<Rightarrow> if c = 46 then takeWhile is_digit r' else [] | [] \<Rightarrow> []);
          r2 = dropWhile (\<lambda>c. c \<noteq> 101 \<and> c \<noteq> 69) r;
          x = (case r2 of [] \<Rightarrow> 0
               | _ # t \<Rightarrow> (case t of [] \<Rightarrow> 0
                          | sg # ds \<Rightarrow> if sg = 45 then - int (exponent ds)
                                     else if sg = 43 then int (exponent ds) else int (exponent t)))
      in (nat (digits_val (ip @ fp)), x - int (length fp)))"

definition float64_range :: "bytes \<Rightarrow> bool" where
  "float64_range lit =
     (let (m, x) = number_parts lit; limit = 2 ^ 1024 - 2 ^ 970
      in if 0 \<le> x then m * 10 ^ nat x < limit else m < limit * 10 ^ nat (- x))"

fun numbers_ok :: "json \<Rightarrow> bool" where
  "numbers_ok (JNum lit) = float64_range lit"
| "numbers_ok (JArr vs) = list_all numbers_ok vs"
| "numbers_ok (JObj ms) = list_all (\<lambda>m. numbers_ok (snd m)) ms"
| "numbers_ok _ = True"

section \<open>One log line\<close>

datatype level = DebugLevel | InfoLevel | WarnLevel | ErrorLevel

text \<open>zap's levels are ordered; the production configuration of \<open>setupLogging\<close> writes entries from \<open>InfoLevel\<close> on.\<close>

fun level_rank :: "level \<Rightarrow> int" where
  "level_rank DebugLevel = -1"
| "level_rank InfoLevel = 0"
| "level_rank WarnLevel = 1"
| "level_rank ErrorLevel = 2"

lemma level_rank_inj: "level_rank l = level_rank l' \<Longrightarrow> l = l'"
  by (cases l; cases l') simp_all

instantiation level :: linorder
begin

definition less_eq_level :: "level \<Rightarrow> level \<Rightarrow> bool" where
  "less_eq_level l l' \<longleftrightarrow> level_rank l \<le> level_rank l'"

definition less_level :: "level \<Rightarrow> level \<Rightarrow> bool" where
  "less_level l l' \<longleftrightarrow> level_rank l < level_rank l'"

instance
  by standard (auto simp: less_eq_level_def less_level_def dest: level_rank_inj)

end

definition enabled :: "level \<Rightarrow> bool" where
  "enabled lvl \<longleftrightarrow> InfoLevel \<le> lvl"

datatype rt_log =
    ParseFailure
  | Entry level string string "bytes \<rightharpoonup> json"   \<comment> \<open>level, message, target, fields\<close>

definition level_of :: "string \<Rightarrow> level" where
  "level_of x =
     (if x = ''ERROR'' then ErrorLevel else if x = ''WARN'' then WarnLevel
      else if x = ''INFO'' then InfoLevel else if x = ''DEBUG'' then DebugLevel
      else if x = ''TRACE'' then DebugLevel else InfoLevel)"

text \<open>A Go map made from an object: the last member of a name counts.\<close>

definition go_map :: "(bytes \<times> json) list \<Rightarrow> bytes \<rightharpoonup> json" where
  "go_map ms = map_of (rev ms)"

definition split_fields :: "json option \<Rightarrow> string \<times> (bytes \<rightharpoonup> json)" where
  "split_fields v =
     (case v of
        Some (JObj fs) \<Rightarrow>
          (case go_map fs (bytes_of ''message'') of
             Some (JStr x) \<Rightarrow> (string_of x, (go_map fs)(bytes_of ''message'' := None))
           | _ \<Rightarrow> (''homegw-rt log'', go_map fs))
      | _ \<Rightarrow> (''homegw-rt log'', Map.empty))"

definition log_entry :: "(bytes \<rightharpoonup> json) \<Rightarrow> rt_log" where
  "log_entry msg =
     (let (message, rest) = split_fields (msg (bytes_of ''fields''));
          lvl = (case msg (bytes_of ''level'') of Some (JStr x) \<Rightarrow> level_of (string_of x) | _ \<Rightarrow> InfoLevel);
          target = (case msg (bytes_of ''target'') of Some (JStr x) \<Rightarrow> string_of x | _ \<Rightarrow> [])
      in Entry lvl message target rest)"

definition rt_log_line :: "bytes \<Rightarrow> rt_log" where
  "rt_log_line line =
     (case json_parse line of
        Some JNull \<Rightarrow> log_entry Map.empty
      | Some (JObj ms) \<Rightarrow> if numbers_ok (JObj ms) then log_entry (go_map ms) else ParseFailure
      | _ \<Rightarrow> ParseFailure)"

text \<open>
  The relay: entries for the lines the scanner delivers, and the fatal exit that the deferred
  function makes of every end of the scan.
\<close>

definition relay_log :: "bytes \<Rightarrow> rt_log list \<times> unit failure" where
  "relay_log input = (map rt_log_line (scan_lines input), Fatal ''homegw-rt exited'')"

section \<open>Lemmas\<close>

lemma scan_lines_long:
  assumes "10 \<notin> set l" "max_token \<le> length l"
  shows "scan_lines (l @ s) = []"
proof -
  have "takeWhile (\<lambda>c. c \<noteq> 10) (l @ s) = l @ takeWhile (\<lambda>c. c \<noteq> 10) s"
    using assms(1) by (intro takeWhile_append2) auto
  with assms(2) show ?thesis by (simp add: scan_lines.simps [of "l @ s"] Let_def)
qed

lemma scan_lines_then:
  "\<forall>l \<in> set ls. 10 \<notin> set l \<and> (l = [] \<or> last l \<noteq> 13) \<and> length l < max_token \<Longrightarrow>
     scan_lines (concat (map (\<lambda>l. l @ [10]) ls) @ s) = ls @ scan_lines s"
  by (induction ls) (simp_all add: scan_lines_line)

lemmas log_eval = rt_log_line_def json_eval float64_range_def number_parts_def go_map_def log_entry_def
  split_fields_def level_of_def string_of_def

text \<open>Of the helper's levels exactly \<open>DEBUG\<close> and \<open>TRACE\<close> are not written; an unknown level counts as \<open>INFO\<close>.\<close>

lemma enabled_level_of: "enabled (level_of x) \<longleftrightarrow> x \<noteq> ''DEBUG'' \<and> x \<noteq> ''TRACE''"
  by (auto simp: enabled_def level_of_def less_eq_level_def)

section \<open>Properties\<close>

text \<open>
  C40: The helper's log is relayed line by line, each line as exactly one entry, up to the first line
  of 64 KiB or more: that line, and everything after it, is dropped and the gateway's init process
  exits.
\<close>

theorem rt_long_line_ends_relay:
  assumes "\<forall>l \<in> set ls. 10 \<notin> set l \<and> (l = [] \<or> last l \<noteq> 13) \<and> length l < max_token"
    and "10 \<notin> set long" "max_token \<le> length long"
  shows "relay_log (concat (map (\<lambda>l. l @ [10]) ls) @ long @ rest) = (map rt_log_line ls, Fatal ''homegw-rt exited'')"
  using assms by (simp add: relay_log_def scan_lines_then scan_lines_long)

section \<open>Witnesses\<close>

definition demo_line :: bytes where
  \<open>demo_line = bytes_of ''{"level":"WARN","fields":{"message":"hot","t":81},"target":"rt"}''\<close>

lemma demo_line_entry: "rt_log_line demo_line = Entry WarnLevel ''hot'' ''rt'' [[116] \<mapsto> JNum [56, 49]]"
  by (simp add: demo_line_def log_eval digits_val_def fun_upd_def fun_eq_iff char_of_def bit_0)

lemma demo_line_plain: "10 \<notin> set demo_line \<and> last demo_line \<noteq> 13 \<and> length demo_line < max_token"
  by (simp add: demo_line_def bytes_of_def max_token_def)

theorem rt_long_line_ends_relay_witness:
  "relay_log (demo_line @ [10] @ replicate max_token 65 @ [10] @ demo_line) =
     ([Entry WarnLevel ''hot'' ''rt'' [[116] \<mapsto> JNum [56, 49]]], Fatal ''homegw-rt exited'')"
  using rt_long_line_ends_relay [of "[demo_line]" "replicate max_token 65" "[10] @ demo_line"] demo_line_plain
  by (simp add: demo_line_entry)

end
