(* ===== verification/Init_Main.thy ===== *)
theory Init_Main
  imports Init_Config Rt_Control
begin

text \<open>
  \<open>main\<close> of \<^verbatim>\<open>homegw-init/main.go\<close> from the loaded configuration to the running services, with
  \<open>setupLogging\<close> of \<^verbatim>\<open>bootstrap.go\<close>. \<open>main_init\<close> is the main goroutine over system calls; the goroutine
  that opens the disks and the one that waits for it are the step relation \<open>boot_step\<close>. Log entries are
  not part of the model.
\<close>

section \<open>base64 into a fixed buffer\<close>

text \<open>
  \<open>base64.StdEncoding.Decode\<close> into a buffer with \<open>room\<close> bytes left: the bytes written and whether it ends
  in an error. A quantum that does not fit panics, before anything after it has been looked at.
\<close>

fun decode_quanta :: "nat \<Rightarrow> bytes \<Rightarrow> go_panic + bytes \<times> bool" where
  "decode_quanta room [] = Inr ([], False)"
| "decode_quanta room (a # b # c # d # rest) =
     (case (b64_val a, b64_val b, b64_val c, b64_val d) of
        (Some x, Some y, Some z, Some w) \<Rightarrow>
          if room < 3 then Inl IndexRange
          else bindR (decode_quanta (room - 3) rest) (\<lambda>(r, err).
                 Inr (of_nat (b64_word x y z w div 65536) # of_nat (b64_word x y z w div 256 mod 256)
                        # of_nat (b64_word x y z w mod 256) # r, err))
      | (Some x, Some y, Some z, None) \<Rightarrow>
          if d \<noteq> b64_pad then Inr ([], True)
          else if room < 2 then Inl IndexRange
          else Inr ([of_nat (b64_word x y z 0 div 65536), of_nat (b64_word x y z 0 div 256 mod 256)], rest \<noteq> [])
      | (Some x, Some y, None, _) \<Rightarrow>
          if c \<noteq> b64_pad \<or> d \<noteq> b64_pad then Inr ([], True)
          else if room < 1 then Inl IndexRange
          else Inr ([of_nat (b64_word x y 0 0 div 65536)], rest \<noteq> [])
      | _ \<Rightarrow> Inr ([], True))"
| "decode_quanta room _ = Inr ([], True)"

text \<open>The key the API server gets, a 32-byte array, and whether kexec is enabled.\<close>

definition kexec_key :: "string \<Rightarrow> go_panic + bytes \<times> bool" where
  "kexec_key configured =
     bindR (decode_quanta 32 (filter (\<lambda>c. c \<noteq> 10 \<and> c \<noteq> 13) (bytes_of configured))) (\<lambda>(written, err).
       Inr (written @ replicate (32 - length written) 0, \<not> err \<and> length written = 32))"

section \<open>The main goroutine\<close>

definition is_emergency :: "string list \<Rightarrow> bool" where
  "is_emergency args \<longleftrightarrow> length args = 2 \<and> args ! 1 = ''emergency-kexec''"

definition key_file :: string where "key_file = ''/kexec-encryption-key.txt''"

text \<open>
  \<open>c.Build()\<close> opens the outputs in order; the Kafka sink panics when its producer cannot be created,
  every other error is fatal. The scheme of a URL is compared without regard to case.
\<close>

definition kafka_scheme :: "string \<Rightarrow> bool" where
  "kafka_scheme url \<longleftrightarrow> CHR '':'' \<in> set url
     \<and> map upper (bytes_of (takeWhile (\<lambda>c. c \<noteq> CHR '':'') url)) = bytes_of ''KAFKA''"

definition setupLogging :: "string \<Rightarrow> (os, unit failure + unit) state" where
  "setupLogging kafkaUrl =
     try_then
       (if kafkaUrl \<noteq> [] then
          try_then (must (Fatal ''can't initialize zap logger'') (OpenSink kafkaUrl)) (\<lambda>_.
          if kafka_scheme kafkaUrl then must (Panic ExplicitPanic) (NewProducer kafkaUrl)
          else State_Monad.return (Inr ()))
        else State_Monad.return (Inr ()))
       (\<lambda>_. must (Fatal ''can't initialize zap logger'')
              (BuildLogger (''stderr'' # (if kafkaUrl \<noteq> [] then [kafkaUrl] else []))))"

definition disableCoreDump :: "(os, unit failure + unit) state" where
  "disableCoreDump = must (Fatal ''can't disable core dumps'') PrctlNotDumpable"

text \<open>\<open>exe\<close> is what \<^verbatim>\<open>/proc/self/exe\<close> holds.\<close>

definition computeSelfHash :: "bytes \<Rightarrow> (os, unit failure + bytes) state" where
  "computeSelfHash exe =
     try_then (must (Fatal ''failed to open /proc/self/exe'') (OpenRead ''/proc/self/exe'')) (\<lambda>_.
     try_then (must (Fatal ''failed to stat /proc/self/exe'') StatFile) (\<lambda>_.
     try_then (must (Fatal ''failed to mmap /proc/self/exe'') (MapFile (length exe))) (\<lambda>_. do {
       ignore (CloseFd ''/proc/self/exe'');
       State_Monad.return (Inr (sha256 exe)) })))"

text \<open>A component whose error is logged and otherwise ignored.\<close>

definition attempt :: "(os, 'e + 'a) state \<Rightarrow> (os, unit) state" where
  "attempt m = do { _ \<leftarrow> m; State_Monad.return () }"

text \<open>
  The completion channel the kexec handler will wait on, and the host key when the supervising
  goroutine of the SSH server was started: without an SSH server the channel is closed at once.
\<close>

definition start_ssh :: "SshServerConfig option \<Rightarrow> (os, unit chan \<times> memfd option) state" where
  "start_ssh cfg =
     (case cfg of
        None \<Rightarrow> State_Monad.return ((make_chan 0)\<lparr>closed := True\<rparr>, None)
      | Some c \<Rightarrow> do {
          r \<leftarrow> ssh_Spawn c;
          State_Monad.return (make_chan 0, case r of Inl _ \<Rightarrow> None | Inr hostKey \<Rightarrow> Some hostKey) })"

definition start_api :: "InitConfig \<Rightarrow> go_panic + (api_server \<times> ApiServerConfig) option" where
  "start_api config =
     (case init_ApiServer config of
        None \<Rightarrow> Inr None
      | Some cfg \<Rightarrow>
          bindR (kexec_key (init_KexecEncryptionKey config)) (\<lambda>(key, enabled).
            Inr (Some (\<lparr>Version = init_Version config, KexecEnabled = enabled, KexecEncryptionKey = key,
                        Disks = map Mountpoint (init_Disks config)\<rparr>, cfg))))"

record services =
  teslaApi :: "VehicleApi option list"
  apiServer :: "(api_server \<times> ApiServerConfig) option"
  sshCompletion :: "unit chan"
  sshHostKey :: "memfd option"
  selfHash :: bytes

definition setup_network :: "InitConfig \<Rightarrow> (os, unit) state" where
  "setup_network config = do {
     for_each (Wireguard config) (\<lambda>wg. attempt (wireguard_Apply wg));
     for_each (Netif config) (\<lambda>netif. attempt (netif_Start netif));
     for_each (FsPermissions config) fs_permission_Apply;
     for_each (Sysctl config) sysctl_Apply }"

definition main_init :: "(string \<Rightarrow> bool) \<Rightarrow> bytes \<Rightarrow> InitConfig \<Rightarrow> bytes \<Rightarrow> (os, unit failure + services) state" where
  "main_init new_client_ok exe config configText = do {
     ignore (WriteFile key_file (bytes_of (init_KexecEncryptionKey config)));
     try_then (setupLogging (LogKafkaUrl config)) (\<lambda>_.
     try_then disableCoreDump (\<lambda>_.
     try_then (NewRtControl configText) (\<lambda>_.
     try_then (computeSelfHash exe) (\<lambda>hash. do {
       ignore (Sethostname (Hostname config));
       setup_network config;
       (completion, hostKey) \<leftarrow> start_ssh (init_SshServer config);
       State_Monad.return
         (case start_api config of
            Inl p \<Rightarrow> Inl (Panic p)
          | Inr api \<Rightarrow> Inr \<lparr>teslaApi = start_tesla new_client_ok (init_TeslaApi config), apiServer = api,
                           sshCompletion = completion, sshHostKey = hostKey, selfHash = hash\<rparr>) })))) }"

section \<open>Disks, then network boot\<close>

record boot_tasks =
  disks_left :: "DiskConfig list"
  disks_tried :: "DiskConfig list"
  diskOpened :: "unit chan"
  netboot_root :: "string option"

definition new_tasks :: "InitConfig \<Rightarrow> boot_tasks" where
  "new_tasks config = \<lparr>disks_left = init_Disks config, disks_tried = [], diskOpened = make_chan 0, netboot_root = None\<rparr>"

inductive boot_step :: "InitConfig \<Rightarrow> boot_tasks \<Rightarrow> boot_tasks \<Rightarrow> bool" for config where
  opens: "disks_left s = d # ds \<Longrightarrow> boot_step config s (s\<lparr>disks_left := ds, disks_tried := disks_tried s @ [d]\<rparr>)"
| all_opened: "disks_left s = [] \<Longrightarrow> close_chan (diskOpened s) = Inr c \<Longrightarrow> boot_step config s (s\<lparr>diskOpened := c\<rparr>)"
| serves: "closed (diskOpened s) \<Longrightarrow> init_Netboot config = Some nb \<Longrightarrow> netboot_root s = None \<Longrightarrow>
    boot_step config s (s\<lparr>netboot_root := Some (TftpRoot nb)\<rparr>)"

inductive_cases boot_stepE: "boot_step config s s'"

section \<open>Kernel messages\<close>

text \<open>
  \<open>counts i\<close> is \<open>TotalCompletedMessages\<close> at the \<open>i\<close>-th poll; \<open>kmsg\<close> the kernel log, if it can be opened. The
  result is the lines relayed, \<open>None\<close> when the relay never starts.
\<close>

partial_function (option) first_completed :: "(nat \<Rightarrow> 64 word) \<Rightarrow> nat \<Rightarrow> nat option" where
  "first_completed counts i = (if counts i = 0 then first_completed counts (Suc i) else Some i)"

definition relayKernelLogs :: "(nat \<Rightarrow> 64 word) \<Rightarrow> bytes option \<Rightarrow> bytes list option" where
  "relayKernelLogs counts kmsg =
     (case first_completed counts 0 of
        None \<Rightarrow> None
      | Some _ \<Rightarrow> Some (case kmsg of None \<Rightarrow> [] | Some input \<Rightarrow> scan_lines input))"

section \<open>Lemmas\<close>

lemma ex_not_iff: "(\<exists>b. P b \<and> \<not> b) \<longleftrightarrow> P False"
  by (auto intro: exI [of _ False])

lemma decode_quanta_ok:
  "decode_quanta room s = Inr (bs, False) \<longleftrightarrow> b64_quanta s = Some bs \<and> length bs \<le> room"
proof (induction s arbitrary: room bs rule: b64_quanta.induct)
  case (2 a b c d rest)
  then show ?case
    by (auto simp: bindR_Inr_iff ex_not_iff split: option.splits prod.splits if_splits)
qed auto

lemma decode_quanta_panic:
  "b64_quanta s = Some bs \<Longrightarrow> room < length bs \<Longrightarrow> decode_quanta room s = Inl IndexRange"
proof (induction s arbitrary: room bs rule: b64_quanta.induct)
  case (2 a b c d rest)
  then show ?case
    by (auto simp: bindR_Inl_iff split: option.splits prod.splits if_splits)
qed auto

lemma kexec_key_enabled_iff:
  "kexec_key configured = Inr (key, True) \<longleftrightarrow> base64_decode (bytes_of configured) = Some key \<and> length key = 32"
proof -
  let ?s = "filter (\<lambda>c. c \<noteq> 10 \<and> c \<noteq> 13) (bytes_of configured)"
  have "kexec_key configured = Inr (key, True) \<longleftrightarrow> decode_quanta 32 ?s = Inr (key, False) \<and> length key = 32"
  proof (cases "decode_quanta 32 ?s")
    case (Inr r)
    then show ?thesis by (cases r) (auto simp: kexec_key_def)
  qed (simp add: kexec_key_def)
  then show ?thesis using decode_quanta_ok [of 32 ?s key] by (auto simp: base64_decode_def)
qed

lemma kexec_key_too_long:
  "base64_decode (bytes_of configured) = Some key \<Longrightarrow> 32 < length key \<Longrightarrow> kexec_key configured = Inl IndexRange"
  by (simp add: kexec_key_def base64_decode_def decode_quanta_panic)

text \<open>Every computation of \<open>main\<close> only adds to the trace.\<close>

lemma emits_parts:
  "emits (\<lambda>_. True) (setupLogging url)" "emits (\<lambda>_. True) disableCoreDump" "emits (\<lambda>_. True) (computeSelfHash exe)"
  "emits (\<lambda>_. True) (NewRtControl text)"
  by (auto simp: setupLogging_def disableCoreDump_def computeSelfHash_def NewRtControl_def intro!: emits_rules)

lemma emits_memfd: "emits (\<lambda>_. True) (NewMemfdReadonlyBuffer name data)"
  unfolding NewMemfdReadonlyBuffer_def writeAndSeal_calls by (auto simp: Let_def intro!: emits_rules split: sum.splits)

lemma emits_attempt: "emits P m \<Longrightarrow> emits P (attempt m)"
  unfolding attempt_def by (intro emits_bind emits_return)

lemma emits_setup_network: "emits (\<lambda>_. True) (setup_network config)"
proof -
  have "emits (\<lambda>_. True) (wireguard_Apply wg)" for wg
    unfolding wireguard_Apply_def run_with_secret_def by (auto intro!: emits_rules emits_memfd)
  moreover have "emits (\<lambda>_. True) (netif_Start c)" for c
    unfolding netif_Start_def netif_static_def write_resolv_conf_def by (auto intro!: emits_rules)
  moreover have "emits (\<lambda>_. True) (fs_permission_Apply p)" "emits (\<lambda>_. True) (sysctl_Apply y)" for p y
    unfolding fs_permission_Apply_def sysctl_Apply_def by (auto intro!: emits_rules)
  ultimately show ?thesis unfolding setup_network_def by (intro emits_bind emits_for_each emits_attempt)
qed

lemma emits_start_ssh: "emits (\<lambda>_. True) (start_ssh cfg)"
  unfolding start_ssh_def ssh_Spawn_def by (auto intro!: emits_rules emits_memfd split: option.splits)

lemma emits_main:
  "emits (\<lambda>_. True) (try_then (setupLogging (LogKafkaUrl config)) (\<lambda>_.
     try_then disableCoreDump (\<lambda>_.
     try_then (NewRtControl configText) (\<lambda>_.
     try_then (computeSelfHash exe) (\<lambda>hash. do {
       ignore (Sethostname (Hostname config));
       setup_network config;
       (completion, hostKey) \<leftarrow> start_ssh (init_SshServer config);
       State_Monad.return (f hash completion hostKey) })))))"
  by (intro emits_rules emits_parts emits_setup_network emits_start_ssh TrueI) (auto intro: emits_return split: prod.splits)

text \<open>The calls whose failure ends \<open>main\<close>.\<close>

fun essential :: "os_event \<Rightarrow> bool" where
  "essential (OpenSink _) = True"
| "essential (NewProducer _) = True"
| "essential (BuildLogger _) = True"
| "essential PrctlNotDumpable = True"
| "essential Pipe = True"
| "essential (ListenUnix _) = True"
| "essential DupListener = True"
| "essential StdinPipe = True"
| "essential (StartHelper _ _) = True"
| "essential (OpenRead _) = True"
| "essential StatFile = True"
| "essential (MapFile _) = True"
| "essential _ = False"

definition tasks_ok :: "InitConfig \<Rightarrow> boot_tasks \<Rightarrow> bool" where
  "tasks_ok config s \<longleftrightarrow> disks_tried s @ disks_left s = init_Disks config
     \<and> (closed (diskOpened s) \<longrightarrow> disks_left s = []) \<and> (netboot_root s \<noteq> None \<longrightarrow> closed (diskOpened s))"

lemma tasks_ok_step: "boot_step config s s' \<Longrightarrow> tasks_ok config s \<Longrightarrow> tasks_ok config s'"
  by (erule boot_stepE) (auto simp: tasks_ok_def close_chan_def split: if_splits)

interpretation booting: step_system "boot_step config" "new_tasks config" "tasks_ok config" for config
  by unfold_locales (simp add: tasks_ok_def new_tasks_def make_chan_def, rule tasks_ok_step)

text \<open>
  When \<open>Spawn\<close> fails, nobody is left to close the completion channel: the kexec handler, which receives
  from it, will hang.
\<close>

lemma spawn_failure_blocks_completion:
  "run_state (start_ssh (Some c)) s = ((completion, None), s') \<Longrightarrow> try_recv completion = RecvBlocks"
  by (auto simp: start_ssh_def try_recv_def make_chan_def split: prod.splits)

section \<open>Properties\<close>

text \<open>
  C33: The running gateway and its rescue process agree about the encryption key: \<open>main\<close> enables kexec
  with a key exactly when the rescue process, given the configured text as its key file, starts with
  the same key.
\<close>

theorem rescue_key_is_api_key:
  "kexec_key configured = Inr (key, True) \<longleftrightarrow> emergency_key (Some (bytes_of configured)) = Inr key"
  by (auto simp: kexec_key_enabled_iff emergency_key_def split: option.splits if_splits)

text \<open>
  C35: The rescue process can be used as soon as a configuration was loaded: however the boot goes
  on, whatever the system answers and whether or not \<open>main\<close> gets any further, the first thing it does is
  to write the configured key to the key file.
\<close>

theorem key_file_written_first:
  "\<exists>later. trace (snd (run_state (main_init new_client_ok exe config configText) s)) =
     trace s @ WriteFile key_file (bytes_of (init_KexecEncryptionKey config)) # later"
proof -
  let ?e = "WriteFile key_file (bytes_of (init_KexecEncryptionKey config))"
  let ?f = "\<lambda>hash completion hostKey. case start_api config of Inl p \<Rightarrow> Inl (Panic p)
    | Inr api \<Rightarrow> Inr \<lparr>teslaApi = start_tesla new_client_ok (init_TeslaApi config), apiServer = api,
        sshCompletion = completion, sshHostKey = hostKey, selfHash = hash\<rparr>"
  show ?thesis
    using emits_main [of config configText exe ?f, unfolded emits_def, THEN spec, of "s\<lparr>trace := trace s @ [?e]\<rparr>"]
    by (auto simp: main_init_def os_simps)
qed

text \<open>
  C34: No optional part keeps the gateway from coming up: if the logger with its Kafka producer, the
  core-dump switch, the real-time helper and the own binary are available and the encryption key does not overflow its
  array, \<open>main\<close> reaches its end, with the API server it was configured with, whatever the system answers
  to the commands for WireGuard, interfaces, permissions, sysctls and the SSH server.
\<close>

theorem main_reaches_services:
  assumes "\<And>t e. essential e \<Longrightarrow> answers s t e" "start_api config = Inr api"
  shows "\<exists>sv s'. run_state (main_init new_client_ok exe config configText) s = (Inr sv, s') \<and> apiServer sv = api"
proof -
  have "\<exists>u c h v. run_state (setup_network config) t = ((), u) \<and> run_state (start_ssh (init_SshServer config)) u = ((c, h), v)" for t
    by (metis old.unit.exhaust surj_pair)
  then show ?thesis
    using assms by (simp add: main_init_def os_simps setupLogging_def disableCoreDump_def NewRtControl_def computeSelfHash_def split: prod.splits)
qed

text \<open>
  C39: The TFTP server is started only after every configured disk has been tried, in order, so that
  its root may lie on one of them.
\<close>

theorem netboot_after_disks:
  assumes "(boot_step config)\<^sup>*\<^sup>* (new_tasks config) s" "netboot_root s = Some root"
  shows "disks_tried s = init_Disks config"
  using booting.always [OF assms(1)] assms(2) by (auto simp: tasks_ok_def)

section \<open>Witnesses\<close>

definition demo_init :: InitConfig where
  "demo_init = (make_InitConfig (\<lambda>_. []))\<lparr>init_ApiServer := Some demo_api,
     init_KexecEncryptionKey := string_of (base64_encode (replicate 32 7)),
     init_Disks := [demo_disk ''AAAA''], init_Netboot := Some \<lparr>TftpRoot = ''/srv''\<rparr>\<rparr>"

lemma demo_init_simps [simp]:
  "init_ApiServer demo_init = Some demo_api" "init_Disks demo_init = [demo_disk ''AAAA'']"
  "init_Netboot demo_init = Some \<lparr>TftpRoot = ''/srv''\<rparr>"
  by (simp_all add: demo_init_def)

lemma demo_start_api: "\<exists>a. start_api demo_init = Inr (Some (a, demo_api)) \<and> KexecEnabled a"
proof -
  have "kexec_key (init_KexecEncryptionKey demo_init) = Inr (replicate 32 7, True)"
    by (simp add: kexec_key_enabled_iff demo_init_def)
  then show ?thesis by (simp add: start_api_def)
qed

theorem main_reaches_services_witness:
  "\<exists>a sv s'. run_state (main_init (\<lambda>_. True) [1, 2] demo_init [123, 125]) \<lparr>answers = (\<lambda>_. essential), trace = []\<rparr> = (Inr sv, s')
     \<and> apiServer sv = Some (a, demo_api) \<and> KexecEnabled a"
proof -
  obtain a where a: "start_api demo_init = Inr (Some (a, demo_api))" "KexecEnabled a" using demo_start_api by blast
  show ?thesis
    using main_reaches_services [of "\<lparr>answers = (\<lambda>_. essential), trace = []\<rparr>", OF _ a(1), of "\<lambda>_. True" "[1, 2]" "[123, 125]"] a(2)
    by auto
qed

theorem netboot_after_disks_witness:
  "\<exists>s. (boot_step demo_init)\<^sup>*\<^sup>* (new_tasks demo_init) s \<and> netboot_root s = Some ''/srv''
     \<and> disks_tried s = init_Disks demo_init"
proof -
  let ?s1 = "(new_tasks demo_init)\<lparr>disks_left := [], disks_tried := [demo_disk ''AAAA'']\<rparr>"
  let ?s2 = "?s1\<lparr>diskOpened := (make_chan 0)\<lparr>closed := True\<rparr>\<rparr>"
  let ?s3 = "?s2\<lparr>netboot_root := Some ''/srv''\<rparr>"
  have "boot_step demo_init (new_tasks demo_init) ?s1"
    using boot_step.opens [of "new_tasks demo_init" "demo_disk ''AAAA''" "[]" demo_init] by (simp add: new_tasks_def)
  moreover have "boot_step demo_init ?s1 ?s2"
    by (rule boot_step.all_opened) (simp_all add: new_tasks_def close_chan_def make_chan_def)
  moreover have "boot_step demo_init ?s2 ?s3"
    using boot_step.serves [of ?s2 demo_init "\<lparr>TftpRoot = ''/srv''\<rparr>"] by (simp add: new_tasks_def)
  ultimately have r: "(boot_step demo_init)\<^sup>*\<^sup>* (new_tasks demo_init) ?s3"
    by (meson rtranclp.rtrancl_into_rtrancl r_into_rtranclp)
  have n: "netboot_root ?s3 = Some ''/srv''" by simp
  show ?thesis using r n netboot_after_disks [OF r n] by blast
qed

end
