(* ===== verification/Kafka_Sink.thy ===== *)
theory Kafka_Sink
  imports Go_Sync
begin

text \<open>
  \<^verbatim>\<open>homegw-libs/kafka-sink/lib.go\<close>: the log sink. \<open>Write\<close> puts a copy of the entry on a bounded channel and
  then counts it, a worker takes entries off, joins them into batches and hands each batch to the
  producer until it is accepted, and \<open>Sync\<close> waits until as many entries were completed as had been
  issued. The goroutines interleave; each atomic action of the source is one step. The broker's
  answers are the worker's argument.
\<close>

section \<open>State and steps\<close>

text \<open>
  Where the worker is: at the receive, in the loop that fills a batch, in the loop around
  \<open>SendMessage\<close>, before each of the two counter updates, or gone. The number is \<open>numMessages\<close>.
\<close>

datatype worker =
    Receiving
  | Batching bytes "64 word"
  | Sending bytes "64 word"
  | Completing "64 word"
  | Totalling "64 word"
  | Stopped

text \<open>
  \<open>uncounted\<close> is the number of \<open>Write\<close> calls between the send and \<open>issuedMessages.Add(1)\<close>. \<open>accepted\<close>, every
  entry put on the channel, and \<open>delivered\<close>, every batch the producer took, are kept for the record.
\<close>

record kafkaSink =
  msgChan :: "bytes chan"
  issuedMessages :: "64 word"
  completedMessages :: "64 word"
  TotalCompletedMessages :: "64 word"
  worker :: worker
  uncounted :: nat
  accepted :: "bytes list"
  delivered :: "bytes list"

definition new_sink :: kafkaSink where
  "new_sink = \<lparr>msgChan = make_chan 1024, issuedMessages = 0, completedMessages = 0,
     TotalCompletedMessages = 0, worker = Receiving, uncounted = 0, accepted = [], delivered = []\<rparr>"

datatype write_result = Written kafkaSink | QueueFull | WritePanic go_panic

definition Write_send :: "bytes \<Rightarrow> kafkaSink \<Rightarrow> write_result" where
  "Write_send b s =
     (case try_send b (msgChan s) of
        Sent c \<Rightarrow> Written (s\<lparr>msgChan := c, uncounted := Suc (uncounted s), accepted := accepted s @ [b]\<rparr>)
      | WouldBlock \<Rightarrow> QueueFull
      | SendPanic p \<Rightarrow> WritePanic p)"

definition Write_count :: "kafkaSink \<Rightarrow> kafkaSink" where
  "Write_count s = s\<lparr>issuedMessages := issuedMessages s + 1, uncounted := uncounted s - 1\<rparr>"

definition Close :: "kafkaSink \<Rightarrow> go_panic + kafkaSink" where
  "Close s = (case close_chan (msgChan s) of Inl p \<Rightarrow> Inl p | Inr c \<Rightarrow> Inr (s\<lparr>msgChan := c\<rparr>))"

definition batch_limit :: nat where "batch_limit = 256 * 1024"

text \<open>One action of the worker; \<open>None\<close> where it waits. \<open>ok\<close> is the producer's answer.\<close>

definition worker_step :: "bool \<Rightarrow> kafkaSink \<Rightarrow> kafkaSink option" where
  "worker_step ok s =
     (case worker s of
        Receiving \<Rightarrow>
          (case try_recv (msgChan s) of
             Received (Some msg) c \<Rightarrow> Some (s\<lparr>msgChan := c, worker := Batching msg 1\<rparr>)
           | Received None c \<Rightarrow> Some (s\<lparr>worker := Stopped\<rparr>)
           | RecvBlocks \<Rightarrow> None)
      | Batching msg n \<Rightarrow>
          if batch_limit \<le> length msg then Some (s\<lparr>worker := Sending msg n\<rparr>)
          else (case try_recv (msgChan s) of
                  Received (Some nextMsg) c \<Rightarrow> Some (s\<lparr>msgChan := c, worker := Batching (msg @ nextMsg) (n + 1)\<rparr>)
                | Received None c \<Rightarrow> Some (s\<lparr>worker := Sending msg n\<rparr>)
                | RecvBlocks \<Rightarrow> Some (s\<lparr>worker := Sending msg n\<rparr>))
      | Sending msg n \<Rightarrow>
          if ok then Some (s\<lparr>worker := Completing n, delivered := delivered s @ [msg]\<rparr>)
          else Some s
      | Completing n \<Rightarrow> Some (s\<lparr>worker := Totalling n, completedMessages := completedMessages s + n\<rparr>)
      | Totalling n \<Rightarrow> Some (s\<lparr>worker := Receiving, TotalCompletedMessages := TotalCompletedMessages s + n\<rparr>)
      | Stopped \<Rightarrow> None)"

text \<open>\<open>Sync\<close> reads the issued count once and returns when this holds.\<close>

definition Sync_done :: "64 word \<Rightarrow> kafkaSink \<Rightarrow> bool" where
  "Sync_done currentIssuedMessages s \<longleftrightarrow> \<not> completedMessages s < currentIssuedMessages"

inductive sink_step :: "kafkaSink \<Rightarrow> kafkaSink \<Rightarrow> bool" where
  writes: "Write_send b s = Written s' \<Longrightarrow> sink_step s s'"
| counts: "0 < uncounted s \<Longrightarrow> sink_step s (Write_count s)"
| works: "worker_step ok s = Some s' \<Longrightarrow> sink_step s s'"
| closes: "Close s = Inr s' \<Longrightarrow> sink_step s s'"

inductive_cases sink_stepE: "sink_step s s'"

abbreviation sink_steps :: "kafkaSink \<Rightarrow> kafkaSink \<Rightarrow> bool" where
  "sink_steps \<equiv> sink_step\<^sup>*\<^sup>*"

section \<open>The sink's configuration\<close>

text \<open>\<open>strconv.Atoi\<close> where \<open>int\<close> has 32 bits, and the conversion to \<open>sarama.RequiredAcks\<close>, an \<open>int16\<close>.\<close>

fun decimal :: "nat \<Rightarrow> bytes \<Rightarrow> nat option" where
  "decimal acc [] = Some acc"
| "decimal acc (c # cs) = (if 48 \<le> c \<and> c \<le> 57 then decimal (10 * acc + (unat c - 48)) cs else None)"

definition Atoi :: "string \<Rightarrow> int option" where
  "Atoi str =
     (let b = bytes_of str;
          (neg, ds) = (case b of c # cs \<Rightarrow> if c = 45 then (True, cs) else if c = 43 then (False, cs) else (False, b)
                       | [] \<Rightarrow> (False, []))
      in if ds = [] then None
         else case decimal 0 ds of
                None \<Rightarrow> None
              | Some n \<Rightarrow>
                  (let v = (if neg then - int n else int n)
                   in if - (2 ^ 31) \<le> v \<and> v < 2 ^ 31 then Some v else None))"

definition RequiredAcks_of :: "int \<Rightarrow> int" where
  "RequiredAcks_of i = sint (word_of_int i :: 16 word)"

record sink_url =
  Host :: string
  Username :: string
  Password :: string
  query :: "string \<Rightarrow> string"

record sarama_config =
  Return_Successes :: bool
  Metadata_Full :: bool
  RequiredAcks :: int
  Retry_Max :: int
  SASL_Enable :: bool
  SASL_Mechanism :: string
  SASL_User :: string
  SASL_Password :: string
  TLS_Enable :: bool

definition configure_sink :: "sarama_config \<Rightarrow> sink_url \<Rightarrow> sarama_config" where
  "configure_sink config u =
     (let c1 = config\<lparr>Return_Successes := True, Metadata_Full := False\<rparr>;
          ack = query u ''acks'';
          c2 = (if ack \<noteq> [] then (case Atoi ack of Some iack \<Rightarrow> c1\<lparr>RequiredAcks := RequiredAcks_of iack\<rparr> | None \<Rightarrow> c1)
                else c1);
          retries = query u ''retries'';
          c3 = (if retries \<noteq> [] then (case Atoi retries of Some iretries \<Rightarrow> c2\<lparr>Retry_Max := iretries\<rparr> | None \<Rightarrow> c2)
                else c2)
      in c3\<lparr>SASL_Enable := True, SASL_Mechanism := ''SCRAM-SHA-256'', SASL_User := Username u,
            SASL_Password := Password u, TLS_Enable := True\<rparr>)"

text \<open>
  \<open>new_config\<close> is \<open>sarama.NewConfig()\<close>, \<open>new_producer\<close> whether \<open>sarama.NewSyncProducer\<close> succeeds.
\<close>

definition getKafkaSink ::
  "(string list \<Rightarrow> sarama_config \<Rightarrow> bool) \<Rightarrow> string list \<Rightarrow> sarama_config \<Rightarrow> (unit, kafkaSink) result" where
  "getKafkaSink new_producer brokers config =
     (if \<not> new_producer brokers config then Inl (Panic ExplicitPanic) else Inr new_sink)"

definition InitKafkaSink ::
  "sarama_config \<Rightarrow> (string list \<Rightarrow> sarama_config \<Rightarrow> bool) \<Rightarrow> sink_url \<Rightarrow> (unit, kafkaSink) result" where
  "InitKafkaSink new_config new_producer u =
     (if query u ''topic'' = [] then Inl (Error ())
      else getKafkaSink new_producer [Host u] (configure_sink new_config u))"

section \<open>Nothing lost, nothing reordered\<close>

text \<open>What the worker's place says about its batch and the completed count, \<open>k\<close> entries being delivered.\<close>

fun worker_ok :: "worker \<Rightarrow> 64 word \<Rightarrow> nat \<Rightarrow> bytes list \<Rightarrow> bool" where
  "worker_ok (Batching msg n) c k batch = (msg = concat batch \<and> n = of_nat (length batch) \<and> c = of_nat k)"
| "worker_ok (Sending msg n) c k batch = (msg = concat batch \<and> n = of_nat (length batch) \<and> c = of_nat k)"
| "worker_ok (Completing n) c k batch = (batch = [] \<and> (\<exists>j \<le> k. c = of_nat j) \<and> c + n = of_nat k)"
| "worker_ok _ c k batch = (batch = [] \<and> c = of_nat k)"

text \<open>
  The invariant: the first \<open>k\<close> accepted entries are delivered, the next ones are in the worker's batch
  and the rest is on the channel, in order; the counters say the same.
\<close>

definition sink_inv :: "nat \<Rightarrow> bytes list \<Rightarrow> kafkaSink \<Rightarrow> bool" where
  "sink_inv k batch s \<longleftrightarrow>
     accepted s = take k (accepted s) @ batch @ buf (msgChan s) \<and> k \<le> length (accepted s)
     \<and> concat (delivered s) = concat (take k (accepted s))
     \<and> worker_ok (worker s) (completedMessages s) k batch
     \<and> issuedMessages s + of_nat (uncounted s) = of_nat (length (accepted s))
     \<and> uncounted s \<le> length (accepted s)
     \<and> (worker s = Stopped \<longrightarrow> closed (msgChan s) \<and> buf (msgChan s) = [])"

lemma sink_inv_new: "sink_inv 0 [] new_sink"
  by (simp add: sink_inv_def new_sink_def make_chan_def)

lemma sink_inv_write:
  "sink_inv k batch s \<Longrightarrow> Write_send b s = Written s' \<Longrightarrow> sink_inv k batch s' \<and> accepted s' = accepted s @ [b]"
  by (auto simp: sink_inv_def Write_send_def try_send_def split: send_result.splits if_splits)

lemma sink_inv_count: "sink_inv k batch s \<Longrightarrow> 0 < uncounted s \<Longrightarrow> sink_inv k batch (Write_count s)"
  by (auto simp: sink_inv_def Write_count_def of_nat_diff)

lemma sink_inv_close: "sink_inv k batch s \<Longrightarrow> Close s = Inr s' \<Longrightarrow> sink_inv k batch s' \<and> accepted s' = accepted s"
  by (auto simp: sink_inv_def Close_def close_chan_def split: sum.splits if_splits)

lemma sink_inv_idle:
  assumes "sink_inv k batch s" "worker_ok w c k batch" "w \<noteq> Stopped"
  shows "sink_inv k batch (s\<lparr>worker := w, completedMessages := c, TotalCompletedMessages := t\<rparr>)"
  using assms by (simp add: sink_inv_def)

lemma sink_inv_recv:
  assumes "sink_inv k batch s" "try_recv (msgChan s) = Received (Some msg) c" "worker_ok w (completedMessages s) k (batch @ [msg])"
    "w \<noteq> Stopped"
  shows "sink_inv k (batch @ [msg]) (s\<lparr>msgChan := c, worker := w\<rparr>)"
  using assms by (auto simp: sink_inv_def try_recv_def split: list.splits if_splits)

lemma sink_inv_sent:
  assumes "sink_inv k batch s" "worker s = Sending msg n"
  shows "sink_inv (k + length batch) [] (s\<lparr>worker := Completing n, delivered := delivered s @ [msg]\<rparr>)"
proof -
  from assms have a: "accepted s = take k (accepted s) @ batch @ buf (msgChan s)" "k \<le> length (accepted s)"
    by (simp_all add: sink_inv_def)
  from a(2) have "take (k + length batch) (take k (accepted s) @ batch @ buf (msgChan s)) = take k (accepted s) @ batch"
    by simp
  with arg_cong [OF a(1), of "take (k + length batch)"]
  have t: "take (k + length batch) (accepted s) = take k (accepted s) @ batch" by (rule trans)
  have "length (accepted s) = length (take k (accepted s) @ batch @ buf (msgChan s))" using a(1) by simp
  then have "k + length batch \<le> length (accepted s)" using a(2) by simp
  with assms t a show ?thesis by (auto simp: sink_inv_def intro: le_add1)
qed

lemma sink_inv_work:
  assumes "sink_inv k batch s" "worker_step ok s = Some s'"
  shows "\<exists>k' batch'. k \<le> k' \<and> sink_inv k' batch' s' \<and> accepted s' = accepted s"
proof (cases "worker s")
  case Receiving
  then have b: "batch = []" "completedMessages s = of_nat k" using assms(1) by (auto simp: sink_inv_def)
  show ?thesis
  proof (cases "\<exists>msg c. try_recv (msgChan s) = Received (Some msg) c")
    case True
    then obtain msg c where r: "try_recv (msgChan s) = Received (Some msg) c" by blast
    from sink_inv_recv [OF assms(1) this, of "Batching msg 1"] assms(2) b r Receiving show ?thesis
      by (auto simp: worker_step_def)
  next
    case False
    then have "s' = s\<lparr>worker := Stopped\<rparr>" "closed (msgChan s)" "buf (msgChan s) = []"
      using assms(2) Receiving
      by (auto simp: worker_step_def try_recv_def split: recv_result.splits option.splits list.splits if_splits)
    then show ?thesis using assms(1) b by (auto simp: sink_inv_def)
  qed
next
  case (Batching msg n)
  then have b: "msg = concat batch" "n = of_nat (length batch)" "completedMessages s = of_nat k"
    using assms(1) by (auto simp: sink_inv_def)
  show ?thesis
  proof (cases "\<exists>m c. try_recv (msgChan s) = Received (Some m) c \<and> length msg < batch_limit")
    case True
    then obtain m c where r: "try_recv (msgChan s) = Received (Some m) c" "length msg < batch_limit" by blast
    then have "s' = s\<lparr>msgChan := c, worker := Batching (msg @ m) (n + 1)\<rparr>"
      using assms(2) Batching by (simp add: worker_step_def)
    with sink_inv_recv [OF assms(1) r(1), of "Batching (msg @ m) (n + 1)"] b show ?thesis by auto
  next
    case False
    then have "s' = s\<lparr>worker := Sending msg n\<rparr>"
      using assms(2) Batching by (auto simp: worker_step_def split: recv_result.splits option.splits if_splits)
    then show ?thesis using assms(1) b by (auto simp: sink_inv_def)
  qed
next
  case (Sending msg n)
  show ?thesis
  proof (cases ok)
    case True
    then have "s' = s\<lparr>worker := Completing n, delivered := delivered s @ [msg]\<rparr>"
      using assms(2) Sending by (simp add: worker_step_def)
    with sink_inv_sent [OF assms(1) Sending] show ?thesis
      by (intro exI [of _ "k + length batch"] exI [of _ "[]"]) simp
  qed (use assms Sending in \<open>auto simp: worker_step_def\<close>)
next
  case (Completing n)
  then show ?thesis using assms by (auto simp: worker_step_def sink_inv_def)
next
  case (Totalling n)
  then show ?thesis using assms by (auto simp: worker_step_def sink_inv_def)
qed (use assms in \<open>simp add: worker_step_def\<close>)

lemma sink_inv_step:
  assumes "sink_inv k batch s" "sink_step s s'"
  shows "\<exists>k' batch'. k \<le> k' \<and> sink_inv k' batch' s' \<and> prefix (accepted s) (accepted s')"
  using assms(2)
proof (cases rule: sink_step.cases)
  case (writes b)
  with sink_inv_write [OF assms(1)] show ?thesis by fastforce
next
  case counts
  with sink_inv_count [OF assms(1)] show ?thesis by (fastforce simp: Write_count_def)
next
  case (works ok)
  with sink_inv_work [OF assms(1)] show ?thesis by fastforce
next
  case closes
  with sink_inv_close [OF assms(1)] show ?thesis by fastforce
qed

lemma sink_inv_steps:
  "sink_steps s s' \<Longrightarrow> sink_inv k batch s \<Longrightarrow>
     \<exists>k' batch'. k \<le> k' \<and> sink_inv k' batch' s' \<and> prefix (accepted s) (accepted s')"
proof (induction rule: rtranclp_induct)
  case (step t u)
  then obtain k1 batch1 where "k \<le> k1" "sink_inv k1 batch1 t" "prefix (accepted s) (accepted t)" by blast
  with sink_inv_step [OF _ step(2)] show ?case by (meson order_trans prefix_order.order_trans)
qed auto

lemma sink_inv_reachable:
  "sink_steps new_sink s \<Longrightarrow> \<exists>k batch. sink_inv k batch s"
  using sink_inv_steps [OF _ sink_inv_new] by blast

lemma sink_inv_completed: "sink_inv k batch s \<Longrightarrow> \<exists>j \<le> k. completedMessages s = of_nat j"
  by (cases "worker s") (auto simp: sink_inv_def)

lemma of_nat64_less_iff: "a < 2 ^ 64 \<Longrightarrow> b < 2 ^ 64 \<Longrightarrow> (of_nat a :: 64 word) < of_nat b \<longleftrightarrow> a < b"
  by (simp add: word_less_nat_alt unat_of_nat)

section \<open>The worker drains the channel\<close>

primrec worker_run :: "nat \<Rightarrow> kafkaSink \<Rightarrow> kafkaSink" where
  "worker_run 0 s = s"
| "worker_run (Suc n) s = (case worker_step True s of None \<Rightarrow> s | Some s' \<Rightarrow> worker_run n s')"

lemma sink_steps_run: "sink_steps s (worker_run n s)"
  by (induction n arbitrary: s)
     (auto split: option.splits intro: converse_rtranclp_into_rtranclp sink_step.works)

fun worker_rank :: "worker \<Rightarrow> nat" where
  "worker_rank (Batching _ _) = 4"
| "worker_rank (Sending _ _) = 3"
| "worker_rank (Completing _) = 2"
| "worker_rank (Totalling _) = 1"
| "worker_rank _ = 0"

definition work_left :: "kafkaSink \<Rightarrow> nat" where
  "work_left s = 5 * length (buf (msgChan s)) + worker_rank (worker s)"

lemma worker_step_progress:
  "0 < work_left s \<Longrightarrow> worker s \<noteq> Stopped \<Longrightarrow>
     \<exists>s'. worker_step True s = Some s' \<and> work_left s' < work_left s \<and> worker s' \<noteq> Stopped"
  by (cases "worker s")
     (auto simp: worker_step_def work_left_def try_recv_def split: list.splits)

lemma worker_run_drains:
  "worker s \<noteq> Stopped \<Longrightarrow> work_left s \<le> n \<Longrightarrow>
     \<exists>m. sink_steps s (worker_run m s) \<and> m \<le> n \<and> work_left (worker_run m s) = 0"
proof (induction n arbitrary: s)
  case 0
  then show ?case by (intro exI [of _ 0]) simp
next
  case (Suc n)
  show ?case
  proof (cases "work_left s")
    case 0
    then show ?thesis by (intro exI [of _ 0]) simp
  next
    case (Suc w)
    then obtain s' where s': "worker_step True s = Some s'" "work_left s' < work_left s" "worker s' \<noteq> Stopped"
      using worker_step_progress [of s] Suc.prems by auto
    then obtain m where "sink_steps s' (worker_run m s')" "m \<le> n" "work_left (worker_run m s') = 0"
      using Suc.IH [of s'] Suc.prems by fastforce
    with s' show ?thesis
      by (intro exI [of _ "Suc m"]) (auto intro: converse_rtranclp_into_rtranclp sink_step.works)
  qed
qed

lemma drained_completed:
  assumes "sink_inv k batch s" "work_left s = 0"
  shows "completedMessages s = of_nat (length (accepted s)) \<and> concat (delivered s) = concat (accepted s)"
proof -
  have "batch = []" "completedMessages s = of_nat k"
    using assms by (cases "worker s"; auto simp: sink_inv_def work_left_def)+
  moreover have "length (accepted s) = length (take k (accepted s) @ batch @ buf (msgChan s))" "k \<le> length (accepted s)"
    using assms(1) by (simp_all add: sink_inv_def)
  ultimately show ?thesis using assms by (auto simp: sink_inv_def work_left_def)
qed

section \<open>Batch sizes\<close>

definition batches_below :: "nat \<Rightarrow> kafkaSink \<Rightarrow> bool" where
  "batches_below n s \<longleftrightarrow> (\<forall>b \<in> set (delivered s). length b < n)
     \<and> (case worker s of Batching msg _ \<Rightarrow> length msg < n | Sending msg _ \<Rightarrow> length msg < n | _ \<Rightarrow> True)"

lemma batches_below_step:
  assumes "batches_below (batch_limit + l) s" "sink_step s s'" "\<forall>b \<in> set (buf (msgChan s)). length b \<le> l"
  shows "batches_below (batch_limit + l) s'"
  using assms(2)
proof (cases rule: sink_step.cases)
  case (works ok)
  have "0 < batch_limit" by (simp add: batch_limit_def)
  with works assms(1,3) show ?thesis
    by (cases "worker s")
       (auto simp: worker_step_def batches_below_def try_recv_def split: list.splits if_splits)
qed (use assms(1) in \<open>auto simp: batches_below_def Write_send_def Write_count_def Close_def
      split: send_result.splits sum.splits\<close>)

lemma batches_below_reachable:
  "sink_steps new_sink s \<Longrightarrow> \<forall>b \<in> set (accepted s). length b \<le> l \<Longrightarrow> batches_below (batch_limit + l) s"
proof (induction rule: rtranclp_induct)
  case base
  then show ?case by (simp add: batches_below_def new_sink_def)
next
  case (step s t)
  obtain k batch where i: "sink_inv k batch s" using sink_inv_reachable step(1) by blast
  from sink_inv_step [OF i step(2)] have "set (accepted s) \<subseteq> set (accepted t)" by (auto dest: set_mono_prefix)
  moreover have "set (buf (msgChan s)) \<subseteq> set (accepted s)"
    using i unfolding sink_inv_def by (metis Un_upper2 set_append subset_trans)
  ultimately show ?case using step batches_below_step [of l s t] by blast
qed

section \<open>Properties\<close>

text \<open>
  C10: The sink neither loses, duplicates nor reorders entries: at every moment the bytes handed to
  the broker are exactly the first entries accepted by \<open>Write\<close>, one after the other, and all the other
  accepted entries are in the message the worker is batching or sending, if it is, followed by those
  on the channel, in order; a worker that does neither, or that has stopped, holds none back.
\<close>

theorem sink_fifo:
  assumes "sink_steps new_sink s"
  shows "\<exists>k batch. accepted s = take k (accepted s) @ batch @ buf (msgChan s)
    \<and> concat (delivered s) = concat (take k (accepted s))
    \<and> (case worker s of
           Batching msg n \<Rightarrow> msg = concat batch \<and> n = of_nat (length batch)
         | Sending msg n \<Rightarrow> msg = concat batch \<and> n = of_nat (length batch)
         | _ \<Rightarrow> batch = [])"
proof -
  obtain k batch where "sink_inv k batch s" using sink_inv_reachable [OF assms] by blast
  then show ?thesis by (intro exI [of _ k] exI [of _ batch]) (auto simp: sink_inv_def split: worker.splits)
qed

text \<open>
  C9: \<open>Sync\<close> means what it says when the sink's callers take turns, as zap's lock makes them: if it
  starts with no \<open>Write\<close> under way and returns later, then every entry accepted before it started has
  been taken by the broker, in order.
\<close>

theorem sync_guarantee:
  assumes "sink_steps new_sink s" "uncounted s = 0" "sink_steps s s'"
    and "Sync_done (issuedMessages s) s'" "length (accepted s') < 2 ^ 64"
  shows "prefix (concat (accepted s)) (concat (delivered s'))"
proof -
  obtain k batch where i: "sink_inv k batch s" using sink_inv_reachable [OF assms(1)] by blast
  obtain k' batch' where i': "sink_inv k' batch' s'" "prefix (accepted s) (accepted s')"
    using sink_inv_steps [OF assms(3) i] by blast
  obtain j where j: "j \<le> k'" "completedMessages s' = of_nat j" using sink_inv_completed [OF i'(1)] by blast
  have "k' \<le> length (accepted s')" using i'(1) by (simp add: sink_inv_def)
  moreover have "length (accepted s) \<le> length (accepted s')" using i'(2) by (rule prefix_length_le)
  moreover have "issuedMessages s = of_nat (length (accepted s))" using i assms(2) by (simp add: sink_inv_def)
  ultimately have "length (accepted s) \<le> k'"
    using assms(4,5) j of_nat64_less_iff [of j "length (accepted s)"] by (simp add: Sync_done_def)
  moreover obtain zs where "accepted s' = accepted s @ zs" using i'(2) by (auto elim: prefixE)
  ultimately have "concat (take k' (accepted s')) = concat (accepted s) @ concat (take (k' - length (accepted s)) zs)"
    by simp
  then show ?thesis using i'(1) by (simp add: sink_inv_def)
qed

text \<open>
  C16: \<open>Sync\<close> returns: once the broker accepts messages, the worker by itself reaches, within five
  steps per waiting entry and four more, a state in which everything accepted is delivered and
  \<open>Sync\<close>'s condition holds.
\<close>

theorem sync_returns:
  assumes "sink_steps new_sink s" "uncounted s = 0"
  shows "\<exists>n \<le> 5 * length (buf (msgChan s)) + 4.
    Sync_done (issuedMessages s) (worker_run n s) \<and> concat (delivered (worker_run n s)) = concat (accepted s)"
proof -
  obtain k batch where i: "sink_inv k batch s" using sink_inv_reachable [OF assms(1)] by blast
  have issued: "issuedMessages s = of_nat (length (accepted s))" using i assms(2) by (simp add: sink_inv_def)
  have keep: "accepted (worker_run n s) = accepted s \<and> (\<exists>k batch. sink_inv k batch (worker_run n s))" for n
    using i
  proof (induction n arbitrary: s k batch)
    case (Suc n)
    then show ?case using sink_inv_work [OF Suc.prems, of True] by (fastforce split: option.splits)
  qed auto
  obtain n where n: "n \<le> 5 * length (buf (msgChan s)) + 4" "work_left (worker_run n s) = 0"
  proof (cases "worker s = Stopped")
    case True
    then have "work_left s = 0" using i by (simp add: sink_inv_def work_left_def)
    then show thesis using that [of 0] by simp
  next
    case False
    have "work_left s \<le> 5 * length (buf (msgChan s)) + 4"
      by (cases "worker s") (simp_all add: work_left_def)
    from worker_run_drains [OF False this] that show thesis by blast
  qed
  obtain k' batch' where i': "sink_inv k' batch' (worker_run n s)" using keep by blast
  from drained_completed [OF i' n(2)] keep [of n] issued n(1) show ?thesis
    by (intro exI [of _ n]) (simp add: Sync_done_def)
qed

text \<open>
  Without that turn-taking the guarantee fails: the count is taken after the send, so an entry
  whose \<open>Write\<close> has not yet counted it can be completed in place of one whose \<open>Write\<close> has returned. Here
  \<open>Sync\<close> would return at once although the second entry, counted and returned, is still waiting.
\<close>

lemma sync_race:
  "\<exists>s. sink_steps new_sink s \<and> accepted s = [[98], [97]] \<and> delivered s = [[98]]
     \<and> buf (msgChan s) = [[97]] \<and> issuedMessages s = 1 \<and> uncounted s = 1 \<and> Sync_done (issuedMessages s) s"
proof -
  obtain s1 where s1: "Write_send [98] new_sink = Written s1" "s1 = new_sink\<lparr>msgChan := (make_chan 1024)\<lparr>buf := [[98]]\<rparr>,
      uncounted := 1, accepted := [[98]]\<rparr>"
    by (simp add: Write_send_def try_send_def new_sink_def make_chan_def)
  define s2 where "s2 = worker_run (Suc (Suc (Suc (Suc (Suc 0))))) s1"
  have w: "s2 = s1\<lparr>msgChan := make_chan 1024, delivered := [[98]], completedMessages := 1, TotalCompletedMessages := 1\<rparr>"
    unfolding s1(2) s2_def by (simp add: worker_step_def new_sink_def try_recv_def make_chan_def batch_limit_def)
  let ?s3 = "s2\<lparr>msgChan := (make_chan 1024)\<lparr>buf := [[97]]\<rparr>, uncounted := 2, accepted := [[98], [97]]\<rparr>"
  have s3: "Write_send [97] s2 = Written ?s3"
    unfolding w s1(2) by (simp add: Write_send_def try_send_def new_sink_def make_chan_def)
  have "sink_steps new_sink s1" using sink_step.writes [OF s1(1)] by (rule r_into_rtranclp)
  then have "sink_steps new_sink s2" unfolding s2_def using sink_steps_run by (rule rtranclp_trans)
  then have "sink_steps new_sink ?s3" using sink_step.writes [OF s3] by (rule rtranclp.rtrancl_into_rtrancl)
  then have "sink_steps new_sink (Write_count ?s3)"
    by (rule rtranclp.rtrancl_into_rtrancl) (rule sink_step.counts, simp)
  then show ?thesis
    by (intro exI [of _ "Write_count ?s3"])
       (simp add: Write_count_def Sync_done_def w s1(2) new_sink_def make_chan_def)
qed

text \<open>
  C22: Batches stay small: when no entry is longer than \<open>l\<close> bytes, no message handed to the broker
  reaches 256 KiB plus \<open>l\<close>.
\<close>

theorem batch_bound:
  assumes "sink_steps new_sink s" "\<forall>b \<in> set (accepted s). length b \<le> l" "msg \<in> set (delivered s)"
  shows "length msg < 256 * 1024 + l"
  using batches_below_reachable [OF assms(1,2)] assms(3) by (simp add: batches_below_def batch_limit_def)

section \<open>Witnesses\<close>

definition demo_sink :: kafkaSink where
  "demo_sink = new_sink\<lparr>msgChan := (make_chan 1024)\<lparr>buf := [[98]]\<rparr>, issuedMessages := 1, accepted := [[98]]\<rparr>"

lemma demo_sink_reachable: "sink_steps new_sink demo_sink"
proof -
  let ?s = "demo_sink\<lparr>issuedMessages := 0, uncounted := 1\<rparr>"
  have "Write_send [98] new_sink = Written ?s"
    by (simp add: Write_send_def try_send_def demo_sink_def new_sink_def make_chan_def)
  then have "sink_steps new_sink ?s" by (intro r_into_rtranclp sink_step.writes)
  moreover have "sink_step ?s (Write_count ?s)" by (rule sink_step.counts) simp
  moreover have "Write_count ?s = demo_sink" by (simp add: Write_count_def demo_sink_def new_sink_def)
  ultimately show ?thesis by (metis rtranclp.rtrancl_into_rtrancl)
qed

definition demo_synced :: kafkaSink where
  "demo_synced = worker_run (Suc (Suc (Suc (Suc (Suc 0))))) demo_sink"

lemma demo_synced_eq:
  "demo_synced = demo_sink\<lparr>msgChan := make_chan 1024, delivered := [[98]], completedMessages := 1,
     TotalCompletedMessages := 1\<rparr>"
  by (simp add: demo_synced_def demo_sink_def worker_step_def new_sink_def try_recv_def make_chan_def batch_limit_def)

lemma demo_synced_reachable: "sink_steps demo_sink demo_synced"
  unfolding demo_synced_def by (rule sink_steps_run)

theorem sink_fifo_witness:
  "\<exists>k. accepted demo_sink = take k (accepted demo_sink) @ [[98]] \<and> concat (take k (accepted demo_sink)) = []"
  using sink_fifo [OF demo_sink_reachable] by (auto simp: demo_sink_def new_sink_def)

theorem sync_guarantee_witness: "prefix (concat [[98]]) (concat (delivered demo_synced))"
proof -
  have "uncounted demo_sink = 0" "Sync_done (issuedMessages demo_sink) demo_synced" "length (accepted demo_synced) < 2 ^ 64"
    by (simp_all add: demo_sink_def demo_synced_eq Sync_done_def new_sink_def)
  from sync_guarantee [OF demo_sink_reachable this(1) demo_synced_reachable this(2,3)]
  show ?thesis by (simp add: demo_sink_def)
qed

theorem sync_returns_witness: "\<exists>n \<le> 9. Sync_done 1 (worker_run n demo_sink)"
  using sync_returns [OF demo_sink_reachable] by (auto simp: demo_sink_def new_sink_def)

theorem batch_bound_witness: "length ([98] :: bytes) < 256 * 1024 + 1"
  by (rule batch_bound [OF rtranclp_trans [OF demo_sink_reachable demo_synced_reachable]])
     (simp_all add: demo_synced_eq demo_sink_def)

end
