(* ===== verification/Ssh_Relay.thy ===== *)
theory Ssh_Relay
  imports Hgw_Prelude
begin

text \<open>
  One relayed stream of \<^verbatim>\<open>homegw-init/sshrelay.go\<close>: the goroutine that dials the local SSH server and
  runs two copies, one in each direction, each an \<open>io.Copy\<close> that reads a chunk and writes it. A write
  waits until the peer makes room or the connection fails. When the copy from the client ends it
  sets a read deadline in the past on the SSH connection, which makes every later read there fail;
  the stream's slot is given back when both copies have ended. The accept loop around it is in
  \<open>Api_Server\<close>.
\<close>

section \<open>Sessions\<close>

datatype side = Quic | Ssh

text \<open>
  A connection as the relay sees it: what its peer ever \<open>sent\<close> and what of that is \<open>unread\<close>, what was
  \<open>written\<close> to it, how many bytes a write can still place before it blocks (\<open>window\<close>, flow control or
  socket buffer), whether the peer has ended its side (\<open>fin\<close>), whether reads or writes fail, whether
  a read deadline has passed, and whether the relay has closed it.
\<close>

record endpoint =
  sent :: bytes
  unread :: bytes
  written :: bytes
  window :: nat
  fin :: bool
  reads_fail :: bool
  writes_fail :: bool
  deadline :: bool
  shut :: bool

definition new_endpoint :: endpoint where
  "new_endpoint = \<lparr>sent = [], unread = [], written = [], window = 0, fin = False,
     reads_fail = False, writes_fail = False, deadline = False, shut = False\<rparr>"

datatype copier = Reading | Writing bytes | Ended

record session =
  conn :: "side \<Rightarrow> endpoint"
  inbound :: copier      \<comment> \<open>\<open>io.Copy(sshConn, stream)\<close>\<close>
  outbound :: copier     \<comment> \<open>\<open>io.Copy(stream, sshConn)\<close>\<close>
  in_done :: bool        \<comment> \<open>\<open>wg.Done()\<close> of the goroutine around it\<close>
  out_done :: bool
  slot_free :: bool

text \<open>A stream's goroutine that cannot dial the SSH server ends at once and gives the slot back.\<close>

definition start_stream :: "bool \<Rightarrow> session" where
  "start_stream dial_ok =
     (if dial_ok
      then \<lparr>conn = (\<lambda>_. new_endpoint), inbound = Reading, outbound = Reading, in_done = False, out_done = False, slot_free = False\<rparr>
      else \<lparr>conn = (\<lambda>_. new_endpoint)(Quic := new_endpoint\<lparr>shut := True\<rparr>), inbound = Ended, outbound = Ended,
            in_done = True, out_done = True, slot_free = True\<rparr>)"

text \<open>What the peer of a connection does: a reset loses what was not read.\<close>

inductive peer_step :: "endpoint \<Rightarrow> endpoint \<Rightarrow> bool" where
  sends: "\<not> fin k \<Longrightarrow> \<not> reads_fail k \<Longrightarrow> peer_step k (k\<lparr>sent := sent k @ b, unread := unread k @ b\<rparr>)"
| ends: "peer_step k (k\<lparr>fin := True\<rparr>)"
| resets: "peer_step k (k\<lparr>reads_fail := True, unread := []\<rparr>)"
| refuses: "peer_step k (k\<lparr>writes_fail := True\<rparr>)"
| makes_room: "peer_step k (k\<lparr>window := window k + n\<rparr>)"

text \<open>
  \<open>io.Copy(dst, src)\<close> with its buffer of 32 KiB: a chunk is read and then written, in as many parts as
  the window of \<open>dst\<close> asks for; the copy ends when a read or a write fails, or at the end of \<open>src\<close>.
\<close>

definition copy_buffer :: nat where "copy_buffer = 32768"

inductive copy_step ::
  "side \<Rightarrow> side \<Rightarrow> (side \<Rightarrow> endpoint) \<Rightarrow> copier \<Rightarrow> (side \<Rightarrow> endpoint) \<Rightarrow> copier \<Rightarrow> bool" for dst src where
  reads: "\<not> deadline (c src) \<Longrightarrow> \<not> reads_fail (c src) \<Longrightarrow> unread (c src) = chunk @ rest \<Longrightarrow>
    chunk \<noteq> [] \<Longrightarrow> length chunk \<le> copy_buffer \<Longrightarrow>
    copy_step dst src c Reading (c(src := (c src)\<lparr>unread := rest\<rparr>)) (Writing chunk)"
| writes: "\<not> writes_fail (c dst) \<Longrightarrow> chunk = part @ rest \<Longrightarrow> part \<noteq> [] \<Longrightarrow> length part \<le> window (c dst) \<Longrightarrow>
    copy_step dst src c (Writing chunk)
      (c(dst := (c dst)\<lparr>written := written (c dst) @ part, window := window (c dst) - length part\<rparr>))
      (if rest = [] then Reading else Writing rest)"
| write_fails: "writes_fail (c dst) \<Longrightarrow> copy_step dst src c (Writing chunk) c Ended"
| read_ends: "deadline (c src) \<or> reads_fail (c src) \<or> fin (c src) \<and> unread (c src) = [] \<Longrightarrow>
    copy_step dst src c Reading c Ended"

text \<open>The session's own steps, and those of the client and the SSH server.\<close>

inductive own_step :: "session \<Rightarrow> session \<Rightarrow> bool" where
  copies_in: "copy_step Ssh Quic (conn s) (inbound s) c k \<Longrightarrow> own_step s (s\<lparr>conn := c, inbound := k\<rparr>)"
| copies_out: "copy_step Quic Ssh (conn s) (outbound s) c k \<Longrightarrow> own_step s (s\<lparr>conn := c, outbound := k\<rparr>)"
| in_ends: "inbound s = Ended \<Longrightarrow> \<not> in_done s \<Longrightarrow>
    own_step s (s\<lparr>conn := (conn s)(Ssh := (conn s Ssh)\<lparr>deadline := True\<rparr>), in_done := True\<rparr>)"
| out_ends: "outbound s = Ended \<Longrightarrow> \<not> out_done s \<Longrightarrow> own_step s (s\<lparr>out_done := True\<rparr>)"
| releases: "in_done s \<Longrightarrow> out_done s \<Longrightarrow> \<not> slot_free s \<Longrightarrow>
    own_step s (s\<lparr>conn := (\<lambda>x. (conn s x)\<lparr>shut := True\<rparr>), slot_free := True\<rparr>)"

inductive relay_step :: "session \<Rightarrow> session \<Rightarrow> bool" where
  own: "own_step s s' \<Longrightarrow> relay_step s s'"
| peer: "peer_step (conn s x) k \<Longrightarrow> relay_step s (s\<lparr>conn := (conn s)(x := k)\<rparr>)"

text \<open>Executions in which \<open>n\<close> of the steps are the session's own.\<close>

inductive relay_run :: "nat \<Rightarrow> session \<Rightarrow> session \<Rightarrow> bool" where
  run_nil: "relay_run 0 s s"
| run_own: "relay_run n s s' \<Longrightarrow> own_step s' s'' \<Longrightarrow> relay_run (Suc n) s s''"
| run_peer: "relay_run n s s' \<Longrightarrow> peer_step (conn s' x) k \<Longrightarrow> relay_run n s (s'\<lparr>conn := (conn s')(x := k)\<rparr>)"

inductive_cases peer_stepE: "peer_step k k'"
inductive_cases copy_stepE: "copy_step dst src c k c' k'"
inductive_cases own_stepE: "own_step s s'"
inductive_cases relay_stepE: "relay_step s s'"

section \<open>What a copy delivers\<close>

fun held :: "copier \<Rightarrow> bytes" where
  "held (Writing chunk) = chunk"
| "held _ = []"

text \<open>
  Nothing is lost or invented on the way from \<open>src\<close> to \<open>dst\<close> while reads succeed and the copy runs, and a
  copy that ended without a failure or a deadline has delivered everything.
\<close>

definition flow_ok :: "side \<Rightarrow> side \<Rightarrow> (side \<Rightarrow> endpoint) \<Rightarrow> copier \<Rightarrow> bool" where
  "flow_ok dst src c k \<longleftrightarrow> prefix (written (c dst) @ held k) (sent (c src))
     \<and> (\<not> reads_fail (c src) \<longrightarrow> k \<noteq> Ended \<longrightarrow> written (c dst) @ held k @ unread (c src) = sent (c src))
     \<and> (k = Ended \<longrightarrow> \<not> reads_fail (c src) \<longrightarrow> \<not> writes_fail (c dst) \<longrightarrow> \<not> deadline (c src) \<longrightarrow>
          fin (c src) \<and> written (c dst) = sent (c src))"

lemma flow_copy: "copy_step dst src c k c' k' \<Longrightarrow> dst \<noteq> src \<Longrightarrow> flow_ok dst src c k \<Longrightarrow> flow_ok dst src c' k'"
proof (induction rule: copy_step.induct)
  case (reads c chunk rest)
  then have "sent (c src) = (written (c dst) @ chunk) @ rest" by (simp add: flow_ok_def)
  with reads show ?case by (simp add: flow_ok_def)
qed (auto simp: flow_ok_def dest: append_prefixD)

lemma flow_other: "copy_step dst src c k c' k' \<Longrightarrow> dst \<noteq> src \<Longrightarrow> flow_ok src dst c j \<Longrightarrow> flow_ok src dst c' j"
  by (induction rule: copy_step.induct) (auto simp: flow_ok_def)

lemma flow_peer: "peer_step (c x) n \<Longrightarrow> dst \<noteq> src \<Longrightarrow> flow_ok dst src c k \<Longrightarrow> flow_ok dst src (c(x := n)) k"
  by (erule peer_stepE) (auto simp: flow_ok_def)

lemma flow_deadline: "flow_ok dst src c k \<Longrightarrow> flow_ok dst src (c(x := (c x)\<lparr>deadline := True\<rparr>)) k"
  by (auto simp: flow_ok_def)

lemma flow_shut: "flow_ok dst src (\<lambda>x. (c x)\<lparr>shut := True\<rparr>) k = flow_ok dst src c k"
  by (simp add: flow_ok_def)

definition session_ok :: "session \<Rightarrow> bool" where
  "session_ok s \<longleftrightarrow> flow_ok Ssh Quic (conn s) (inbound s) \<and> flow_ok Quic Ssh (conn s) (outbound s)
     \<and> inbound s \<noteq> Writing [] \<and> outbound s \<noteq> Writing []
     \<and> \<not> deadline (conn s Quic) \<and> (in_done s \<longrightarrow> inbound s = Ended \<and> deadline (conn s Ssh))
     \<and> (out_done s \<longrightarrow> outbound s = Ended) \<and> (slot_free s \<longrightarrow> in_done s \<and> out_done s)"

lemma copy_keeps:
  "copy_step dst src c k c' k' \<Longrightarrow> deadline (c' x) = deadline (c x) \<and> fin (c' x) = fin (c x)
     \<and> sent (c' x) = sent (c x) \<and> reads_fail (c' x) = reads_fail (c x) \<and> k \<noteq> Ended \<and> k' \<noteq> Writing []"
  by (induction rule: copy_step.induct) auto

lemma peer_keeps_deadline: "peer_step k k' \<Longrightarrow> deadline k' = deadline k"
  by (auto elim: peer_stepE)

lemma session_ok_own: "own_step s s' \<Longrightarrow> session_ok s \<Longrightarrow> session_ok s'"
proof (induction rule: own_step.induct)
  case (copies_in s c k)
  then show ?case
    using flow_copy [OF copies_in(1)] flow_other [OF copies_in(1)] copy_keeps [OF copies_in(1)] by (auto simp: session_ok_def)
next
  case (copies_out s c k)
  then show ?case
    using flow_copy [OF copies_out(1)] flow_other [OF copies_out(1)] copy_keeps [OF copies_out(1)] by (auto simp: session_ok_def)
qed (auto simp: session_ok_def flow_deadline flow_shut)

lemma session_ok_step: "relay_step s s' \<Longrightarrow> session_ok s \<Longrightarrow> session_ok s'"
proof (induction rule: relay_step.induct)
  case (peer s x k)
  then show ?case
    using flow_peer [where c = "conn s" and x = x and n = k] peer_keeps_deadline [OF peer(1)] by (simp add: session_ok_def)
qed (rule session_ok_own)

lemma session_ok_start: "session_ok (start_stream True)"
  by (simp add: session_ok_def start_stream_def flow_ok_def new_endpoint_def)

interpretation relaying: step_system relay_step "start_stream True" session_ok
  by unfold_locales (rule session_ok_start, rule session_ok_step)

section \<open>How a session ends\<close>

text \<open>A copy waits for the peer it writes to.\<close>

fun waits_for :: "side \<Rightarrow> (side \<Rightarrow> endpoint) \<Rightarrow> copier \<Rightarrow> bool" where
  "waits_for dst c (Writing chunk) \<longleftrightarrow> \<not> writes_fail (c dst) \<and> window (c dst) = 0"
| "waits_for dst c _ \<longleftrightarrow> False"

lemma copy_moves: "copy_step dst src c k c' k' \<Longrightarrow> \<not> waits_for dst c k"
  by (induction rule: copy_step.induct) (auto simp: neq_Nil_conv)

definition stalled :: "session \<Rightarrow> bool" where
  "stalled s \<longleftrightarrow> waits_for Ssh (conn s) (inbound s) \<or> waits_for Quic (conn s) (outbound s)"

fun copier_work :: "copier \<Rightarrow> nat" where
  "copier_work Reading = 1"
| "copier_work (Writing chunk) = 1 + length chunk"
| "copier_work Ended = 0"

text \<open>How many own steps a session can still make with what has arrived.\<close>

definition relay_work :: "session \<Rightarrow> nat" where
  "relay_work s = 2 * length (unread (conn s Quic)) + copier_work (inbound s)
     + 2 * length (unread (conn s Ssh)) + copier_work (outbound s)
     + of_bool (\<not> in_done s) + of_bool (\<not> out_done s) + of_bool (\<not> slot_free s)"

lemma copy_work:
  "copy_step dst src c k c' k' \<Longrightarrow> dst \<noteq> src \<Longrightarrow>
     2 * length (unread (c' src)) + copier_work k' < 2 * length (unread (c src)) + copier_work k
     \<and> unread (c' dst) = unread (c dst)"
  by (induction rule: copy_step.induct) (auto simp: neq_Nil_conv)

lemma relay_work_own:
  "own_step s s' \<Longrightarrow> relay_work s' < relay_work s \<and> sent (conn s' x) = sent (conn s x)
     \<and> fin (conn s' x) = fin (conn s x) \<and> reads_fail (conn s' x) = reads_fail (conn s x)"
proof (induction rule: own_step.induct)
  case (copies_in s c k)
  then show ?case using copy_work [OF copies_in] copy_keeps [OF copies_in] by (simp add: relay_work_def)
next
  case (copies_out s c k)
  then show ?case using copy_work [OF copies_out] copy_keeps [OF copies_out] by (simp add: relay_work_def)
qed (auto simp: relay_work_def)

lemma peer_sends:
  "peer_step k k' \<Longrightarrow> length (unread k') + length (sent k) \<le> length (unread k) + length (sent k')
     \<and> length (sent k) \<le> length (sent k') \<and> (fin k \<longrightarrow> fin k' \<and> sent k' = sent k)"
  by (auto elim: peer_stepE)

lemma relay_run_bounded:
  "relay_run n s s' \<Longrightarrow> fin (conn s Quic) \<Longrightarrow> fin (conn s' Quic)
     \<and> length (sent (conn s Ssh)) \<le> length (sent (conn s' Ssh))
     \<and> n + relay_work s' + 2 * length (sent (conn s Ssh)) \<le> relay_work s + 2 * length (sent (conn s' Ssh))"
proof (induction rule: relay_run.induct)
  case (run_own n s s' s'')
  then show ?case
    using relay_work_own [OF run_own(2), of Quic] relay_work_own [OF run_own(2), of Ssh] by simp
next
  case (run_peer n s s' x k)
  then show ?case using peer_sends [OF run_peer(2)] by (cases x) (auto simp: relay_work_def)
qed simp

lemma copy_progress:
  assumes "k \<noteq> Ended" "k \<noteq> Writing []" "\<not> waits_for dst c k" "deadline (c src) \<or> fin (c src)"
  shows "\<exists>c' k'. copy_step dst src c k c' k'"
proof (cases k)
  case Reading
  show ?thesis
  proof (cases "deadline (c src) \<or> reads_fail (c src) \<or> unread (c src) = []")
    case True
    with assms(4) Reading show ?thesis by (blast intro: copy_step.read_ends)
  next
    case False
    then obtain b bs where "unread (c src) = [b] @ bs" by (cases "unread (c src)") auto
    with False Reading show ?thesis using copy_step.reads [of c src "[b]" bs dst] by (auto simp: copy_buffer_def)
  qed
next
  case (Writing chunk)
  then obtain b bs where "chunk = [b] @ bs" using assms(2) by (cases chunk) auto
  then show ?thesis
    using Writing assms(3) copy_step.writes [of c dst chunk "[b]" bs src] copy_step.write_fails [of c dst src chunk]
    by (cases "writes_fail (c dst)") (auto simp: Suc_le_eq)
qed (use assms in simp)

lemma own_progress:
  assumes "session_ok s" "fin (conn s Quic)" "\<not> stalled s" "\<not> slot_free s"
  shows "\<exists>s'. own_step s s'"
proof -
  consider "inbound s \<noteq> Ended" | "inbound s = Ended" "\<not> in_done s" | "in_done s" "outbound s \<noteq> Ended"
    | "in_done s" "outbound s = Ended" by blast
  then show ?thesis
  proof cases
    case 1
    then show ?thesis
      using assms copy_progress [of "inbound s" Ssh "conn s" Quic] by (auto simp: stalled_def session_ok_def intro: own_step.copies_in)
  next
    case 3
    then show ?thesis
      using assms copy_progress [of "outbound s" Quic "conn s" Ssh]
      by (auto simp: stalled_def session_ok_def intro: own_step.copies_out)
  next
    case 4
    then show ?thesis using assms(4) by (cases "out_done s") (blast intro: own_step.out_ends own_step.releases)+
  qed (blast intro: own_step.in_ends)
qed

lemma relay_run_ok: "relay_run n s s' \<Longrightarrow> session_ok s \<Longrightarrow> session_ok s'"
  by (induction rule: relay_run.induct) (auto intro: session_ok_step relay_step.intros)

section \<open>Properties\<close>

text \<open>
  C36: The relay neither loses, reorders nor invents bytes: at every moment of every session what has
  been written to either side is a prefix of what the other side sent; and when a session gives its
  slot back after the client ended its stream, everything the client sent has been written to the
  SSH server, unless the client reset its stream or the SSH server stopped taking data.
\<close>

theorem relay_delivers:
  assumes "relay_step\<^sup>*\<^sup>* (start_stream True) s"
  shows "prefix (written (conn s Ssh)) (sent (conn s Quic)) \<and> prefix (written (conn s Quic)) (sent (conn s Ssh))
    \<and> (slot_free s \<longrightarrow> \<not> reads_fail (conn s Quic) \<longrightarrow> \<not> writes_fail (conn s Ssh) \<longrightarrow>
         fin (conn s Quic) \<and> written (conn s Ssh) = sent (conn s Quic))"
proof -
  have ok: "session_ok s" using assms by (rule relaying.always)
  then have "flow_ok Ssh Quic (conn s) (inbound s)" "flow_ok Quic Ssh (conn s) (outbound s)" by (simp_all add: session_ok_def)
  then have "prefix (written (conn s Ssh)) (sent (conn s Quic))" "prefix (written (conn s Quic)) (sent (conn s Ssh))"
    unfolding flow_ok_def by (blast dest: append_prefixD)+
  with ok show ?thesis by (simp add: session_ok_def flow_ok_def)
qed

text \<open>
  C37: A client that ends its stream gets its slot back as long as both peers take what is written to
  them: once it has ended, in every execution the session makes at most as many steps of its own as
  what has arrived, and what the SSH server still sends, give it to do; and at every moment until
  the slot is free it has a step to make, even though the SSH server neither sends nor ends, unless
  one of its copies holds data its peer has no room for.
\<close>

theorem relay_ends_with_client:
  assumes "relay_step\<^sup>*\<^sup>* (start_stream True) s" "fin (conn s Quic)" "relay_run n s s'"
  shows "n \<le> relay_work s + 2 * (length (sent (conn s' Ssh)) - length (sent (conn s Ssh)))
    \<and> (slot_free s' \<or> stalled s' \<or> (\<exists>s''. own_step s' s''))"
proof -
  have ok: "session_ok s'" using relay_run_ok [OF assms(3) relaying.always [OF assms(1)]] .
  from relay_run_bounded [OF assms(3,2)] own_progress [OF ok] show ?thesis by auto
qed

text \<open>
  A client that ended its stream but does not read stalls its session: with the copy to it waiting,
  the deadline does not end that copy, and the slot stays taken until the client makes room or its
  connection fails.
\<close>

lemma stalled_client_keeps_slot:
  assumes "session_ok s" "waits_for Quic (conn s) (outbound s)" "relay_step s s'"
    and "window (conn s' Quic) = 0" "\<not> writes_fail (conn s' Quic)"
  shows "waits_for Quic (conn s') (outbound s') \<and> \<not> slot_free s'"
proof -
  from assms(2) obtain chunk where w: "outbound s = Writing chunk" by (cases "outbound s") auto
  have "outbound s' = Writing chunk \<and> \<not> slot_free s'"
    using assms(3,1,2) w
  proof (induction rule: relay_step.induct)
    case (own s s')
    then show ?case by (induction rule: own_step.induct) (auto simp: session_ok_def dest: copy_moves)
  qed (auto simp: session_ok_def)
  with assms(4,5) show ?thesis by simp
qed

text \<open>
  The SSH server's end alone does not end a session: as long as the client neither sends, ends nor
  resets, the copy from the client waits and the slot stays taken.
\<close>

lemma half_open_session_keeps_slot:
  assumes "session_ok s" "inbound s = Reading" "unread (conn s Quic) = []" "\<not> fin (conn s Quic)" "\<not> reads_fail (conn s Quic)"
    and "own_step s s'"
  shows "inbound s' = Reading \<and> \<not> slot_free s'"
  using assms(6) assms(1-5)
  by (cases rule: own_stepE) (auto simp: session_ok_def elim: copy_step.cases)

section \<open>Witnesses\<close>

text \<open>A client that sends two bytes and ends, with an SSH server that takes them and stays silent.\<close>

definition demo_client :: "bytes \<Rightarrow> endpoint" where
  "demo_client pending = new_endpoint\<lparr>sent := [1, 2], unread := pending, fin := True\<rparr>"

definition demo_ended :: session where
  "demo_ended = (start_stream True)\<lparr>conn := (\<lambda>_. new_endpoint)(Quic := demo_client [1, 2], Ssh := new_endpoint\<lparr>window := 2\<rparr>)\<rparr>"

definition demo_over :: session where
  "demo_over = \<lparr>conn = (\<lambda>_. new_endpoint)(Quic := (demo_client [])\<lparr>shut := True\<rparr>,
       Ssh := new_endpoint\<lparr>written := [1, 2], deadline := True, shut := True\<rparr>),
     inbound = Ended, outbound = Ended, in_done = True, out_done = True, slot_free = True\<rparr>"

lemmas demo_relay = demo_over_def demo_ended_def demo_client_def start_stream_def new_endpoint_def

lemma relay_peer_run: "relay_step\<^sup>*\<^sup>* s t \<Longrightarrow> peer_step (conn t x) k \<Longrightarrow> relay_step\<^sup>*\<^sup>* s (t\<lparr>conn := (conn t)(x := k)\<rparr>)"
  by (erule rtranclp.rtrancl_into_rtrancl) (rule relay_step.peer)

lemma demo_ended_reachable: "relay_step\<^sup>*\<^sup>* (start_stream True) demo_ended"
proof -
  let ?a = "(start_stream True)\<lparr>conn := (conn (start_stream True))(Quic := new_endpoint\<lparr>sent := [1, 2], unread := [1, 2]\<rparr>)\<rparr>"
  let ?b = "?a\<lparr>conn := (conn ?a)(Quic := demo_client [1, 2])\<rparr>"
  have "relay_step\<^sup>*\<^sup>* (start_stream True) ?a"
    using relay_peer_run [OF rtranclp.rtrancl_refl peer_step.sends [of _ "[1, 2]"], of "start_stream True" Quic]
    by (simp add: demo_relay)
  from relay_peer_run [OF this peer_step.ends, of Quic] have "relay_step\<^sup>*\<^sup>* (start_stream True) ?b"
    by (simp add: demo_relay)
  from relay_peer_run [OF this peer_step.makes_room [of _ 2], of Ssh] show ?thesis
    by (simp add: demo_relay fun_upd_twist numeral_2_eq_2)
qed

lemma relay_own_run: "relay_step\<^sup>*\<^sup>* s t \<Longrightarrow> own_step t u \<Longrightarrow> relay_step\<^sup>*\<^sup>* s u"
  by (erule rtranclp.rtrancl_into_rtrancl) (rule relay_step.own)

lemma demo_over_reachable: "relay_step\<^sup>*\<^sup>* (start_stream True) demo_over"
proof -
  let ?c = "\<lambda>q ssh. (\<lambda>_. new_endpoint)(Quic := demo_client q, Ssh := ssh)"
  let ?got = "new_endpoint\<lparr>written := [1, 2]\<rparr>"
  let ?at = "\<lambda>c i out di do. \<lparr>conn = c, inbound = i, outbound = out, in_done = di, out_done = do, slot_free = False\<rparr>"
  let ?s1 = "?at (?c [] (new_endpoint\<lparr>window := 2\<rparr>)) (Writing [1, 2]) Reading False False"
  let ?s2 = "?at (?c [] ?got) Reading Reading False False"
  let ?s3 = "?at (?c [] ?got) Ended Reading False False"
  let ?s4 = "?at (?c [] (?got\<lparr>deadline := True\<rparr>)) Ended Reading True False"
  let ?s5 = "?at (?c [] (?got\<lparr>deadline := True\<rparr>)) Ended Ended True False"
  let ?s6 = "?at (?c [] (?got\<lparr>deadline := True\<rparr>)) Ended Ended True True"
  have "copy_step Ssh Quic (conn demo_ended) (inbound demo_ended) (conn ?s1) (inbound ?s1)"
    using copy_step.reads [of "conn demo_ended" Quic "[1, 2]" "[]" Ssh] by (simp add: demo_relay copy_buffer_def fun_upd_twist)
  from own_step.copies_in [OF this] have "own_step demo_ended ?s1" by (simp add: demo_ended_def start_stream_def)
  moreover have "copy_step Ssh Quic (conn ?s1) (inbound ?s1) (conn ?s2) (inbound ?s2)"
    using copy_step.writes [of "conn ?s1" Ssh "[1, 2]" "[1, 2]" "[]" Quic] by (simp add: demo_relay)
  from own_step.copies_in [OF this] have "own_step ?s1 ?s2" by simp
  moreover have "copy_step Ssh Quic (conn ?s2) (inbound ?s2) (conn ?s3) (inbound ?s3)"
    using copy_step.read_ends [of "conn ?s2" Quic Ssh] by (simp add: demo_relay)
  from own_step.copies_in [OF this] have "own_step ?s2 ?s3" by simp
  moreover have "own_step ?s3 ?s4" using own_step.in_ends [of ?s3] by simp
  moreover have "copy_step Quic Ssh (conn ?s4) (outbound ?s4) (conn ?s5) (outbound ?s5)"
    using copy_step.read_ends [of "conn ?s4" Ssh Quic] by simp
  from own_step.copies_out [OF this] have "own_step ?s4 ?s5" by simp
  moreover have "own_step ?s5 ?s6" using own_step.out_ends [of ?s5] by simp
  moreover have "(\<lambda>x. (conn ?s6 x)\<lparr>shut := True\<rparr>) = conn demo_over"
  proof
    fix x show "(conn ?s6 x)\<lparr>shut := True\<rparr> = conn demo_over x" by (cases x) (simp_all add: demo_over_def)
  qed
  then have "own_step ?s6 demo_over"
    using own_step.releases [of ?s6] by (simp add: demo_over_def)
  ultimately show ?thesis
    by (intro relay_own_run [OF relay_own_run [OF relay_own_run [OF relay_own_run [OF relay_own_run [OF relay_own_run
          [OF relay_own_run [OF demo_ended_reachable]]]]]]])
qed

text \<open>
  The stalled session exists: the SSH server greets, the client ends its stream without ever making
  room, and the relay is left with the deadline set, no step to make and the slot taken.
\<close>

definition demo_stalled :: session where
  "demo_stalled = \<lparr>conn = (\<lambda>_. new_endpoint)(Quic := new_endpoint\<lparr>fin := True\<rparr>,
       Ssh := new_endpoint\<lparr>sent := [7], deadline := True\<rparr>),
     inbound = Ended, outbound = Writing [7], in_done = True, out_done = False, slot_free = False\<rparr>"

lemma stalled_session_reachable:
  "relay_step\<^sup>*\<^sup>* (start_stream True) demo_stalled \<and> (\<nexists>s'. own_step demo_stalled s')"
proof
  let ?at = "\<lambda>q ssh i out. (start_stream True)\<lparr>conn := (\<lambda>_. new_endpoint)(Quic := q, Ssh := ssh), inbound := i, outbound := out\<rparr>"
  let ?greeted = "new_endpoint\<lparr>sent := [7], unread := [7]\<rparr>" and ?ended = "new_endpoint\<lparr>fin := True\<rparr>"
  let ?s2 = "?at ?ended ?greeted Reading Reading" and ?s3 = "?at ?ended (new_endpoint\<lparr>sent := [7]\<rparr>) Reading (Writing [7])"
  let ?s4 = "?at ?ended (new_endpoint\<lparr>sent := [7]\<rparr>) Ended (Writing [7])"
  have "relay_step\<^sup>*\<^sup>* (start_stream True) ((start_stream True)\<lparr>conn := (\<lambda>_. new_endpoint)(Ssh := ?greeted)\<rparr>)"
    using relay_peer_run [OF rtranclp.rtrancl_refl peer_step.sends [of _ "[7]"], of "start_stream True" Ssh]
    by (simp add: demo_relay)
  from relay_peer_run [OF this peer_step.ends, of Quic] have "relay_step\<^sup>*\<^sup>* (start_stream True) ?s2"
    by (simp add: demo_relay fun_upd_twist)
  moreover have "copy_step Quic Ssh (conn ?s2) (outbound ?s2) (conn ?s3) (outbound ?s3)"
    using copy_step.reads [of "conn ?s2" Ssh "[7]" "[]" Quic] by (simp add: new_endpoint_def copy_buffer_def)
  from own_step.copies_out [OF this] have "own_step ?s2 ?s3" by (simp add: start_stream_def)
  moreover have "copy_step Ssh Quic (conn ?s3) (inbound ?s3) (conn ?s4) (inbound ?s4)"
    using copy_step.read_ends [of "conn ?s3" Quic Ssh] by (simp add: new_endpoint_def)
  from own_step.copies_in [OF this] have "own_step ?s3 ?s4" by (simp add: start_stream_def)
  moreover have "own_step ?s4 demo_stalled"
    using own_step.in_ends [of ?s4] by (simp add: start_stream_def demo_stalled_def)
  ultimately show "relay_step\<^sup>*\<^sup>* (start_stream True) demo_stalled"
    by (rule relay_own_run [OF relay_own_run [OF relay_own_run]])
  have "\<not> own_step demo_stalled s'" for s'
  proof
    assume "own_step demo_stalled s'"
    then show False
    proof (cases rule: own_step.cases)
      case (copies_in c k)
      from copy_keeps [OF copies_in(2)] show False by (simp add: demo_stalled_def)
    next
      case (copies_out c k)
      from copy_moves [OF copies_out(2)] show False by (simp add: demo_stalled_def new_endpoint_def)
    qed (simp_all add: demo_stalled_def)
  qed
  then show "\<nexists>s'. own_step demo_stalled s'" by blast
qed

theorem relay_delivers_witness:
  "slot_free demo_over \<and> written (conn demo_over Ssh) = sent (conn demo_over Quic) \<and> sent (conn demo_over Quic) = [1, 2]"
  using relay_delivers [OF demo_over_reachable] by (simp add: demo_relay)

theorem relay_ends_with_client_witness:
  "\<not> slot_free demo_ended \<and> \<not> stalled demo_ended \<and> (\<exists>s''. own_step demo_ended s'')"
  using relay_ends_with_client [OF demo_ended_reachable _ relay_run.run_nil] by (simp add: demo_relay stalled_def)

end
