(* ===== verification/Spec2Isabelle.thy ===== *)
theory Spec2Isabelle
  imports Init_Main Kafka_Sink Ssh_Relay
begin

text \<open>
  Verification library of the home gateway (\<^verbatim>\<open>losfair/hgw\<close>), a Go program that runs as the init process
  of a small ARM router, together with the tool that seals its update packages.

  \<^bold>\<open>The program.\<close> At boot \<^verbatim>\<open>homegw-init\<close> obtains its configuration (from a file, from on-chip RAM where
  the previous kernel left it, or over a USB serial line), starts the real-time helper, sets up
  networks, permissions, disks and an SSH server by running commands, and then serves an
  authenticated HTTP API over TLS and QUIC. One API call, and a rescue process with the same key,
  replace the running kernel: they verify and decrypt a package made by \<^verbatim>\<open>kexec-sealer\<close>, stop the users'
  processes, leave the package's configuration in on-chip RAM and jump into its kernel. Log entries
  go to a Kafka broker through a background worker.

  \<^bold>\<open>Theories and sources.\<close> Paths are below \<^verbatim>\<open>src/\<close>.

  \<^item> \<open>Hgw_Prelude\<close>: bytes, the ways a Go call ends (value, error, panic, fatal exit), shared list facts.
  \<^item> \<open>Go_Encoding\<close>, \<open>Go_Sha256\<close>, \<open>Sha256_Vectors\<close>, \<open>Go_Json\<close>, \<open>Go_Unmarshal\<close>, \<open>Go_Sync\<close>: what the program uses of
    Go's standard library: little-endian words, hex, base64, SHA-256 (checked against the
    published digest of the empty message), the JSON grammar, \<open>json.Unmarshal\<close> into structs, slices and pointers with repeated keys,
    channels, semaphores, mutexes.
  \<^item> \<open>Kexec_Package\<close>: \<^verbatim>\<open>homegw-libs/kexec/lib.go\<close> (\<open>Unseal\<close>, \<open>decryptAndVerify\<close>) and
    \<^verbatim>\<open>kexec-sealer/main.go\<close> (\<open>sealer_main\<close>); \<open>int\<close> has 32 bits, as on the target.
  \<^item> \<open>Ocram\<close>: \<^verbatim>\<open>homegw-init/ocram.go\<close>, the window of on-chip RAM as a list of bytes, and
    \<^verbatim>\<open>scripts/gen_config_ocram_image.sh\<close>, which makes one.
  \<^item> \<open>Bootstrap\<close>: \<^verbatim>\<open>homegw-init/bootstrap.go\<close> (\<open>loadConfig\<close> and the serial protocol) and its sender
    \<^verbatim>\<open>scripts/gen_config_text.sh\<close>.
  \<^item> \<open>Kexec_Entry\<close>: the kexec handler of \<^verbatim>\<open>homegw-init/http.go\<close> and \<^verbatim>\<open>homegw-init/emergency_kexec.go\<close>; the
    state is the record \<open>machine\<close> (lock, kill channel, window, loaded image, list of effects).
  \<^item> \<open>Api_Server\<close>: the rest of \<^verbatim>\<open>http.go\<close> (accounts, routes, limiter, handlers, servers and accept
    loops); \<open>Ssh_Relay\<close>: a relayed stream of \<^verbatim>\<open>homegw-init/sshrelay.go\<close>, two connections and the
    copies between them.
  \<^item> \<open>Kafka_Sink\<close>: \<^verbatim>\<open>homegw-libs/kafka-sink/lib.go\<close>, every atomic action of writers, worker and \<open>Close\<close> as a
    step.
  \<^item> \<open>Tesla_Api\<close>: \<^verbatim>\<open>homegw-libs/tesla-api\<close> and \<^verbatim>\<open>homegw-libs/concurrency/value_task.go\<close>.
  \<^item> \<open>Os_Commands\<close>: \<^verbatim>\<open>homegw-libs/memfd/lib.go\<close> and the state monad of system calls, in which an oracle
    answers and a trace records, with what the calls do to a memory file; \<open>System_Setup\<close>:
    \<^verbatim>\<open>homegw-libs/disk\<close>, \<^verbatim>\<open>wireguard.go\<close>, \<^verbatim>\<open>netif.go\<close> and the commands of \<^verbatim>\<open>config.go\<close>; \<open>Ssh_Server\<close>: \<^verbatim>\<open>ssh.go\<close>, the gateway's own steps apart from those of the
    processes it starts; \<open>Netboot\<close>: \<^verbatim>\<open>homegw-libs/netboot\<close>.
  \<^item> \<open>Init_Config\<close>: the configuration structs of \<^verbatim>\<open>config.go\<close> and of the components, with their JSON
    tags; \<open>Rt_Control\<close>: \<^verbatim>\<open>homegw-libs/rt-control/lib.go\<close>; \<open>Init_Main\<close>: \<^verbatim>\<open>homegw-init/main.go\<close> and
    \<open>setupLogging\<close>.
  \<^item> This theory composes them: \<open>hot_upgrade\<close> is \<open>main\<close>, the API handler, the OCRAM window and the next
    boot's \<open>loadConfig\<close> in a row.

  \<^bold>\<open>Interfaces.\<close> Locales carry what one component promises another, each interpreted on the model's
  own definitions: step systems with an invariant (\<open>Hgw_Prelude\<close>, for the
  goroutines of five theories), the codec of length-prefixed fields (\<open>Kexec_Package\<close>), the window as a
  store that is read once (\<open>Ocram\<close>), sealed memory files (\<open>Os_Commands\<close>), semaphores (\<open>Go_Sync\<close>, for mutexes
  and for channels used as slots), and the contract of the two kexec handlers (\<open>Kexec_Entry\<close>).

  \<^bold>\<open>What is shown.\<close>
  \<^item> Packages: what the sealer writes is unsealed to the same kernel and configuration; whatever is
    accepted was signed, by a clear-signed digest or through the transparency log, and is not older
    than the running version.
  \<^item> Upgrades: only the kernel of an accepted package is ever loaded, and then the window loads to its
    configuration; refused requests change nothing; an accepted package is carried to the jump with
    exactly the source's effects; the next boot starts from that package's configuration; versions
    never go back over any number of upgrades.
  \<^item> Boot: the serial protocol delivers what the sending script makes of its input and skips what does
    not check; the version a boot runs with is the one \<open>Unseal\<close> checked; \<open>main\<close> comes up
    whatever happens to its optional parts, with the rescue process's key file written first and the
    rescue key equal to the API's; the TFTP server waits for the disks and cannot leave its root.
  \<^item> Secrets: of the keys of disks and WireGuard interfaces nothing but their lengths shows in command
    lines, names and calls, and memory files hold exactly the data they were made for.
  \<^item> API: a handler runs only for a holder of its scope; which of several keys counts.
  \<^item> Concurrency: the log worker loses and reorders nothing, and what \<open>Sync\<close> guarantees; a background
    value is published before it can be seen; the SSH supervisor stops when told to, without relying
    on dropbear, and what its completion does and does not mean for the processes; the relay delivers
    what the client sent, and a session ends with its client unless a peer has no room for data.
  \<^item> Where the program fails: the exact inputs on which it panics, hangs with its lock held, or exits.

  \<^bold>\<open>Bounds and fuel.\<close> The JSON parser has fuel \<open>2 * length s + 1\<close>, which \<open>parse_enough_fuel\<close> shows to be
  enough for every document. The loops that may not end, over \<open>pkill\<close> runs, vehicle lists and the
  counter of delivered messages, are partial functions; that they return is stated as such. All
  other recursion terminates by its own measure. Lengths on the wire, message counts and exit codes
  keep the width the program gives them.

  \<^bold>\<open>Parameters.\<close> The AEAD, OpenPGP and cosign libraries are the fields of \<open>kexec_deps\<close> and \<open>aead_ops\<close>; gin's
  router and basic authentication, the Tesla client, the sarama producer and its default
  configuration, gin's check of account
  tables, the file system of the TFTP server and all answers of the operating system are
  arguments. What a theorem relies on of them is among its hypotheses.

  \<^bold>\<open>Not modelled.\<close> The text of log entries; \<^verbatim>\<open>homegw-libs/kafka-sink/scram_client.go\<close>, which forwards three
  calls to a library; \<^verbatim>\<open>homegw-libs/keyring/lib.go\<close>, three embedded files and one library call;
  \<^verbatim>\<open>homegw-libs/tesla-api/backoff.go\<close>, which configures a library's retry interval, the model retrying
  without limit as it does; TLS, QUIC and TFTP below their handlers; the helper \<^verbatim>\<open>homegw-rt\<close>, which is
  not written in Go.
\<close>

section \<open>From one kernel to the next\<close>

text \<open>
  \<open>hot_upgrade d (c, w) (c', w')\<close>: a gateway that was started from the configuration \<open>c\<close>, over the OCRAM
  window \<open>w\<close>, serves requests until one of them ends in a new kernel, whose init then loads the
  configuration \<open>c'\<close> and leaves the window \<open>w'\<close>.
\<close>

inductive hot_upgrade :: "('s, 'c) kexec_deps \<Rightarrow> InitConfig \<times> bytes \<Rightarrow> InitConfig \<times> bytes \<Rightarrow> bool" for d where
  upgrade: "start_api c = Inr (Some (s, cfg)) \<Longrightarrow> ocram m = w \<Longrightarrow>
     serve (kexec d s) rs m = (outs, m') \<Longrightarrow> Rebooted \<in> set outs \<Longrightarrow>
     config_path lenv = [] \<Longrightarrow> loadConfig unmarshal_InitConfig lenv (ocram m') = (Inr (c', text), w') \<Longrightarrow>
     hot_upgrade d (c, w) (c', w')"

inductive_cases hot_upgradeE: "hot_upgrade d (c, w) (c', w')"

lemma start_api_version: "start_api c = Inr (Some (s, cfg)) \<Longrightarrow> Version s = init_Version c"
  by (auto simp: start_api_def bindR_Inr_iff split: option.splits)

text \<open>What a reboot leaves behind: the image and the window of one and the same package.\<close>

lemma kexec_Rebooted_package:
  assumes "kexec d s env r m = (Rebooted, m')" "ocram_ok (ocram m)"
  shows "\<exists>pkg seg. unsealed d (Version s) (KexecEncryptionKey s) r = Some pkg
    \<and> kexec_image m' = Some seg \<and> seg_buf seg = Kernel pkg
    \<and> ocram m' = ocram_store (Config pkg) (ocram m) \<and> storable (Config pkg)"
proof -
  from assms(1) obtain pkg where c: "KexecEnabled s" "\<not> globalKexecLock m"
    "unsealed d (Version s) (KexecEncryptionKey s) r = Some pkg" "commit_ready env m pkg"
    using kexec_Rebooted_iff [of d s env r m] by auto
  then obtain n where "pkill_loop (pkill_kills env) 0 = Some n" by (auto simp: commit_ready_def)
  from kexec_script [OF c(1,2) assms(2) c(3,4) this] assms(1)
  have "\<exists>seg. kexec_image m' = Some seg \<and> seg_buf seg = Kernel pkg"
    "ocram m' = ocram_store (Config pkg) (ocram m)" by auto
  moreover have "storable (Config pkg)"
    using unsealed_SomeD [OF c(3)] c(4) by (auto simp: Unseal_Inr_iff storable_def commit_ready_def dest: unmarshal_version_no_nul)
  ultimately show ?thesis using c(3) by blast
qed

lemma load_after_reboot:
  assumes "ocram_ok w" "storable c" "config_path lenv = []" "open_mem_ok (mem_dev lenv)" "mmap_ok (mem_dev lenv)"
  shows "load_config_text lenv (ocram_store c w) = (Inr c, replicate (OCRAM_END - OCRAM_START) 0)"
proof -
  have "ocram_ok (ocram_store c w)" using assms(1,2) by (rule window.ready_store)
  then show ?thesis
    using assms window.load_store [OF assms(1,2)] by (simp add: load_config_text_sources ocram_ok_def)
qed

section \<open>Properties\<close>

text \<open>
  C2: A hot upgrade hands over exactly the verified package: if the API handler ends in the new
  kernel, then the image in place is the kernel of a package \<open>Unseal\<close> accepted from the request, and
  the next boot, finding \<^verbatim>\<open>/dev/mem\<close> and no configuration path in its environment, starts from exactly
  that package's configuration and leaves an erased window, whatever the window held before.
\<close>

theorem upgrade_reaches_next_boot:
  assumes "kexec d s env r m = (Rebooted, m')" "length (ocram m) = OCRAM_END - OCRAM_START"
    and "config_path lenv = []" "open_mem_ok (mem_dev lenv)" "mmap_ok (mem_dev lenv)"
  shows "\<exists>pkg seg v. Unseal d (Version s) (KexecEncryptionKey s) (take (nat (ContentLength r)) (Body r))
        (X_External_Signature r) = Inr pkg
    \<and> kexec_image m' = Some seg \<and> seg_buf seg = Kernel pkg
    \<and> load_config_text lenv (ocram m') = (Inr (Config pkg), replicate (OCRAM_END - OCRAM_START) 0)
    \<and> unmarshal_version (Config pkg) = Some v \<and> Version s \<le> v"
proof -
  have ok: "ocram_ok (ocram m)" using assms(2) by (simp add: ocram_ok_def)
  from kexec_Rebooted_package [OF assms(1) ok] obtain pkg seg where
    p: "unsealed d (Version s) (KexecEncryptionKey s) r = Some pkg" "kexec_image m' = Some seg"
      "seg_buf seg = Kernel pkg" "ocram m' = ocram_store (Config pkg) (ocram m)" "storable (Config pkg)" by blast
  have u: "Unseal d (Version s) (KexecEncryptionKey s) (take (nat (ContentLength r)) (Body r)) (X_External_Signature r) = Inr pkg"
    using unsealed_SomeD [OF p(1)] by simp
  then obtain v where "unmarshal_version (Config pkg) = Some v" "Version s \<le> v" by (auto simp: Unseal_Inr_iff)
  with u p load_after_reboot [OF ok p(5) assms(3-5)] show ?thesis by metis
qed

lemma hot_upgrade_version:
  assumes "hot_upgrade d (c, w) (c', w')" "ocram_ok w"
  shows "init_Version c \<le> init_Version c' \<and> ocram_ok w'"
proof -
  from assms(1) obtain s cfg m rs outs m' lenv ctext where upgrade: "start_api c = Inr (Some (s, cfg))" "ocram m = w"
    "serve (kexec d s) rs m = (outs, m')" "Rebooted \<in> set outs" "config_path lenv = []"
    "loadConfig unmarshal_InitConfig lenv (ocram m') = (Inr (c', ctext), w')"
    by (blast elim: hot_upgradeE)
  from api.serve_Rebooted [OF upgrade(3,4)] assms(2) upgrade(2)
  obtain env r m1 where r: "ocram_ok (ocram m1)" "kexec d s env r m1 = (Rebooted, m')" by blast
  obtain pkg where p: "unsealed d (Version s) (KexecEncryptionKey s) r = Some pkg"
    "ocram m' = ocram_store (Config pkg) (ocram m1)" "storable (Config pkg)"
    using kexec_Rebooted_package [OF r(2,1)] by blast
  have "open_mem_ok (mem_dev lenv) \<and> mmap_ok (mem_dev lenv)"
    using upgrade(5,6) by (auto simp: loadConfig_def load_config_text_sources result_simps split: if_splits)
  then have "load_config_text lenv (ocram m') = (Inr (Config pkg), replicate (OCRAM_END - OCRAM_START) 0)"
    using load_after_reboot [OF r(1) p(3) upgrade(5)] p(2) by simp
  with upgrade(6) have "unmarshal_InitConfig (Config pkg) = Some c'" "w' = replicate (OCRAM_END - OCRAM_START) 0"
    by (auto simp: loadConfig_def result_simps split: option.splits)
  moreover from p(1) obtain x where "unmarshal_version (Config pkg) = Some x" "Version s \<le> x"
    using unsealed_SomeD [OF p(1)] by (auto simp: Unseal_Inr_iff)
  ultimately show ?thesis
    using start_api_version [OF upgrade(1)] unmarshal_InitConfig_version [of "Config pkg" c'] by (auto simp: ocram_ok_def)
qed

text \<open>
  C1: Versions never go back: through any number of hot upgrades, each started by any requests
  whatsoever, the version of the configuration the gateway runs with only grows.
\<close>

theorem upgrades_never_roll_back:
  assumes "(hot_upgrade d)\<^sup>*\<^sup>* (c, w) (c', w')" "length w = OCRAM_END - OCRAM_START"
  shows "init_Version c \<le> init_Version c'"
proof -
  have "init_Version c \<le> init_Version c' \<and> ocram_ok w'"
    using assms(1)
  proof (induction rule: rtranclp_induct2)
    case refl
    then show ?case using assms(2) by (simp add: ocram_ok_def)
  next
    case (step c1 w1 c2 w2)
    with hot_upgrade_version [of d c1 w1 c2 w2] show ?case by auto
  qed
  then show ?thesis by simp
qed

section \<open>Witnesses\<close>

definition demo_boot :: load_env where
  "demo_boot = \<lparr>config_path = [], read_file = (\<lambda>_. None), mem_dev = mem_available,
     gs0 = \<lparr>gs0_open_ok = False, tcgets = None, tcsets_ok = False, gs0_input = []\<rparr>\<rparr>"

abbreviation erased_window :: bytes where
  "erased_window \<equiv> replicate (OCRAM_END - OCRAM_START) 0"

lemma demo_boot_simps [simp]:
  "config_path demo_boot = []" "open_mem_ok (mem_dev demo_boot)" "mmap_ok (mem_dev demo_boot)"
  by (simp_all add: demo_boot_def)

lemma demo_window: "ocram demo_machine = erased_window"
  by (simp add: demo_machine_def)

lemma demo_reboot:
  "\<exists>m'. kexec demo_deps demo_server demo_env demo_request demo_machine = (Rebooted, m')
     \<and> ocram m' = ocram_store demo_config erased_window"
  using kexec_script [of demo_server demo_machine demo_deps demo_request
      "\<lparr>Kernel = demo_kernel, Config = demo_config\<rparr>" demo_env 3] demo_unsealed [of 4] demo_ready demo_pkill
  by (auto simp flip: demo_window)

theorem upgrade_reaches_next_boot_witness:
  "\<exists>m' v. kexec demo_deps demo_server demo_env demo_request demo_machine = (Rebooted, m')
     \<and> load_config_text demo_boot (ocram m') = (Inr demo_config, erased_window)
     \<and> unmarshal_version demo_config = Some v \<and> 4 \<le> v"
proof -
  obtain m' where m': "kexec demo_deps demo_server demo_env demo_request demo_machine = (Rebooted, m')"
    using demo_reboot by blast
  have "length (ocram demo_machine) = OCRAM_END - OCRAM_START" using demo_machine_simps(4) by (simp add: ocram_ok_def)
  from upgrade_reaches_next_boot [OF m' this demo_boot_simps] demo_unseal [of 4] length_demo_blob m'
  show ?thesis by (auto simp: demo_request_def)
qed

definition demo_running :: InitConfig where
  "demo_running = demo_init\<lparr>init_Version := 4\<rparr>"

lemma demo_running_api: "start_api demo_running = Inr (Some (demo_server, demo_api))"
proof -
  have "kexec_key (init_KexecEncryptionKey demo_running) = Inr (demo_key, True)"
    by (simp add: kexec_key_enabled_iff demo_running_def demo_init_def demo_key_def)
  then show ?thesis by (simp add: start_api_def demo_running_def demo_server_def demo_disk_def)
qed

lemma demo_next_config: "\<exists>c. unmarshal_InitConfig demo_config = Some c \<and> init_Version c = 5"
  by (simp add: demo_config_def config_eval upper_def make_InitConfig_def field_values_def int_decoder_def in_width_def
      parse_int64_def digits_val_def)

lemma demo_hot_upgrade:
  "\<exists>c. hot_upgrade demo_deps (demo_running, erased_window) (c, erased_window) \<and> init_Version c = 5"
proof -
  obtain m' where m': "kexec demo_deps demo_server demo_env demo_request demo_machine = (Rebooted, m')"
    "ocram m' = ocram_store demo_config erased_window" using demo_reboot by blast
  obtain c where c: "unmarshal_InitConfig demo_config = Some c" "init_Version c = 5" using demo_next_config by blast
  have "storable demo_config" by (simp add: storable_def demo_config_def OCRAM_START_def OCRAM_END_def)
  then have "load_config_text demo_boot (ocram m') = (Inr demo_config, erased_window)"
    unfolding m'(2) by (intro load_after_reboot) (simp_all add: ocram_ok_def)
  then have l: "loadConfig unmarshal_InitConfig demo_boot (ocram m') = (Inr (c, demo_config), erased_window)"
    using c(1) by (simp add: loadConfig_def)
  have "serve (kexec demo_deps demo_server) [(demo_env, demo_request)] demo_machine = ([Rebooted], m')"
    using m'(1) by simp
  from hot_upgrade.upgrade [OF demo_running_api demo_window this _ demo_boot_simps(1) l] c(2)
  show ?thesis by auto
qed

theorem upgrades_never_roll_back_witness:
  "\<exists>c. (hot_upgrade demo_deps)\<^sup>*\<^sup>* (demo_running, erased_window) (c, erased_window)
     \<and> init_Version c = 5 \<and> init_Version demo_running \<le> init_Version c"
  using upgrades_never_roll_back [of demo_deps demo_running erased_window _ erased_window] demo_hot_upgrade by auto

end
